(* ===== verification/Prelude.thy ===== *)
theory Prelude
  imports Complex_Main
begin

text \<open>
  Shared vocabulary of the development: results and thrown errors, ECMAScript numbers, the
  closed value vocabularies of \<^verbatim>\<open>record-contract/primitives.ts\<close>, structured reasons, and
  the list lemmas the component theories use.

  Conventions of every theory:
  \<^item> a \<^verbatim>\<open>Result<T, E>\<close> is a value of \<open>'e + 'a\<close>, \<open>Inr\<close> for \<^verbatim>\<open>ok\<close> and \<open>Inl\<close> for \<^verbatim>\<open>err\<close>;
  \<^item> a function that may throw returns \<open>js_throw + 'a\<close>;
  \<^item> \<^verbatim>\<open>undefined\<close> members are \<open>None\<close>;
  \<^item> a \<^verbatim>\<open>bigint\<close> is an \<open>int\<close>; a \<^verbatim>\<open>number\<close> whose integrality the code checks at run time is a
    \<open>js_number\<close>, and one the code's types and checks keep integral is an \<open>int\<close>;
  \<^item> the free-text \<^verbatim>\<open>detail\<close> of a structured reason is not modelled: no branch of the code
    reads it. Its \<^verbatim>\<open>code\<close> and \<^verbatim>\<open>subject\<close> are kept as the strings of the source.
\<close>

named_theorems vocab_simps \<open>membership facts about the closed vocabularies\<close>

subsection \<open>Thrown errors\<close>

text \<open>
  The faults of the refund provider (\<^verbatim>\<open>provider-fault.ts\<close>) and of the treatment controller
  (\<^verbatim>\<open>controller-fault.ts\<close>) carry the code, the phase and the identity their handlers log.
  \<open>NamedError\<close> is any other thrown value, with the name \<^verbatim>\<open>errorCode\<close> gives it.
\<close>

datatype provider_fault_code =
  UNATTRIBUTABLE_CALL | CONFIGURATION_MISSING | PROVIDER_STATE_UNREADABLE | PROVIDER_JOURNAL_STOPPED
| COMMIT_FAILED | COMMIT_AMBIGUOUS | TREATMENT_UNEXPECTED | TRANSITION_AMBIGUOUS
| WARMUP_REQUEST_INVALID

datatype fault_phase = BeforeCommit | CommitUnknown | AfterCommit

datatype controller_fault_code =
  STATE_UNREADABLE | JOURNAL_STOPPED | SIGNAL_AMBIGUOUS | SIGNAL_FAILED | SIGNAL_REDECIDED_TO_SIGNAL

datatype js_throw =
    RangeError
  | TypeError
  | ErrorThrown
  | NamedError string
  | ProviderFault provider_fault_code fault_phase string
  | ControllerFault controller_fault_code string

subsection \<open>ECMAScript numbers\<close>

text \<open>
  A \<^verbatim>\<open>number\<close> is a finite value, an infinity or not-a-number. Finite values are rationals; the
  doubles are a subset of them, and no modelled code rounds.
\<close>

datatype js_number = Num rat | Infinite bool | NaN

definition MAX_SAFE_INTEGER :: int where
  "MAX_SAFE_INTEGER = 2 ^ 53 - 1"

definition rat_is_int :: "rat \<Rightarrow> bool" where
  "rat_is_int q \<longleftrightarrow> snd (quotient_of q) = 1"

fun isSafeInteger :: "js_number \<Rightarrow> bool" where
  "isSafeInteger (Num q) \<longleftrightarrow> rat_is_int q \<and> \<bar>q\<bar> \<le> of_int MAX_SAFE_INTEGER"
| "isSafeInteger _ \<longleftrightarrow> False"

definition JsInt :: "int \<Rightarrow> js_number" where
  "JsInt n = Num (of_int n)"

fun int_of_number :: "js_number \<Rightarrow> int" where
  "int_of_number (Num q) = \<lfloor>q\<rfloor>"
| "int_of_number _ = 0"

text \<open>ECMAScript comparisons: every comparison with \<open>NaN\<close> is false.\<close>

fun js_less :: "js_number \<Rightarrow> js_number \<Rightarrow> bool" where
  "js_less (Num p) (Num q) \<longleftrightarrow> p < q"
| "js_less (Num p) (Infinite s) \<longleftrightarrow> s"
| "js_less (Infinite s) (Num q) \<longleftrightarrow> \<not> s"
| "js_less (Infinite s) (Infinite t) \<longleftrightarrow> \<not> s \<and> t"
| "js_less NaN _ \<longleftrightarrow> False"
| "js_less _ NaN \<longleftrightarrow> False"

fun js_strict_eq :: "js_number \<Rightarrow> js_number \<Rightarrow> bool" where
  "js_strict_eq NaN _ \<longleftrightarrow> False"
| "js_strict_eq _ NaN \<longleftrightarrow> False"
| "js_strict_eq a b \<longleftrightarrow> a = b"

lemma rat_is_int_of_int [simp]: "rat_is_int (of_int n)"
  by (simp add: rat_is_int_def)

lemma rat_is_int_iff: "rat_is_int q \<longleftrightarrow> (\<exists>n. q = of_int n)"
proof
  assume "rat_is_int q"
  then obtain n where "quotient_of q = (n, 1)"
    by (metis prod.collapse rat_is_int_def)
  then have "q = of_int n"
    using quotient_of_div by fastforce
  then show "\<exists>n. q = of_int n" ..
qed auto

lemma isSafeInteger_JsInt [simp]: "isSafeInteger (JsInt n) \<longleftrightarrow> \<bar>n\<bar> \<le> MAX_SAFE_INTEGER"
  by (simp add: JsInt_def of_int_abs [symmetric] del: of_int_abs)

lemma isSafeIntegerE:
  assumes "isSafeInteger v"
  obtains n where "v = JsInt n" and "\<bar>n\<bar> \<le> MAX_SAFE_INTEGER"
proof (cases v)
  case (Num q)
  with assms obtain n where "q = of_int n"
    by (auto simp: rat_is_int_iff)
  with Num have "v = JsInt n" by (simp add: JsInt_def)
  with assms that show thesis by simp
qed (use assms in auto)

lemma int_of_number_JsInt [simp]: "int_of_number (JsInt n) = n"
  by (simp add: JsInt_def)

lemma JsInt_inject [simp]: "JsInt m = JsInt n \<longleftrightarrow> m = n"
  by (simp add: JsInt_def)

lemma js_less_JsInt [simp]: "js_less (JsInt m) (JsInt n) \<longleftrightarrow> m < n"
  by (simp add: JsInt_def)

subsection \<open>Vocabularies of \<^verbatim>\<open>primitives.ts\<close>\<close>

type_synonym uuid4 = string
type_synonym sha256_hex = string
type_synonym utc_millis = string

datatype execution_kind = RUN | TRANSPORT_PROBE | VARIANT_VALIDATION
datatype variant_id = Conventional | Durable
datatype scenario = CONTROL | COMMIT_THEN_TIMEOUT
datatype gate_value = Verified | Invalid | Unverified | NotApplicable
datatype rule_outcome = Pass | Fail | Indeterminate | RuleNotApplicable

datatype execution_identity =
    RunIdentity uuid4
  | ProbeIdentity uuid4
  | ValidationIdentity uuid4

fun execution_kind_of :: "execution_identity \<Rightarrow> execution_kind" where
  "execution_kind_of (RunIdentity _) = RUN"
| "execution_kind_of (ProbeIdentity _) = TRANSPORT_PROBE"
| "execution_kind_of (ValidationIdentity _) = VARIANT_VALIDATION"

fun executionIdOf :: "execution_identity \<Rightarrow> uuid4" where
  "executionIdOf (RunIdentity i) = i"
| "executionIdOf (ProbeIdentity i) = i"
| "executionIdOf (ValidationIdentity i) = i"

record structured_reason =
  reason_code :: string
  reason_subject :: string

abbreviation mk_reason :: "string \<Rightarrow> string \<Rightarrow> structured_reason" where
  "mk_reason c s \<equiv> \<lparr>reason_code = c, reason_subject = s\<rparr>"

subsection \<open>Lists\<close>

text \<open>
  Every element of a list that satisfies a test, guarded: the \<^verbatim>\<open>...(c ? [x] : [])\<close> idiom of
  the source.
\<close>

abbreviation when_list :: "bool \<Rightarrow> 'a \<Rightarrow> 'a list" where
  "when_list c x \<equiv> (if c then [x] else [])"

lemma last_mem_filter: "filter P xs \<noteq> [] \<Longrightarrow> last (filter P xs) \<in> set xs \<and> P (last (filter P xs))"
  using last_in_set [of "filter P xs"] by auto

lemma foldl_absorbing:
  assumes "\<And>x. f a x = a"
  shows "foldl f a xs = a"
  using assms by (induction xs) auto

lemma foldl_invariant:
  assumes "P a" and "\<And>a x. P a \<Longrightarrow> x \<in> set xs \<Longrightarrow> P (f a x)"
  shows "P (foldl f a xs)"
  using assms by (induction xs arbitrary: a) auto

lemma find_Some_mem: "List.find P xs = Some x \<Longrightarrow> x \<in> set xs \<and> P x"
  by (induction xs) (auto split: if_splits)

lemma find_None_all: "List.find P xs = None \<longleftrightarrow> (\<forall>x\<in>set xs. \<not> P x)"
  by (auto simp: find_None_iff)

lemma sort_key_filter_eq: "filter (\<lambda>y. f y = k) (sort_key f xs) = filter (\<lambda>y. f y = k) xs"
  by (rule sort_key_stable)

end
