(* ===== verification/Attempt_Lifecycle.thy ===== *)
theory Attempt_Lifecycle
  imports Prelude
begin

text \<open>
  The \<^verbatim>\<open>attempt-lifecycle/\<close> module: dispatch classification, outcome classes, the
  effect-knowledge table with its fold, and terminality across retry layers. The vocabularies
  come from \<^verbatim>\<open>records/group-b/vocabulary.ts\<close>.
\<close>

datatype attempt_outcome = SUCCEEDED | REJECTED | TIMED_OUT | FAILED
datatype dispatch_state = NOT_DISPATCHED | DISPATCHED | DISPATCH_UNKNOWN
datatype effect_knowledge =
    NOT_ATTEMPTED | NO_EFFECT_CONFIRMED | ONE_EFFECT_CONFIRMED | MULTIPLE_EFFECTS_CONFIRMED
  | EFFECT_UNKNOWN

subsection \<open>Dispatch classification\<close>

text \<open>An evidence member is \<^verbatim>\<open>boolean | 'unknown'\<close>: \<open>None\<close> is \<^verbatim>\<open>'unknown'\<close>.\<close>

record dispatch_evidence =
  pre_dispatch_registered :: "bool option"
  not_dispatched_transition_recorded :: "bool option"
  dispatch_started_recorded :: "bool option"

definition classifyDispatch :: "dispatch_evidence \<Rightarrow> dispatch_state" where
  "classifyDispatch e =
     (if dispatch_started_recorded e = Some True then DISPATCHED
      else if not_dispatched_transition_recorded e = Some True
              \<and> pre_dispatch_registered e \<noteq> Some False then NOT_DISPATCHED
      else DISPATCH_UNKNOWN)"

subsection \<open>Outcome classes\<close>

datatype outcome_class = PRE_DISPATCH_FAILURE | REJECTION | SUCCESS | AMBIGUOUS

fun DISPATCHED_OUTCOME_CLASSES :: "attempt_outcome \<Rightarrow> outcome_class" where
  "DISPATCHED_OUTCOME_CLASSES SUCCEEDED = SUCCESS"
| "DISPATCHED_OUTCOME_CLASSES REJECTED = REJECTION"
| "DISPATCHED_OUTCOME_CLASSES TIMED_OUT = AMBIGUOUS"
| "DISPATCHED_OUTCOME_CLASSES FAILED = AMBIGUOUS" \<comment> \<open>outside the table's domain, never looked up\<close>

definition OUTCOME_DISPATCH_CONTRADICTION :: string where
  "OUTCOME_DISPATCH_CONTRADICTION = ''OUTCOME_DISPATCH_CONTRADICTION''"

definition classifyOutcome ::
  "attempt_outcome \<Rightarrow> dispatch_state \<Rightarrow> structured_reason + outcome_class" where
  "classifyOutcome outcome dispatch =
     (if outcome = FAILED
      then Inr (if dispatch = NOT_DISPATCHED then PRE_DISPATCH_FAILURE else AMBIGUOUS)
      else if dispatch = NOT_DISPATCHED
      then Inl (mk_reason OUTCOME_DISPATCH_CONTRADICTION ''BR-RUA-021'')
      else Inr (DISPATCHED_OUTCOME_CLASSES outcome))"

subsection \<open>Effect knowledge\<close>

fun EFFECT_KNOWLEDGE_TABLE :: "effect_knowledge \<Rightarrow> outcome_class \<Rightarrow> effect_knowledge" where
  "EFFECT_KNOWLEDGE_TABLE NOT_ATTEMPTED PRE_DISPATCH_FAILURE = NOT_ATTEMPTED"
| "EFFECT_KNOWLEDGE_TABLE NOT_ATTEMPTED REJECTION = NO_EFFECT_CONFIRMED"
| "EFFECT_KNOWLEDGE_TABLE NOT_ATTEMPTED SUCCESS = ONE_EFFECT_CONFIRMED"
| "EFFECT_KNOWLEDGE_TABLE NOT_ATTEMPTED AMBIGUOUS = EFFECT_UNKNOWN"
| "EFFECT_KNOWLEDGE_TABLE NO_EFFECT_CONFIRMED PRE_DISPATCH_FAILURE = NO_EFFECT_CONFIRMED"
| "EFFECT_KNOWLEDGE_TABLE NO_EFFECT_CONFIRMED REJECTION = NO_EFFECT_CONFIRMED"
| "EFFECT_KNOWLEDGE_TABLE NO_EFFECT_CONFIRMED SUCCESS = ONE_EFFECT_CONFIRMED"
| "EFFECT_KNOWLEDGE_TABLE NO_EFFECT_CONFIRMED AMBIGUOUS = EFFECT_UNKNOWN"
| "EFFECT_KNOWLEDGE_TABLE ONE_EFFECT_CONFIRMED PRE_DISPATCH_FAILURE = ONE_EFFECT_CONFIRMED"
| "EFFECT_KNOWLEDGE_TABLE ONE_EFFECT_CONFIRMED REJECTION = ONE_EFFECT_CONFIRMED"
| "EFFECT_KNOWLEDGE_TABLE ONE_EFFECT_CONFIRMED SUCCESS = MULTIPLE_EFFECTS_CONFIRMED"
| "EFFECT_KNOWLEDGE_TABLE ONE_EFFECT_CONFIRMED AMBIGUOUS = EFFECT_UNKNOWN"
| "EFFECT_KNOWLEDGE_TABLE MULTIPLE_EFFECTS_CONFIRMED PRE_DISPATCH_FAILURE = MULTIPLE_EFFECTS_CONFIRMED"
| "EFFECT_KNOWLEDGE_TABLE MULTIPLE_EFFECTS_CONFIRMED REJECTION = MULTIPLE_EFFECTS_CONFIRMED"
| "EFFECT_KNOWLEDGE_TABLE MULTIPLE_EFFECTS_CONFIRMED SUCCESS = MULTIPLE_EFFECTS_CONFIRMED"
| "EFFECT_KNOWLEDGE_TABLE MULTIPLE_EFFECTS_CONFIRMED AMBIGUOUS = EFFECT_UNKNOWN"
| "EFFECT_KNOWLEDGE_TABLE EFFECT_UNKNOWN PRE_DISPATCH_FAILURE = EFFECT_UNKNOWN"
| "EFFECT_KNOWLEDGE_TABLE EFFECT_UNKNOWN REJECTION = EFFECT_UNKNOWN"
| "EFFECT_KNOWLEDGE_TABLE EFFECT_UNKNOWN SUCCESS = EFFECT_UNKNOWN"
| "EFFECT_KNOWLEDGE_TABLE EFFECT_UNKNOWN AMBIGUOUS = EFFECT_UNKNOWN"

definition INITIAL_EFFECT_KNOWLEDGE :: effect_knowledge where
  "INITIAL_EFFECT_KNOWLEDGE = NOT_ATTEMPTED"

definition nextEffectKnowledge :: "effect_knowledge \<Rightarrow> outcome_class \<Rightarrow> effect_knowledge" where
  "nextEffectKnowledge k c = EFFECT_KNOWLEDGE_TABLE k c"

definition OUTCOME_CLASSES :: "outcome_class list" where
  "OUTCOME_CLASSES = [PRE_DISPATCH_FAILURE, REJECTION, SUCCESS, AMBIGUOUS]"

definition isPermittedKnowledgeTransition :: "effect_knowledge \<Rightarrow> effect_knowledge \<Rightarrow> bool" where
  "isPermittedKnowledgeTransition k k' \<longleftrightarrow> k' \<in> set (map (EFFECT_KNOWLEDGE_TABLE k) OUTCOME_CLASSES)"

definition foldEffectKnowledge :: "outcome_class list \<Rightarrow> effect_knowledge" where
  "foldEffectKnowledge cs = foldl nextEffectKnowledge INITIAL_EFFECT_KNOWLEDGE cs"

subsection \<open>Terminality across retry layers\<close>

datatype retry_layer_facts =
    ConventionalFacts (receive_count: js_number) (max_receive_count: js_number)
      (attempt_ambiguous_or_failed: bool)
  | DurableFacts (receive_count: js_number) (max_receive_count: js_number)
      (inner_execution_exhausted: bool)
  | ProbeFacts (attempt_ambiguous_or_failed: bool)

datatype terminality_decision = STILL_RUNNING | RETRIES_EXHAUSTED_DECISION

definition isPositiveSafeInteger :: "js_number \<Rightarrow> bool" where
  "isPositiveSafeInteger v \<longleftrightarrow> isSafeInteger v \<and> \<not> js_less v (JsInt 1)"

definition assertReceiveCounts :: "js_number \<Rightarrow> js_number \<Rightarrow> js_throw option" where
  "assertReceiveCounts rc mx =
     (if \<not> isPositiveSafeInteger rc \<or> \<not> isPositiveSafeInteger mx then Some RangeError
      else if js_less mx rc then Some RangeError
      else None)"

definition assertFailure :: "bool \<Rightarrow> js_throw option" where
  "assertFailure failed = (if failed then None else Some RangeError)"

fun decideTerminality :: "retry_layer_facts \<Rightarrow> js_throw + terminality_decision" where
  "decideTerminality (ProbeFacts failed) =
     (case assertFailure failed of Some e \<Rightarrow> Inl e | None \<Rightarrow> Inr RETRIES_EXHAUSTED_DECISION)"
| "decideTerminality (DurableFacts rc mx exhausted) =
     (case assertReceiveCounts rc mx of
        Some e \<Rightarrow> Inl e
      | None \<Rightarrow>
          if \<not> exhausted then Inr STILL_RUNNING
          else Inr (if js_less rc mx then STILL_RUNNING else RETRIES_EXHAUSTED_DECISION))"
| "decideTerminality (ConventionalFacts rc mx failed) =
     (case assertReceiveCounts rc mx of
        Some e \<Rightarrow> Inl e
      | None \<Rightarrow>
         (case assertFailure failed of
            Some e \<Rightarrow> Inl e
          | None \<Rightarrow> Inr (if js_less rc mx then STILL_RUNNING else RETRIES_EXHAUSTED_DECISION)))"

subsection \<open>Lemmas\<close>

lemma EFFECT_UNKNOWN_absorbing [simp]: "nextEffectKnowledge EFFECT_UNKNOWN c = EFFECT_UNKNOWN"
  by (cases c) (simp_all add: nextEffectKnowledge_def)

lemma AMBIGUOUS_unknown [simp]: "nextEffectKnowledge k AMBIGUOUS = EFFECT_UNKNOWN"
  by (cases k) (simp_all add: nextEffectKnowledge_def)

text \<open>The number of successes a list of attempts contains decides a history without ambiguity.\<close>

fun knowledge_rank :: "nat \<Rightarrow> nat \<Rightarrow> effect_knowledge" where
  "knowledge_rank rejections 0 = (if rejections = 0 then NOT_ATTEMPTED else NO_EFFECT_CONFIRMED)"
| "knowledge_rank _ (Suc 0) = ONE_EFFECT_CONFIRMED"
| "knowledge_rank _ (Suc (Suc _)) = MULTIPLE_EFFECTS_CONFIRMED"

lemma next_knowledge_rank:
  "nextEffectKnowledge (knowledge_rank r s) c =
     (if c = AMBIGUOUS then EFFECT_UNKNOWN
      else knowledge_rank (r + (if c = REJECTION then 1 else 0)) (s + (if c = SUCCESS then 1 else 0)))"
  by (cases "(r, s)" rule: knowledge_rank.cases; cases c) (simp_all add: nextEffectKnowledge_def)

lemma foldl_knowledge_rank:
  "foldl nextEffectKnowledge (knowledge_rank r s) cs =
     (if AMBIGUOUS \<in> set cs then EFFECT_UNKNOWN
      else knowledge_rank (r + count_list cs REJECTION) (s + count_list cs SUCCESS))"
proof (induction cs arbitrary: r s)
  case Nil
  then show ?case by simp
next
  case (Cons c cs)
  show ?case
  proof (cases "c = AMBIGUOUS")
    case True
    then show ?thesis by (simp add: foldl_absorbing)
  next
    case False
    then show ?thesis by (simp add: next_knowledge_rank Cons.IH)
  qed
qed

lemma isPositiveSafeInteger_JsInt [simp]:
  "isPositiveSafeInteger (JsInt n) \<longleftrightarrow> 1 \<le> n \<and> n \<le> MAX_SAFE_INTEGER"
  by (auto simp: isPositiveSafeInteger_def)

subsection \<open>Properties\<close>

text \<open>
  C14: the request's effect knowledge after any sequence of attempts is \<open>UNKNOWN\<close> exactly when
  some attempt was ambiguous, and otherwise counts the confirmed successes: none attempted, no
  effect (only rejections), one, or more than one.
\<close>

theorem foldEffectKnowledge_counts:
  "foldEffectKnowledge cs =
     (if AMBIGUOUS \<in> set cs then EFFECT_UNKNOWN
      else if count_list cs SUCCESS = 0
           then (if count_list cs REJECTION = 0 then NOT_ATTEMPTED else NO_EFFECT_CONFIRMED)
      else if count_list cs SUCCESS = 1 then ONE_EFFECT_CONFIRMED
      else MULTIPLE_EFFECTS_CONFIRMED)"
proof -
  have "foldEffectKnowledge cs = foldl nextEffectKnowledge (knowledge_rank 0 0) cs"
    by (simp add: foldEffectKnowledge_def INITIAL_EFFECT_KNOWLEDGE_def)
  also have "\<dots> = (if AMBIGUOUS \<in> set cs then EFFECT_UNKNOWN
      else knowledge_rank (count_list cs REJECTION) (count_list cs SUCCESS))"
    using foldl_knowledge_rank [of 0 0 cs] by simp
  finally show ?thesis
    by (cases "(count_list cs REJECTION, count_list cs SUCCESS)" rule: knowledge_rank.cases) auto
qed

end
