(* ===== verification/Timestamps.thy ===== *)
theory Timestamps
  imports Prelude
begin

text \<open>
  \<^verbatim>\<open>record-contract/timestamps.ts\<close>: UTC millisecond instants written
  \<^verbatim>\<open>YYYY-MM-DDTHH:mm:ss.SSSZ\<close>, with the parts of the ECMAScript \<^verbatim>\<open>Date\<close> the module uses: the
  proleptic Gregorian calendar, \<^verbatim>\<open>Date.parse\<close> of that format and \<^verbatim>\<open>toISOString\<close>. The main
  result is that formatting and parsing are inverse on the instants of years 0000 to 9999, so a
  valid timestamp text and its time value determine each other.
\<close>

subsection \<open>Decimal digits\<close>

definition is_digit :: "char \<Rightarrow> bool" where
  "is_digit c \<longleftrightarrow> c \<in> set ''0123456789''"

definition digit_value :: "char \<Rightarrow> nat" where
  "digit_value c = length (takeWhile (\<lambda>d. d \<noteq> c) ''0123456789'') mod 10"

definition digit_char :: "nat \<Rightarrow> char" where
  "digit_char d = ''0123456789'' ! (d mod 10)"

definition parse_nat :: "string \<Rightarrow> nat" where
  "parse_nat s = foldl (\<lambda>acc c. acc * 10 + digit_value c) 0 s"

fun pad_nat :: "nat \<Rightarrow> nat \<Rightarrow> string" where
  "pad_nat 0 n = []"
| "pad_nat (Suc k) n = pad_nat k (n div 10) @ [digit_char (n mod 10)]"

lemma digit_value_digit_char [simp]: "d < 10 \<Longrightarrow> digit_value (digit_char d) = d"
proof -
  assume "d < 10"
  then have "d = 0 \<or> d = 1 \<or> d = 2 \<or> d = 3 \<or> d = 4 \<or> d = 5 \<or> d = 6 \<or> d = 7 \<or> d = 8 \<or> d = 9"
    by auto
  then show ?thesis by (auto simp: digit_value_def digit_char_def)
qed

lemma is_digit_digit_char [simp]: "is_digit (digit_char d)"
  unfolding is_digit_def digit_char_def by (rule nth_mem) simp

lemma digit_char_digit_value [simp]: "is_digit c \<Longrightarrow> digit_char (digit_value c) = c"
  by (auto simp: is_digit_def digit_value_def digit_char_def)

lemma digit_value_less [simp]: "digit_value c < 10"
  by (simp add: digit_value_def)

lemma parse_nat_snoc [simp]: "parse_nat (s @ [c]) = parse_nat s * 10 + digit_value c"
  by (simp add: parse_nat_def)

lemma parse_nat_Nil [simp]: "parse_nat [] = 0"
  by (simp add: parse_nat_def)

lemma length_pad_nat [simp]: "length (pad_nat k n) = k"
  by (induction k arbitrary: n) auto

lemma pad_nat_digits: "list_all is_digit (pad_nat k n)"
  by (induction k arbitrary: n) auto

lemma parse_pad_nat [simp]: "n < 10 ^ k \<Longrightarrow> parse_nat (pad_nat k n) = n"
  by (induction k arbitrary: n) (auto simp: less_mult_imp_div_less mult.commute)

lemma pad_parse_nat: "list_all is_digit s \<Longrightarrow> pad_nat (length s) (parse_nat s) = s"
  by (induction s rule: rev_induct) auto

lemma parse_nat_bound: "list_all is_digit s \<Longrightarrow> parse_nat s < 10 ^ length s"
proof (induction s rule: rev_induct)
  case (snoc c s)
  then have "parse_nat s < 10 ^ length s" and "digit_value c < 10" by simp_all
  then have "parse_nat s * 10 + digit_value c < 10 ^ length s * 10" by linarith
  then show ?case by (simp add: mult.commute)
qed simp

subsection \<open>The calendar\<close>

definition is_leap :: "int \<Rightarrow> bool" where
  "is_leap y \<longleftrightarrow> y mod 4 = 0 \<and> (y mod 100 \<noteq> 0 \<or> y mod 400 = 0)"

definition day_from_year :: "int \<Rightarrow> int" where
  "day_from_year y = 365 * (y - 1970) + (y - 1969) div 4 - (y - 1901) div 100 + (y - 1601) div 400"

definition year_of_day :: "int \<Rightarrow> int" where
  "year_of_day d =
     (let y = 1970 + (400 * d) div 146097
      in if d < day_from_year y then y - 1
         else if day_from_year (y + 1) \<le> d then y + 1 else y)"

definition month_lengths :: "bool \<Rightarrow> int list" where
  "month_lengths leap = [31, if leap then 29 else 28, 31, 30, 31, 30, 31, 31, 30, 31, 30, 31]"

fun split_months :: "int list \<Rightarrow> int \<Rightarrow> int \<times> int" where
  "split_months [] d = (1, d)"
| "split_months (l # ls) d =
     (if d < l then (1, d) else (let (m, r) = split_months ls (d - l) in (m + 1, r)))"

definition days_before_month :: "bool \<Rightarrow> nat \<Rightarrow> int" where
  "days_before_month leap m = sum_list (take (m - 1) (month_lengths leap))"

definition days_in_month :: "bool \<Rightarrow> nat \<Rightarrow> int" where
  "days_in_month leap m = month_lengths leap ! (m - 1)"

lemma div_step:
  fixes a k :: int
  assumes "0 < k"
  shows "a div k = (a - 1) div k + (if a mod k = 0 then 1 else 0)"
proof (cases "a mod k = 0")
  case True
  then obtain q where q: "a = k * q" by (auto simp: mod_eq_0_iff_dvd)
  have "(a - 1) div k = q - 1"
    by (rule int_div_pos_eq [of _ _ _ "k - 1"]) (use assms q in \<open>auto simp: algebra_simps\<close>)
  with q assms show ?thesis by simp
next
  case False
  then have "0 < a mod k" using assms by (simp add: order_less_le)
  then have "(a - 1) div k = a div k"
    using assms pos_mod_bound [of k a]
    by (intro int_div_pos_eq [of _ _ _ "a mod k - 1"]) (auto intro: order.strict_trans [of _ "a mod k"])
  with False show ?thesis by simp
qed

lemma leap_arith:
  fixes A A' B B' C C' x :: int
  assumes "A' = A + (if p then 1 else 0)" and "B' = B + (if q then 1 else 0)"
    and "C' = C + (if r then 1 else 0)" and "r \<Longrightarrow> q" and "q \<Longrightarrow> p"
  shows "x + 365 + A' - B' + C' = (x + A - B + C) + (if p \<and> (\<not> q \<or> r) then 366 else 365)"
  using assms by (cases p; cases q; cases r) simp_all

lemma div_bounds: "0 < k \<Longrightarrow> \<exists>A. a div k = A \<and> k * A \<le> a \<and> a < k * A + k" for a k :: int
  by (metis add_le_cancel_left add.commute add_0 mult.commute div_mult_mod_eq pos_mod_bound
      pos_mod_sign add_less_cancel_left add.right_neutral)

lemma day_from_year_Suc: "day_from_year (y + 1) = day_from_year y + (if is_leap y then 366 else 365)"
proof -
  have d4: "(y - 1968) div 4 = (y - 1969) div 4 + (if y mod 4 = 0 then 1 else 0)"
    using div_step [of 4 "y - 1968"] mod_diff_eq [of y 4 1968] by auto
  have d100: "(y - 1900) div 100 = (y - 1901) div 100 + (if y mod 100 = 0 then 1 else 0)"
    using div_step [of 100 "y - 1900"] mod_diff_eq [of y 100 1900] by auto
  have d400: "(y - 1600) div 400 = (y - 1601) div 400 + (if y mod 400 = 0 then 1 else 0)"
    using div_step [of 400 "y - 1600"] mod_diff_eq [of y 400 1600] by auto
  have "y mod 400 = 0 \<Longrightarrow> y mod 100 = 0"
    using dvd_trans [of 100 400 y] by (simp add: mod_eq_0_iff_dvd)
  moreover have "y mod 100 = 0 \<Longrightarrow> y mod 4 = 0"
    using dvd_trans [of 4 100 y] by (simp add: mod_eq_0_iff_dvd)
  moreover have "day_from_year (y + 1) =
      365 * (y - 1970) + 365 + (y - 1968) div 4 - (y - 1900) div 100 + (y - 1600) div 400"
    unfolding day_from_year_def by (simp add: algebra_simps)
  ultimately show ?thesis
    unfolding is_leap_def day_from_year_def [of y]
    using leap_arith [OF d4 d100 d400, of "365 * (y - 1970)"] by metis
qed

lemma day_from_year_mono: "y \<le> z \<Longrightarrow> day_from_year y + 365 * (z - y) \<le> day_from_year z"
proof (induction "nat (z - y)" arbitrary: z)
  case 0
  then show ?case by simp
next
  case (Suc n)
  then have "day_from_year y + 365 * (z - 1 - y) \<le> day_from_year (z - 1)"
    by (intro Suc.hyps(1)) auto
  moreover have "day_from_year z \<ge> day_from_year (z - 1) + 365"
    using day_from_year_Suc [of "z - 1"] by simp
  ultimately show ?case by simp
qed

lemma year_low_arith:
  fixes A B C d Q :: int
  assumes "146097 * Q \<le> 400 * d" and "4 * A \<le> Q" and "Q + 68 < 100 * B + 100" and "400 * C \<le> Q + 368"
  shows "365 * (Q - 1) + A - B + C \<le> d"
proof -
  have "400 * A \<le> 100 * Q" "400 * B > 4 * Q - 128" using assms by simp_all
  with assms have "365 * Q * 400 - 365 * 400 + 400 * A - 400 * B + 400 * C \<le> 400 * d" by simp
  then show ?thesis by (simp add: algebra_simps)
qed

lemma year_high_arith:
  fixes A B C d Q :: int
  assumes "400 * d < 146097 * Q + 146097" and "Q + 3 < 4 * A + 4" and "100 * B \<le> Q + 71"
    and "Q + 371 < 400 * C + 400"
  shows "d < 365 * (Q + 2) + A - B + C"
proof -
  have "400 * A > 100 * Q - 100" "400 * B \<le> 4 * Q + 284" using assms by simp_all
  with assms have "400 * d < 365 * Q * 400 + 730 * 400 + 400 * A - 400 * B + 400 * C" by simp
  then show ?thesis by (simp add: algebra_simps)
qed

lemma year_of_day_bounds:
  "day_from_year (year_of_day d) \<le> d \<and> d < day_from_year (year_of_day d + 1)"
proof -
  define y where "y = 1970 + (400 * d) div 146097"
  obtain Q where Q: "y = 1970 + Q" "146097 * Q \<le> 400 * d" "400 * d < 146097 * Q + 146097"
    using div_bounds [of 146097 "400 * d"] y_def by auto
  have low: "day_from_year (y - 1) \<le> d"
  proof -
    obtain A B C where "Q div 4 = A" "4 * A \<le> Q" "(Q + 68) div 100 = B" "Q + 68 < 100 * B + 100"
      "(Q + 368) div 400 = C" "400 * C \<le> Q + 368"
      using div_bounds [of 4 Q] div_bounds [of 100 "Q + 68"] div_bounds [of 400 "Q + 368"] by auto
    with year_low_arith [of Q d A B C] Q show ?thesis by (simp add: day_from_year_def)
  qed
  have high: "d < day_from_year (y + 2)"
  proof -
    obtain A B C where "(Q + 3) div 4 = A" "Q + 3 < 4 * A + 4" "(Q + 71) div 100 = B" "100 * B \<le> Q + 71"
      "(Q + 371) div 400 = C" "Q + 371 < 400 * C + 400"
      using div_bounds [of 4 "Q + 3"] div_bounds [of 100 "Q + 71"] div_bounds [of 400 "Q + 371"] by auto
    with year_high_arith [of d Q A B C] Q show ?thesis by (simp add: day_from_year_def)
  qed
  show ?thesis
    using low high unfolding year_of_day_def y_def [symmetric] Let_def
    by (auto simp: add.commute)
qed

lemma year_of_day_eqI:
  assumes "day_from_year y \<le> d" and "d < day_from_year (y + 1)"
  shows "year_of_day d = y"
proof (rule antisym)
  show "year_of_day d \<le> y"
  proof (rule ccontr)
    assume "\<not> year_of_day d \<le> y"
    then have "day_from_year (y + 1) \<le> day_from_year (year_of_day d)"
      using day_from_year_mono [of "y + 1" "year_of_day d"] by simp
    with assms(2) year_of_day_bounds [of d] show False by linarith
  qed
  show "y \<le> year_of_day d"
  proof (rule ccontr)
    assume "\<not> y \<le> year_of_day d"
    then have "day_from_year (year_of_day d + 1) \<le> day_from_year y"
      using day_from_year_mono [of "year_of_day d + 1" y] by simp
    with assms(1) year_of_day_bounds [of d] show False by linarith
  qed
qed

subsection \<open>\<^verbatim>\<open>toISOString\<close> and \<^verbatim>\<open>Date.parse\<close>\<close>

definition MS_PER_DAY :: int where "MS_PER_DAY = 86400000"

definition iso_year :: "int \<Rightarrow> string" where
  "iso_year y =
     (if 0 \<le> y \<and> y \<le> 9999 then pad_nat 4 (nat y)
      else (if y < 0 then ''-'' else ''+'') @ pad_nat 6 (nat \<bar>y\<bar>))"

definition toISOString :: "int \<Rightarrow> string" where
  "toISOString t =
     (let day = t div MS_PER_DAY; ms = nat (t mod MS_PER_DAY);
          y = year_of_day day;
          (m, d) = split_months (month_lengths (is_leap y)) (day - day_from_year y)
      in iso_year y @ ''-'' @ pad_nat 2 (nat m) @ ''-'' @ pad_nat 2 (nat (d + 1)) @ ''T'' @
         pad_nat 2 (ms div 3600000) @ '':'' @ pad_nat 2 (ms div 60000 mod 60) @ '':'' @
         pad_nat 2 (ms div 1000 mod 60) @ ''.'' @ pad_nat 3 (ms mod 1000) @ ''Z'')"

definition char_class :: "char \<Rightarrow> char \<Rightarrow> bool" where
  "char_class p c \<longleftrightarrow> (if p = CHR ''0'' then is_digit c else p = c)"

definition UTC_MILLIS_PATTERN :: "string \<Rightarrow> bool" where
  "UTC_MILLIS_PATTERN s \<longleftrightarrow> list_all2 char_class ''0000-00-00T00:00:00.000Z'' s"

definition field :: "string \<Rightarrow> nat \<Rightarrow> nat \<Rightarrow> nat" where
  "field s i n = parse_nat (take n (drop i s))"

text \<open>
  \<^verbatim>\<open>Date.parse\<close> of a text of the pattern: \<open>None\<close> is the not-a-number of an illegal element. The
  source only reads the time value of texts that pass \<open>isUtcMillis\<close>, whose elements are legal.
\<close>

definition date_parse :: "string \<Rightarrow> int option" where
  "date_parse s =
     (let y = int (field s 0 4); m = field s 5 2; d = field s 8 2;
          h = field s 11 2; mi = field s 14 2; sec = field s 17 2; ms = field s 20 3
      in if 1 \<le> m \<and> m \<le> 12 \<and> 1 \<le> d \<and> int d \<le> days_in_month (is_leap y) m
            \<and> h \<le> 23 \<and> mi \<le> 59 \<and> sec \<le> 59
         then Some ((day_from_year y + days_before_month (is_leap y) m + int d - 1) * MS_PER_DAY
                    + int h * 3600000 + int mi * 60000 + int sec * 1000 + int ms)
         else None)"

definition isUtcMillis :: "string \<Rightarrow> bool" where
  "isUtcMillis s \<longleftrightarrow>
     UTC_MILLIS_PATTERN s \<and> (case date_parse s of None \<Rightarrow> False | Some t \<Rightarrow> toISOString t = s)"

definition MAX_TIME_VALUE :: int where "MAX_TIME_VALUE = 8640000000000000"

definition formatUtcMillis :: "int \<Rightarrow> js_throw + utc_millis" where
  "formatUtcMillis t =
     (let text = (if \<bar>t\<bar> \<le> MAX_TIME_VALUE then toISOString t else ''Invalid Date'')
      in if isUtcMillis text then Inr text else Inl RangeError)"

definition parseUtcMillis :: "string \<Rightarrow> string \<Rightarrow> structured_reason + utc_millis" where
  "parseUtcMillis value subject =
     (if isUtcMillis value then Inr value else Inl (mk_reason ''INVALID_UTC_MILLIS'' subject))"

text \<open>\<^verbatim>\<open>Date.parse\<close> of a validated timestamp, as the clients of this module use it.\<close>

definition Date_parse :: "utc_millis \<Rightarrow> int" where
  "Date_parse s = the (date_parse s)"

subsection \<open>Round trip\<close>

lemma split_months_correct:
  assumes "list_all (\<lambda>l. 0 < l) ls" and "0 \<le> d" and "d < sum_list ls"
  shows "\<exists>m r. split_months ls d = (int m, r) \<and> 1 \<le> m \<and> m \<le> length ls
           \<and> 0 \<le> r \<and> r < ls ! (m - 1) \<and> d = sum_list (take (m - 1) ls) + r"
  using assms
proof (induction ls arbitrary: d)
  case (Cons l ls)
  show ?case
  proof (cases "d < l")
    case True
    with Cons.prems show ?thesis by (intro exI [of _ "Suc 0"] exI [of _ d]) simp
  next
    case False
    with Cons.prems have "0 \<le> d - l" "d - l < sum_list ls" "list_all (\<lambda>l. 0 < l) ls" by simp_all
    from Cons.IH [OF this(3) this(1,2)] obtain m r where mr: "split_months ls (d - l) = (int m, r)"
      "1 \<le> m" "m \<le> length ls" "0 \<le> r" "r < ls ! (m - 1)" "d - l = sum_list (take (m - 1) ls) + r"
      by blast
    then obtain k where "m = Suc k" by (cases m) auto
    with mr False show ?thesis by (intro exI [of _ "Suc m"] exI [of _ r]) simp
  qed
qed simp

lemma day_of_year_split:
  fixes y :: int
  assumes "0 \<le> d" and "d < day_from_year (y + 1) - day_from_year y"
  obtains m r where "split_months (month_lengths (is_leap y)) d = (int m, r)" and "1 \<le> m" and "m \<le> 12"
    and "0 \<le> r" and "r < days_in_month (is_leap y) m" and "d = days_before_month (is_leap y) m + r"
proof -
  have "d < sum_list (month_lengths (is_leap y))"
    using assms(2) by (auto simp: day_from_year_Suc month_lengths_def split: if_splits)
  moreover have "list_all (\<lambda>l. 0 < l) (month_lengths (is_leap y))" "length (month_lengths (is_leap y)) = 12"
    by (simp_all add: month_lengths_def)
  ultimately show thesis
    using split_months_correct [of "month_lengths (is_leap y)" d] assms(1) that
    unfolding days_in_month_def days_before_month_def by auto
qed

lemma days_in_month_le: "1 \<le> m \<Longrightarrow> m \<le> 12 \<Longrightarrow> days_in_month l m \<le> 31"
proof -
  assume "1 \<le> m" "m \<le> 12"
  then have "days_in_month l m \<in> set (month_lengths l)"
    unfolding days_in_month_def by (intro nth_mem) (auto simp: month_lengths_def)
  then show ?thesis by (auto simp: month_lengths_def split: if_splits)
qed

lemma char_class_pad: "list_all2 char_class (replicate k CHR ''0'') (pad_nat k n)"
  using pad_nat_digits [of k n]
  by (auto simp: list_all2_conv_all_nth char_class_def list_all_length)

lemma char_class_lit: "c \<noteq> CHR ''0'' \<Longrightarrow> char_class c c"
  by (simp add: char_class_def)

definition iso_fields :: "nat \<Rightarrow> nat \<Rightarrow> nat \<Rightarrow> nat \<Rightarrow> nat \<Rightarrow> nat \<Rightarrow> nat \<Rightarrow> string" where
  "iso_fields y m d h mi s ms =
     pad_nat 4 y @ ''-'' @ pad_nat 2 m @ ''-'' @ pad_nat 2 d @ ''T'' @ pad_nat 2 h @ '':'' @
     pad_nat 2 mi @ '':'' @ pad_nat 2 s @ ''.'' @ pad_nat 3 ms @ ''Z''"

lemma iso_fields_pattern: "UTC_MILLIS_PATTERN (iso_fields y m d h mi s ms)"
proof -
  have "''0000-00-00T00:00:00.000Z'' = replicate 4 CHR ''0'' @ ''-'' @ replicate 2 CHR ''0'' @ ''-'' @
     replicate 2 CHR ''0'' @ ''T'' @ replicate 2 CHR ''0'' @ '':'' @ replicate 2 CHR ''0'' @ '':'' @
     replicate 2 CHR ''0'' @ ''.'' @ replicate 3 CHR ''0'' @ ''Z''"
    by (simp add: numeral_eq_Suc)
  then show ?thesis
    unfolding UTC_MILLIS_PATTERN_def iso_fields_def
    by (simp only:) (intro list_all2_appendI char_class_pad; simp add: char_class_lit)
qed

lemma date_parse_iso_fields:
  assumes "y < 10000" "1 \<le> m" "m \<le> 12" "1 \<le> d" "int d \<le> days_in_month (is_leap (int y)) m"
    and "h \<le> 23" "mi \<le> 59" "s \<le> 59" "ms < 1000"
  shows "date_parse (iso_fields y m d h mi s ms) =
     Some ((day_from_year (int y) + days_before_month (is_leap (int y)) m + int d - 1) * MS_PER_DAY
           + int h * 3600000 + int mi * 60000 + int s * 1000 + int ms)"
proof -
  have "d < 100" using assms days_in_month_le [of m "is_leap (int y)"] by simp
  then have "field (iso_fields y m d h mi s ms) 0 4 = y" "field (iso_fields y m d h mi s ms) 5 2 = m"
    "field (iso_fields y m d h mi s ms) 8 2 = d" "field (iso_fields y m d h mi s ms) 11 2 = h"
    "field (iso_fields y m d h mi s ms) 14 2 = mi" "field (iso_fields y m d h mi s ms) 17 2 = s"
    "field (iso_fields y m d h mi s ms) 20 3 = ms"
    using assms by (simp_all add: field_def iso_fields_def)
  with assms show ?thesis by (simp add: date_parse_def Let_def)
qed

definition FIRST_INSTANT :: int where "FIRST_INSTANT = day_from_year 0 * MS_PER_DAY"
definition PAST_LAST_INSTANT :: int where "PAST_LAST_INSTANT = day_from_year 10000 * MS_PER_DAY"

lemma time_of_day_arith:
  fixes a b c d e f k :: nat
  shows "c * 60 + d = b \<Longrightarrow> b * 60 + e = a \<Longrightarrow> a * 1000 + f = k \<Longrightarrow>
    c * 3600000 + d * 60000 + e * 1000 + f = k"
  by auto

lemma time_of_day_split:
  fixes k :: nat
  shows "k div 3600000 * 3600000 + k div 60000 mod 60 * 60000 + k div 1000 mod 60 * 1000 + k mod 1000 = k"
proof -
  have "k div 3600000 = k div 1000 div 60 div 60" "k div 60000 = k div 1000 div 60"
    by (simp_all add: div_mult2_eq [symmetric])
  then show ?thesis
    using time_of_day_arith [OF div_mult_mod_eq [of "k div 1000 div 60" 60] div_mult_mod_eq [of "k div 1000" 60]
        div_mult_mod_eq [of k 1000]] by simp
qed

lemma toISOString_fields:
  assumes "FIRST_INSTANT \<le> t" and "t < PAST_LAST_INSTANT"
  obtains s where "toISOString t = s" and "UTC_MILLIS_PATTERN s" and "date_parse s = Some t"
proof -
  define day where "day = t div MS_PER_DAY"
  define ms where "ms = nat (t mod MS_PER_DAY)"
  define y where "y = year_of_day day"
  have split: "t = day * MS_PER_DAY + int ms" "ms < 86400000"
    unfolding day_def ms_def MS_PER_DAY_def by simp_all
  have "day_from_year 0 \<le> day" "day < day_from_year 10000"
    using assms unfolding FIRST_INSTANT_def PAST_LAST_INSTANT_def day_def MS_PER_DAY_def by linarith+
  then have "\<not> y < 0" "\<not> 10000 \<le> y"
    using day_from_year_mono [of "y + 1" 0] day_from_year_mono [of 10000 y] year_of_day_bounds [of day]
    unfolding y_def [symmetric] by auto
  then obtain yn where yn: "y = int yn" "yn < 10000" by (metis nat_less_iff not_less zero_le_imp_eq_int
      of_nat_less_iff of_nat_numeral)
  obtain m r where mr: "split_months (month_lengths (is_leap y)) (day - day_from_year y) = (int m, r)"
    "1 \<le> m" "m \<le> 12" "0 \<le> r" "r < days_in_month (is_leap y) m"
    "day - day_from_year y = days_before_month (is_leap y) m + r"
    using year_of_day_bounds [of day] unfolding y_def [symmetric]
    by (auto intro: day_of_year_split [of "day - day_from_year y" y])
  let ?s = "iso_fields yn m (nat (r + 1)) (ms div 3600000) (ms div 60000 mod 60) (ms div 1000 mod 60) (ms mod 1000)"
  have "toISOString t = ?s"
    using mr(1) yn unfolding toISOString_def iso_fields_def Let_def day_def [symmetric] ms_def [symmetric]
      y_def [symmetric] iso_year_def by simp
  moreover have "date_parse ?s = Some t"
  proof -
    define h where "h = ms div 3600000"
    define mi where "mi = ms div 60000 mod 60"
    define se where "se = ms div 1000 mod 60"
    define z where "z = ms mod 1000"
    note f = h_def [symmetric] mi_def [symmetric] se_def [symmetric] z_def [symmetric]
    have "h < 24" unfolding h_def using split(2) by (intro less_mult_imp_div_less) simp
    then have g: "h \<le> 23" "mi \<le> 59" "se \<le> 59" "z < 1000"
      using mod_less_divisor [of 60 "ms div 60000"] mod_less_divisor [of 60 "ms div 1000"]
      unfolding mi_def se_def z_def by auto
    have "h * 3600000 + mi * 60000 + se * 1000 + z = ms"
      using time_of_day_split [of ms] unfolding f .
    then have ms: "int ms = int h * 3600000 + int mi * 60000 + int se * 1000 + int z" by linarith
    have r: "1 \<le> nat (r + 1)" "int (nat (r + 1)) \<le> days_in_month (is_leap (int yn)) m"
      "int (nat (r + 1)) = r + 1" using mr yn by simp_all
    have d: "day = day_from_year (int yn) + days_before_month (is_leap (int yn)) m + (r + 1) - 1"
      using mr(6) yn(1) by simp
    show ?thesis
      unfolding f date_parse_iso_fields [OF yn(2) mr(2,3) r(1,2) g] r(3) split(1) ms d by simp
  qed
  ultimately show thesis using that iso_fields_pattern by blast
qed

lemma instant_bounds: "FIRST_INSTANT = - 62167219200000" "PAST_LAST_INSTANT = 253402300800000"
  by (simp_all add: FIRST_INSTANT_def PAST_LAST_INSTANT_def day_from_year_def MS_PER_DAY_def)

lemma isUtcMillis_toISOString:
  assumes "FIRST_INSTANT \<le> t" and "t < PAST_LAST_INSTANT"
  shows "isUtcMillis (toISOString t)" and "date_parse (toISOString t) = Some t"
proof -
  obtain s where s: "toISOString t = s" "UTC_MILLIS_PATTERN s" "date_parse s = Some t"
    using assms by (rule toISOString_fields)
  then show "isUtcMillis (toISOString t)" by (simp add: isUtcMillis_def)
  from s show "date_parse (toISOString t) = Some t" by simp
qed

lemma pattern_first_digit: "UTC_MILLIS_PATTERN s \<Longrightarrow> \<exists>c cs. s = c # cs \<and> is_digit c"
  by (auto simp: UTC_MILLIS_PATTERN_def char_class_def list_all2_Cons1)

lemma toISOString_out_of_range:
  assumes "t < FIRST_INSTANT \<or> PAST_LAST_INSTANT \<le> t"
  shows "\<not> isUtcMillis (toISOString t)"
proof -
  define y where "y = year_of_day (t div MS_PER_DAY)"
  have bounds: "day_from_year y \<le> t div MS_PER_DAY" "t div MS_PER_DAY < day_from_year (y + 1)"
    using year_of_day_bounds unfolding y_def by blast+
  have "t div MS_PER_DAY < day_from_year 0 \<or> day_from_year 10000 \<le> t div MS_PER_DAY"
    using assms unfolding FIRST_INSTANT_def PAST_LAST_INSTANT_def MS_PER_DAY_def by linarith
  then have "\<not> (0 \<le> y \<and> y \<le> 9999)"
    using bounds day_from_year_mono [of 0 y] day_from_year_mono [of "y + 1" 10000] by auto
  then obtain c cs where "iso_year y = c # cs" "c = CHR ''-'' \<or> c = CHR ''+''"
    unfolding iso_year_def by (cases "y < 0") auto
  then have "\<exists>cs. toISOString t = c # cs" and "\<not> is_digit c"
    unfolding toISOString_def Let_def y_def [symmetric] is_digit_def
    by (auto split: prod.splits)
  then show ?thesis
    using pattern_first_digit [of "toISOString t"] by (auto simp: isUtcMillis_def)
qed

lemma not_isUtcMillis_Invalid_Date: "\<not> isUtcMillis ''Invalid Date''"
  using pattern_first_digit [of "''Invalid Date''"] by (auto simp: isUtcMillis_def is_digit_def)

lemma isUtcMillis_toISOString_iff:
  "isUtcMillis (toISOString t) \<longleftrightarrow> FIRST_INSTANT \<le> t \<and> t < PAST_LAST_INSTANT"
  using isUtcMillis_toISOString(1) toISOString_out_of_range by (meson not_less)

lemma formatUtcMillis_eq:
  "formatUtcMillis t =
     (if FIRST_INSTANT \<le> t \<and> t < PAST_LAST_INSTANT then Inr (toISOString t) else Inl RangeError)"
proof -
  have "\<bar>t\<bar> \<le> MAX_TIME_VALUE" if "FIRST_INSTANT \<le> t" "t < PAST_LAST_INSTANT"
    using that by (simp add: MAX_TIME_VALUE_def instant_bounds)
  then show ?thesis
    by (auto simp: formatUtcMillis_def Let_def isUtcMillis_toISOString_iff not_isUtcMillis_Invalid_Date)
qed

lemma isUtcMillis_Date_parse: "isUtcMillis s \<Longrightarrow> toISOString (Date_parse s) = s"
  by (auto simp: isUtcMillis_def Date_parse_def split: option.splits)

lemma Date_parse_inject:
  "isUtcMillis s \<Longrightarrow> isUtcMillis s' \<Longrightarrow> Date_parse s = Date_parse s' \<longleftrightarrow> s = s'"
  using isUtcMillis_Date_parse by metis

lemma formatUtcMillis_Date_parse:
  assumes "isUtcMillis s"
  shows "formatUtcMillis (Date_parse s) = Inr s"
  using assms isUtcMillis_toISOString_iff [of "Date_parse s"] isUtcMillis_Date_parse [OF assms]
  by (simp add: formatUtcMillis_eq)

subsection \<open>Properties\<close>

text \<open>
  C15: formatting an instant either yields a text that the validator accepts and that parses back
  to the same instant, or throws a \<open>RangeError\<close>, which happens exactly outside years 0000 to 9999.
\<close>

theorem formatUtcMillis_roundtrip:
  "case formatUtcMillis t of
     Inr s \<Rightarrow> isUtcMillis s \<and> Date_parse s = t
   | Inl e \<Rightarrow> e = RangeError \<and> (t < - 62167219200000 \<or> 253402300800000 \<le> t)"
  using isUtcMillis_toISOString [of t]
  by (auto simp: formatUtcMillis_eq Date_parse_def instant_bounds [symmetric])

end
