(* ===== verification/Json_Values.thy ===== *)
theory Json_Values
  imports Timestamps
begin

text \<open>
  Parsed JSON (\<^verbatim>\<open>JsonValue\<close> of \<^verbatim>\<open>primitives.ts\<close>) and the syntax guards of
  \<^verbatim>\<open>identifiers.ts\<close>, \<^verbatim>\<open>digests.ts\<close> and \<^verbatim>\<open>decimal.ts\<close>. An object is the list of its own
  members in insertion order, with distinct names; assigning a member replaces its value in
  place or appends it, as ECMAScript does.
\<close>

datatype json =
    JNull
  | JBool bool
  | JNumber js_number
  | JString string
  | JArray "json list"
  | JObject "(string \<times> json) list"

type_synonym json_object = "(string \<times> json) list"

fun isJsonObject :: "json option \<Rightarrow> bool" where
  "isJsonObject (Some (JObject _)) = True"
| "isJsonObject _ = False"

fun isJsonArray :: "json option \<Rightarrow> bool" where
  "isJsonArray (Some (JArray _)) = True"
| "isJsonArray _ = False"

subsection \<open>Objects\<close>

abbreviation own_member :: "json_object \<Rightarrow> string \<Rightarrow> json option" where
  "own_member obj name \<equiv> map_of obj name"

fun obj_set :: "string \<Rightarrow> 'v \<Rightarrow> (string \<times> 'v) list \<Rightarrow> (string \<times> 'v) list" where
  "obj_set k v [] = [(k, v)]"
| "obj_set k v ((k', v') # rest) = (if k = k' then (k, v) # rest else (k', v') # obj_set k v rest)"

text \<open>The spread \<^verbatim>\<open>{ ...base, ...over }\<close>.\<close>

definition obj_merge :: "(string \<times> 'v) list \<Rightarrow> (string \<times> 'v) list \<Rightarrow> (string \<times> 'v) list" where
  "obj_merge base over = foldl (\<lambda>o' (k, v). obj_set k v o') base over"

lemma map_of_obj_set [simp]: "map_of (obj_set k v obj) = (map_of obj)(k \<mapsto> v)"
  by (induction obj) (auto simp: fun_eq_iff)

lemma fst_set_obj_set: "fst ` set (obj_set k v obj) = insert k (fst ` set obj)"
  by (simp flip: dom_map_of_conv_image_fst)

lemma distinct_obj_set: "distinct (map fst obj) \<Longrightarrow> distinct (map fst (obj_set k v obj))"
  by (induction obj) (auto simp: fst_set_obj_set simp del: image_iff)

lemma map_of_obj_merge: "map_of (obj_merge base over) = map_of base ++ map_of (rev over)"
  by (induction over arbitrary: base) (auto simp: obj_merge_def fun_eq_iff map_add_def split: option.splits)

lemma map_of_obj_merge_distinct:
  assumes "distinct (map fst over)"
  shows "map_of (obj_merge base over) = map_of base ++ map_of over"
proof -
  have "map_of (rev over) = map_of over"
    using assms by (intro map_of_inject_set [THEN iffD2]) (auto simp: rev_map [symmetric])
  then show ?thesis by (simp add: map_of_obj_merge)
qed

subsection \<open>Scalars of conditions and their comparison\<close>

datatype attr_scalar = SString string | SNumber js_number | SBool bool

text \<open>\<^verbatim>\<open>typeof current === typeof value && current === value\<close>.\<close>

fun scalar_matches :: "json option \<Rightarrow> attr_scalar \<Rightarrow> bool" where
  "scalar_matches (Some (JString s)) (SString t) \<longleftrightarrow> s = t"
| "scalar_matches (Some (JNumber m)) (SNumber n) \<longleftrightarrow> js_strict_eq m n"
| "scalar_matches (Some (JBool b)) (SBool c) \<longleftrightarrow> b = c"
| "scalar_matches _ _ \<longleftrightarrow> False"

lemma js_strict_eq_JsInt_iff [simp]: "js_strict_eq v (JsInt n) \<longleftrightarrow> v = JsInt n"
  by (cases v) (auto simp: JsInt_def)

lemma scalar_matches_string [simp]: "scalar_matches v (SString t) \<longleftrightarrow> v = Some (JString t)"
  by (cases "(v, SString t)" rule: scalar_matches.cases) auto

lemma scalar_matches_int [simp]: "scalar_matches v (SNumber (JsInt n)) \<longleftrightarrow> v = Some (JNumber (JsInt n))"
  by (cases "(v, SNumber (JsInt n))" rule: scalar_matches.cases) auto

subsection \<open>Identifier syntax\<close>

definition is_lower_hex :: "char \<Rightarrow> bool" where
  "is_lower_hex c \<longleftrightarrow> is_digit c \<or> c \<in> set ''abcdef''"

text \<open>One character class per position: \<^verbatim>\<open>h\<close> any lowercase hexadecimal digit, \<^verbatim>\<open>v\<close> the variant.\<close>

definition uuid_class :: "char \<Rightarrow> char \<Rightarrow> bool" where
  "uuid_class p c \<longleftrightarrow>
     (if p = CHR ''h'' then is_lower_hex c else if p = CHR ''v'' then c \<in> set ''89ab'' else p = c)"

definition UUID4_PATTERN :: "string \<Rightarrow> bool" where
  "UUID4_PATTERN s \<longleftrightarrow> list_all2 uuid_class ''hhhhhhhh-hhhh-4hhh-vhhh-hhhhhhhhhhhh'' s"

fun isUuid4 :: "json \<Rightarrow> bool" where
  "isUuid4 (JString s) = UUID4_PATTERN s"
| "isUuid4 _ = False"

definition parseUuid4 :: "string \<Rightarrow> string \<Rightarrow> structured_reason + uuid4" where
  "parseUuid4 value subject =
     (if isUuid4 (JString value) then Inr value else Inl (mk_reason ''INVALID_UUID4'' subject))"

definition SHA256_HEX_PATTERN :: "string \<Rightarrow> bool" where
  "SHA256_HEX_PATTERN s \<longleftrightarrow> length s = 64 \<and> list_all is_lower_hex s"

fun isSha256Hex :: "json \<Rightarrow> bool" where
  "isSha256Hex (JString s) = SHA256_HEX_PATTERN s"
| "isSha256Hex _ = False"

fun isUtcMillisJson :: "json \<Rightarrow> bool" where
  "isUtcMillisJson (JString s) = isUtcMillis s"
| "isUtcMillisJson _ = False"

subsection \<open>Decimal strings\<close>

fun DECIMAL_STRING_PATTERN :: "string \<Rightarrow> bool" where
  "DECIMAL_STRING_PATTERN [] = False"
| "DECIMAL_STRING_PATTERN (c # cs) =
     (if c = CHR ''0'' then cs = [] else is_digit c \<and> list_all is_digit cs)"

text \<open>\<^verbatim>\<open>BigInt.prototype.toString\<close> of a nonnegative integer.\<close>

fun nat_text :: "nat \<Rightarrow> string" where
  "nat_text n = (if n < 10 then [digit_char n] else nat_text (n div 10) @ [digit_char (n mod 10)])"

declare nat_text.simps [simp del]

definition int_text :: "int \<Rightarrow> string" where
  "int_text i = (if i < 0 then ''-'' @ nat_text (nat (- i)) else nat_text (nat i))"

text \<open>\<^verbatim>\<open>bigint\<close> division truncates toward zero.\<close>

definition bigint_div :: "int \<Rightarrow> int \<Rightarrow> int" where
  "bigint_div a b = sgn a * sgn b * (\<bar>a\<bar> div \<bar>b\<bar>)"

definition bigint_mod :: "int \<Rightarrow> int \<Rightarrow> int" where
  "bigint_mod a b = a - b * bigint_div a b"

lemma bigint_div_nonneg [simp]: "0 \<le> a \<Longrightarrow> 0 < b \<Longrightarrow> bigint_div a b = a div b"
  by (cases "a = 0") (simp_all add: bigint_div_def sgn_if)

lemma bigint_mod_nonneg [simp]: "0 \<le> a \<Longrightarrow> 0 < b \<Longrightarrow> bigint_mod a b = a mod b"
  by (simp add: bigint_mod_def minus_mult_div_eq_mod)

definition is_nonneg_safe :: "js_number \<Rightarrow> bool" where
  "is_nonneg_safe v \<longleftrightarrow> isSafeInteger v \<and> \<not> js_less v (JsInt 0)"

fun sum_minor_from :: "int \<Rightarrow> js_number list \<Rightarrow> js_throw + string" where
  "sum_minor_from acc [] = Inr (int_text acc)"
| "sum_minor_from acc (a # as) =
     (if \<not> is_nonneg_safe a then Inl RangeError else sum_minor_from (acc + int_of_number a) as)"

definition sumMinorUnits :: "js_number list \<Rightarrow> js_throw + string" where
  "sumMinorUnits amounts = sum_minor_from 0 amounts"

definition toBigInt :: "string \<Rightarrow> js_throw + int" where
  "toBigInt s = (if DECIMAL_STRING_PATTERN s then Inr (int (parse_nat s)) else Inl RangeError)"

datatype ordering = LT | EQ | GT

definition compareDecimal :: "string \<Rightarrow> string \<Rightarrow> js_throw + ordering" where
  "compareDecimal a b =
     (case toBigInt a of
        Inl e \<Rightarrow> Inl e
      | Inr left \<Rightarrow>
         (case toBigInt b of
            Inl e \<Rightarrow> Inl e
          | Inr right \<Rightarrow> Inr (if left = right then EQ else if left < right then LT else GT)))"

definition elapsedNs :: "int \<Rightarrow> int \<Rightarrow> js_throw + string" where
  "elapsedNs origin now = (if now < origin then Inl RangeError else Inr (int_text (now - origin)))"

definition signedDifferenceMs :: "utc_millis \<Rightarrow> utc_millis \<Rightarrow> js_throw + string" where
  "signedDifferenceMs later earlier =
     (if \<not> isUtcMillis later \<or> \<not> isUtcMillis earlier then Inl RangeError
      else Inr (int_text (Date_parse later - Date_parse earlier)))"

lemma nat_text_nonempty: "nat_text n \<noteq> []"
  by (subst nat_text.simps) simp

lemma nat_text_digits: "list_all is_digit (nat_text n)"
proof (induction n rule: nat_text.induct)
  case (1 n)
  then show ?case by (subst nat_text.simps) auto
qed

lemma parse_nat_text [simp]: "parse_nat (nat_text n) = n"
proof (induction n rule: nat_text.induct)
  case (1 n)
  then show ?case
    using parse_nat_snoc [of "[]" "digit_char n"] by (subst nat_text.simps) auto
qed

lemma hd_nat_text: "0 < n \<Longrightarrow> hd (nat_text n) \<noteq> CHR ''0''"
proof (induction n rule: nat_text.induct)
  case (1 n)
  show ?case
  proof (cases "n < 10")
    case True
    with 1 have "hd (nat_text n) = digit_char n" by (subst nat_text.simps) simp
    moreover have "digit_value (digit_char n) = n" using True by simp
    ultimately show ?thesis using 1 by (auto simp: digit_value_def)
  next
    case False
    then have "0 < n div 10" by simp
    with 1 False have "hd (nat_text (n div 10)) \<noteq> CHR ''0''" by simp
    with False show ?thesis
      by (subst nat_text.simps) (simp add: nat_text_nonempty hd_append)
  qed
qed

lemma decimal_pattern_nat_text [simp]: "DECIMAL_STRING_PATTERN (nat_text n)"
proof (cases "n = 0")
  case True
  then show ?thesis by (simp add: nat_text.simps digit_char_def)
next
  case False
  then obtain c cs where c: "nat_text n = c # cs" using nat_text_nonempty [of n] by (cases "nat_text n") auto
  with hd_nat_text [of n] nat_text_digits [of n] False show ?thesis by auto
qed

lemma toBigInt_nat_text [simp]: "toBigInt (nat_text n) = Inr (int n)"
  by (simp add: toBigInt_def)

lemma toBigInt_int_text [simp]: "0 \<le> i \<Longrightarrow> toBigInt (int_text i) = Inr i"
  by (simp add: int_text_def)

lemma sum_minor_from_ok:
  "0 \<le> t \<Longrightarrow> list_all is_nonneg_safe amounts \<Longrightarrow>
   sum_minor_from t amounts = Inr (int_text (t + sum_list (map int_of_number amounts)))"
proof (induction amounts arbitrary: t)
  case (Cons a as)
  from Cons.prems(2) obtain n where "a = JsInt n" "0 \<le> n"
    by (auto simp: is_nonneg_safe_def elim!: isSafeIntegerE)
  with Cons show ?case by (simp add: add.assoc)
qed simp

lemma sum_minor_from_throws:
  "\<not> list_all is_nonneg_safe amounts \<Longrightarrow> sum_minor_from t amounts = Inl RangeError"
  by (induction amounts arbitrary: t) auto

lemma sumMinorUnits_eq:
  "sumMinorUnits amounts =
     (if list_all is_nonneg_safe amounts then Inr (int_text (sum_list (map int_of_number amounts)))
      else Inl RangeError)"
  using sum_minor_from_ok [of 0 amounts] sum_minor_from_throws [of amounts 0]
  by (simp add: sumMinorUnits_def)

subsection \<open>Padded decimals\<close>

definition padStart :: "nat \<Rightarrow> string \<Rightarrow> string" where
  "padStart n s = replicate (n - length s) CHR ''0'' @ s"

lemma parse_zeros_append [simp]: "parse_nat (replicate m CHR ''0'' @ s) = parse_nat s"
  by (induction m) (simp_all add: parse_nat_def digit_value_def)

lemma length_nat_text: "n < 10 ^ Suc k \<Longrightarrow> length (nat_text n) \<le> Suc k"
proof (induction k arbitrary: n)
  case 0
  then show ?case by (subst nat_text.simps) simp
next
  case (Suc k)
  then have "n div 10 < 10 ^ Suc k" by (simp add: less_mult_imp_div_less mult.commute)
  with Suc.IH show ?case by (subst nat_text.simps) auto
qed

lemma zeros_digits: "list_all is_digit (replicate m CHR ''0'')"
  by (induction m) (simp_all add: is_digit_def)

lemma padStart_text:
  assumes "0 \<le> x" and "x < 10 ^ Suc k"
  shows "length (padStart (Suc k) (int_text x)) = Suc k"
    and "list_all is_digit (padStart (Suc k) (int_text x))"
    and "int (parse_nat (padStart (Suc k) (int_text x))) = x"
proof -
  have "nat x < 10 ^ Suc k" using assms by (simp add: nat_less_iff)
  then show "length (padStart (Suc k) (int_text x)) = Suc k"
    using assms(1) length_nat_text [of "nat x" k] by (simp add: padStart_def int_text_def)
  show "list_all is_digit (padStart (Suc k) (int_text x))" "int (parse_nat (padStart (Suc k) (int_text x))) = x"
    using assms(1) nat_text_digits [of "nat x"] zeros_digits by (simp_all add: padStart_def int_text_def)
qed

subsection \<open>Reading members\<close>

fun kind_text :: "execution_kind \<Rightarrow> string" where
  "kind_text RUN = ''RUN''"
| "kind_text TRANSPORT_PROBE = ''TRANSPORT_PROBE''"
| "kind_text VARIANT_VALIDATION = ''VARIANT_VALIDATION''"

definition EXECUTION_KINDS :: "execution_kind list" where
  "EXECUTION_KINDS = [RUN, TRANSPORT_PROBE, VARIANT_VALIDATION]"

definition is_text_of :: "('a \<Rightarrow> string) \<Rightarrow> 'a list \<Rightarrow> json \<Rightarrow> bool" where
  "is_text_of f xs v \<longleftrightarrow> (case v of JString s \<Rightarrow> s \<in> set (map f xs) | _ \<Rightarrow> False)"

definition is_positive_safe_number :: "json \<Rightarrow> bool" where
  "is_positive_safe_number v \<longleftrightarrow> (case v of JNumber n \<Rightarrow> isSafeInteger n \<and> \<not> js_less n (JsInt 1) | _ \<Rightarrow> False)"

text \<open>Reading checked members back: the cast of the checked object to the item type.\<close>

definition text_member :: "json_object \<Rightarrow> string \<Rightarrow> string" where
  "text_member item member = (case own_member item member of Some (JString s) \<Rightarrow> s | _ \<Rightarrow> '''')"

definition int_member :: "json_object \<Rightarrow> string \<Rightarrow> int" where
  "int_member item member = (case own_member item member of Some (JNumber n) \<Rightarrow> int_of_number n | _ \<Rightarrow> 0)"

definition of_text :: "('a \<Rightarrow> string) \<Rightarrow> 'a list \<Rightarrow> 'a \<Rightarrow> string \<Rightarrow> 'a" where
  "of_text f xs dflt s = (case List.find (\<lambda>x. f x = s) xs of None \<Rightarrow> dflt | Some x \<Rightarrow> x)"

lemma kind_text_inject [simp]: "kind_text k = kind_text k' \<longleftrightarrow> k = k'"
  by (cases k; cases k') auto

lemma is_text_of_kind [simp]: "is_text_of kind_text EXECUTION_KINDS (JString (kind_text k))"
  by (cases k) (auto simp: is_text_of_def EXECUTION_KINDS_def)

lemma of_text_kind [simp]: "of_text kind_text EXECUTION_KINDS d (kind_text k) = k"
  by (cases k) (auto simp: of_text_def EXECUTION_KINDS_def)

lemma isUuid4_text: "isUuid4 v \<longleftrightarrow> (\<exists>s. v = JString s \<and> UUID4_PATTERN s)"
  by (cases v) auto

lemma isSha256Hex_text: "isSha256Hex v \<longleftrightarrow> (\<exists>s. v = JString s \<and> SHA256_HEX_PATTERN s)"
  by (cases v) auto

lemma isUtcMillisJson_text: "isUtcMillisJson v \<longleftrightarrow> (\<exists>s. v = JString s \<and> isUtcMillis s)"
  by (cases v) auto

lemma is_positive_safe_number_int:
  "is_positive_safe_number v \<longleftrightarrow> (\<exists>n. v = JNumber (JsInt n) \<and> 1 \<le> n \<and> n \<le> MAX_SAFE_INTEGER)"
  by (cases v) (auto simp: is_positive_safe_number_def elim!: isSafeIntegerE)

end
