(* ===== verification/Async_Calls.thy ===== *)
theory Async_Calls
  imports Prelude "HOL-Library.State_Monad"
begin

text \<open>
  Asynchronous calls. An \<^verbatim>\<open>async\<close> function is a computation of the state monad over a world
  \<open>'w\<close> (everything the caller reaches only through calls: tables, clocks, other processes) that
  answers \<open>Inr\<close> when the promise resolves and \<open>Inl\<close> when it rejects. \<open>io_bind\<close> is \<^verbatim>\<open>await\<close>: a
  rejection ends the calling function too; \<open>io_catch\<close> is \<^verbatim>\<open>try ... catch\<close>.
\<close>

type_synonym ('w, 'a) io = "('w, js_throw + 'a) state"

definition io_return :: "'a \<Rightarrow> ('w, 'a) io" where
  "io_return x = State_Monad.return (Inr x)"

definition io_throw :: "js_throw \<Rightarrow> ('w, 'a) io" where
  "io_throw e = State_Monad.return (Inl e)"

definition io_bind :: "('w, 'a) io \<Rightarrow> ('a \<Rightarrow> ('w, 'b) io) \<Rightarrow> ('w, 'b) io" where
  "io_bind m f = State_Monad.bind m (\<lambda>r. case r of Inl e \<Rightarrow> io_throw e | Inr x \<Rightarrow> f x)"

definition io_catch :: "('w, 'a) io \<Rightarrow> (js_throw \<Rightarrow> ('w, 'a) io) \<Rightarrow> ('w, 'a) io" where
  "io_catch m h = State_Monad.bind m (\<lambda>r. case r of Inl e \<Rightarrow> h e | Inr x \<Rightarrow> io_return x)"

text \<open>A synchronous computation that may throw.\<close>

definition io_of :: "js_throw + 'a \<Rightarrow> ('w, 'a) io" where
  "io_of r = State_Monad.return r"

lemma run_io_return [simp]: "run_state (io_return x) w = (Inr x, w)"
  by (simp add: io_return_def)

lemma run_io_throw [simp]: "run_state (io_throw e) w = (Inl e, w)"
  by (simp add: io_throw_def)

lemma run_io_of [simp]: "run_state (io_of r) w = (r, w)"
  by (simp add: io_of_def)

lemma run_io_bind [simp]:
  "run_state (io_bind m f) w =
     (case run_state m w of
        (Inl e, w') \<Rightarrow> (Inl e, w')
      | (Inr x, w') \<Rightarrow> run_state (f x) w')"
  by (simp add: io_bind_def split: prod.splits sum.splits)

lemma run_io_catch [simp]:
  "run_state (io_catch m h) w =
     (case run_state m w of
        (Inl e, w') \<Rightarrow> run_state (h e) w'
      | (Inr x, w') \<Rightarrow> (Inr x, w'))"
  by (simp add: io_catch_def split: prod.splits sum.splits)

lemma io_bind_cases:
  assumes "run_state (io_bind m f) w = (r, w'')"
  obtains (thrown) e where "run_state m w = (Inl e, w'')" "r = Inl e"
  | (answered) x w' where "run_state m w = (Inr x, w')" "run_state (f x) w' = (r, w'')"
  using assms by (auto split: prod.splits sum.splits)

text \<open>Two computations with the same answers everywhere are the same.\<close>

lemma io_bind_return [simp]: "io_bind (io_return x) f = f x"
  by (rule state_ext) simp

lemma io_bind_assoc: "io_bind (io_bind m f) g = io_bind m (\<lambda>x. io_bind (f x) g)"
  by (rule state_ext) (simp split: prod.splits sum.splits)

text \<open>A computation that never rejects.\<close>

definition never_throws :: "('w, 'a) io \<Rightarrow> bool" where
  "never_throws m \<longleftrightarrow> (\<forall>w. \<exists>x w'. run_state m w = (Inr x, w'))"

lemma never_throwsD: "never_throws m \<Longrightarrow> run_state m w \<noteq> (Inl e, w')"
  unfolding never_throws_def by (metis Inl_Inr_False Pair_inject)

lemma never_throws_return [simp]: "never_throws (io_return x)"
  by (simp add: never_throws_def)

lemma never_throws_bind: "never_throws m \<Longrightarrow> (\<And>x. never_throws (f x)) \<Longrightarrow> never_throws (io_bind m f)"
  unfolding never_throws_def by (simp split: prod.splits sum.splits) (metis Inl_Inr_False Pair_inject)

lemma never_throws_catch: "(\<And>e. never_throws (h e)) \<Longrightarrow> never_throws (io_catch m h)"
  unfolding never_throws_def by (auto split: prod.splits sum.splits)

subsection \<open>Computations with an object of their own\<close>

text \<open>
  An object whose methods call into the world is a computation over the pair of the object and
  the world. \<open>io_lift\<close> is a call that leaves the object alone; \<open>io_get\<close> and \<open>io_put\<close> read and assign it.
\<close>

definition io_lift :: "('w, 'a) io \<Rightarrow> ('s \<times> 'w, 'a) io" where
  "io_lift m = State (\<lambda>(s, w). case run_state m w of (r, w') \<Rightarrow> (r, (s, w')))"

definition io_get :: "('s \<times> 'w, 's) io" where
  "io_get = State (\<lambda>(s, w). (Inr s, (s, w)))"

definition io_put :: "'s \<Rightarrow> ('s \<times> 'w, unit) io" where
  "io_put s = State (\<lambda>(_, w). (Inr (), (s, w)))"

lemma run_io_lift [simp]:
  "run_state (io_lift m) (s, w) = (fst (run_state m w), (s, snd (run_state m w)))"
  by (simp add: io_lift_def split: prod.splits)

lemma run_io_get [simp]: "run_state io_get (s, w) = (Inr s, (s, w))"
  by (simp add: io_get_def)

lemma run_io_put [simp]: "run_state (io_put s) (s', w) = (Inr (), (s, w))"
  by (simp add: io_put_def)

end
