(* ===== verification/Item_Store.thy ===== *)
theory Item_Store
  imports Json_Values Async_Calls
begin

text \<open>
  The durable item store port (\<^verbatim>\<open>durable-store/item-store-port.ts\<close>) and its executable
  semantics. DynamoDB itself is outside the repository; the port documents what its callers
  rely on, and the repository's in-memory emulator (\<^verbatim>\<open>test/support/durable-store\<close>) implements
  exactly that contract, so the definitions below are the emulator's: condition evaluation,
  updates, all-or-nothing transactions and scripted faults.

  The locale \<^verbatim>\<open>conditional_writes\<close> states the contract as laws over an abstract write
  operation; it is interpreted on the emulator with every fault it can script, and the clients'
  lemmas are proved from the laws alone.
\<close>

datatype table_role =
  LedgerTable | ExperimentJournalTable | CallerJournalTable | ControlTable | TrialRegistryTable
| CoordinationTable

record item_key =
  pk :: string
  sk :: string

type_synonym stored_item = json_object

datatype condition =
    ItemAbsent
  | AttributeEquals string attr_scalar
  | AttributeIn string "string list"
  | AllOf "condition list"

datatype write_action =
    Put table_role item_key stored_item "condition option"
  | Update table_role item_key "(string \<times> json) list" "(string \<times> int) list" condition
  | ConditionCheck table_role item_key condition

datatype write_outcome =
    Applied
  | ConditionFailed nat "stored_item option"
  | DefinitiveFailure string
  | Ambiguous string

fun conditionHolds :: "condition \<Rightarrow> stored_item option \<Rightarrow> bool" where
  "conditionHolds ItemAbsent item \<longleftrightarrow> item = None"
| "conditionHolds (AttributeEquals name value) item \<longleftrightarrow>
     scalar_matches (Option.bind item (\<lambda>i. own_member i name)) value"
| "conditionHolds (AttributeIn name values) item \<longleftrightarrow>
     (case Option.bind item (\<lambda>i. own_member i name) of
        Some (JString s) \<Rightarrow> s \<in> set values
      | _ \<Rightarrow> False)"
| "conditionHolds (AllOf cs) item \<longleftrightarrow> list_all (\<lambda>c. conditionHolds c item) cs"

fun action_table :: "write_action \<Rightarrow> table_role" where
  "action_table (Put t _ _ _) = t"
| "action_table (Update t _ _ _ _) = t"
| "action_table (ConditionCheck t _ _) = t"

fun action_key :: "write_action \<Rightarrow> item_key" where
  "action_key (Put _ k _ _) = k"
| "action_key (Update _ k _ _ _) = k"
| "action_key (ConditionCheck _ k _) = k"

fun action_condition :: "write_action \<Rightarrow> condition option" where
  "action_condition (Put _ _ _ c) = c"
| "action_condition (Update _ _ _ _ c) = Some c"
| "action_condition (ConditionCheck _ _ c) = Some c"

definition key_members :: "item_key \<Rightarrow> json_object" where
  "key_members k = [(''pk'', JString (pk k)), (''sk'', JString (sk k))]"

text \<open>
  \<^verbatim>\<open>applyUpdate\<close>: the members to set over the old item (or the key of a missing one), then the
  increments, each of which must meet a number or a missing attribute and keep the sum a safe
  integer, and last the key members.
\<close>

fun add_increments ::
  "stored_item option \<Rightarrow> (string \<times> int) list \<Rightarrow> json_object \<Rightarrow> json_object option" where
  "add_increments existing [] next = Some next"
| "add_increments existing ((name, amount) # rest) next =
     (case Option.bind existing (\<lambda>i. own_member i name) of
        None \<Rightarrow>
          if isSafeInteger (JsInt amount)
          then add_increments existing rest (obj_set name (JNumber (JsInt amount)) next) else None
      | Some (JNumber (Num q)) \<Rightarrow>
          if isSafeInteger (Num (q + of_int amount))
          then add_increments existing rest (obj_set name (JNumber (Num (q + of_int amount))) next)
          else None
      | _ \<Rightarrow> None)"

definition applyUpdate ::
  "stored_item option \<Rightarrow> item_key \<Rightarrow> (string \<times> json) list \<Rightarrow> (string \<times> int) list \<Rightarrow> stored_item option" where
  "applyUpdate existing key sets increments =
     map_option (\<lambda>next. obj_merge next (key_members key))
       (add_increments existing increments
          (obj_merge (case existing of None \<Rightarrow> key_members key | Some i \<Rightarrow> i) sets))"

text \<open>
  The image an action leaves: \<open>Inl ()\<close> for a refused update, \<open>Inr None\<close> for a condition check,
  \<open>Inr (Some i)\<close> for an item to store.
\<close>

fun nextImage :: "write_action \<Rightarrow> stored_item option \<Rightarrow> unit + stored_item option" where
  "nextImage (Put _ _ item _) previous = Inr (Some item)"
| "nextImage (Update _ key sets incs _) previous =
     (case applyUpdate previous key sets incs of None \<Rightarrow> Inl () | Some i \<Rightarrow> Inr (Some i))"
| "nextImage (ConditionCheck _ _ _) previous = Inr None"

type_synonym tables = "table_role \<Rightarrow> item_key \<Rightarrow> stored_item option"

definition set_item :: "table_role \<Rightarrow> item_key \<Rightarrow> stored_item \<Rightarrow> tables \<Rightarrow> tables" where
  "set_item t k i db = db(t := (db t)(k := Some i))"

type_synonym commit = "table_role \<times> item_key \<times> stored_item"

text \<open>The evaluation loop of \<^verbatim>\<open>#execute\<close>: every action against the state before the transaction.\<close>

fun evaluate_actions ::
  "tables \<Rightarrow> nat \<Rightarrow> write_action list \<Rightarrow> commit list \<Rightarrow> bool \<Rightarrow> write_outcome + (commit list \<times> bool)" where
  "evaluate_actions db index [] commits refused = Inr (commits, refused)"
| "evaluate_actions db index (a # as) commits refused =
     (let previous = db (action_table a) (action_key a)
      in if (case action_condition a of None \<Rightarrow> False | Some c \<Rightarrow> \<not> conditionHolds c previous)
         then Inl (ConditionFailed index previous)
         else (case nextImage a previous of
                 Inl _ \<Rightarrow> evaluate_actions db (Suc index) as commits True
               | Inr None \<Rightarrow> evaluate_actions db (Suc index) as commits refused
               | Inr (Some i) \<Rightarrow>
                   evaluate_actions db (Suc index) as
                     (commits @ [(action_table a, action_key a, i)]) refused))"

definition apply_commits :: "commit list \<Rightarrow> tables \<Rightarrow> tables" where
  "apply_commits commits db = foldl (\<lambda>d (t, k, i). set_item t k i d) db commits"

definition execute :: "write_action list \<Rightarrow> string \<Rightarrow> tables \<Rightarrow> write_outcome \<times> tables" where
  "execute actions typeErrorCode db =
     (case evaluate_actions db 0 actions [] False of
        Inl outcome \<Rightarrow> (outcome, db)
      | Inr (commits, refused) \<Rightarrow>
          if refused then (DefinitiveFailure typeErrorCode, db) else (Applied, apply_commits commits db))"

datatype scripted_fault = FaultDefinitive string | FaultAmbiguous string bool

fun withFault ::
  "scripted_fault option \<Rightarrow> (tables \<Rightarrow> write_outcome \<times> tables) \<Rightarrow> tables \<Rightarrow> write_outcome \<times> tables" where
  "withFault None run db = run db"
| "withFault (Some (FaultDefinitive code)) run db = (DefinitiveFailure code, db)"
| "withFault (Some (FaultAmbiguous code applied)) run db =
     (Ambiguous code, if applied then snd (run db) else db)"

definition store_write :: "scripted_fault option \<Rightarrow> write_action \<Rightarrow> tables \<Rightarrow> write_outcome \<times> tables" where
  "store_write fault action db = withFault fault (execute [action] ''ValidationException'') db"

definition store_transact ::
  "scripted_fault option \<Rightarrow> write_action list \<Rightarrow> tables \<Rightarrow> write_outcome \<times> tables" where
  "store_transact fault actions db = withFault fault (execute actions ''ValidationError'') db"

subsection \<open>The store as a port\<close>

text \<open>
  A transaction carries its \<^verbatim>\<open>ClientRequestToken\<close>. A failed consistent read answers its error
  code; \<open>None\<close> is an absent item.
\<close>

record 'w durable_item_store =
  item_write :: "write_action \<Rightarrow> ('w, write_outcome) io"
  item_transact :: "write_action list \<Rightarrow> uuid4 \<Rightarrow> ('w, write_outcome) io"
  item_get :: "table_role \<Rightarrow> item_key \<Rightarrow> ('w, string + stored_item option) io"

subsection \<open>The contract of one conditional write\<close>

text \<open>
  \<open>effect\<close> is the state change of a write whose condition held. The laws are the port's
  documentation: an applied write held its condition and had exactly its effect; a failed
  condition and a definitive failure changed nothing; an ambiguous write either changed nothing
  or was an ordinary applied write whose answer was lost.
\<close>

locale conditional_writes =
  fixes perform :: "'f \<Rightarrow> 'a \<Rightarrow> 's \<Rightarrow> write_outcome \<times> 's"
    and guard :: "'a \<Rightarrow> 's \<Rightarrow> bool"
    and effect :: "'a \<Rightarrow> 's \<Rightarrow> 's"
  assumes applied: "perform f a s = (Applied, s') \<Longrightarrow> guard a s \<and> s' = effect a s"
    and not_applied: "perform f a s = (ConditionFailed n e, s') \<Longrightarrow> s' = s"
    and definitive: "perform f a s = (DefinitiveFailure c, s') \<Longrightarrow> s' = s"
    and ambiguous: "perform f a s = (Ambiguous c, s') \<Longrightarrow> s' = s \<or> (guard a s \<and> s' = effect a s)"
begin

lemma state_after:
  assumes "perform f a s = (r, s')"
  shows "s' = s \<or> (guard a s \<and> s' = effect a s)"
  using assms applied not_applied definitive ambiguous by (cases r) blast+

lemma invariant_after:
  assumes "perform f a s = (r, s')" and "I s" and "guard a s \<Longrightarrow> I s \<Longrightarrow> I (effect a s)"
  shows "I s'"
  using state_after [OF assms(1)] assms(2,3) by auto

lemma changed_only_when_guarded:
  assumes "perform f a s = (r, s')" and "s' \<noteq> s"
  shows "guard a s" and "s' = effect a s"
  using state_after [OF assms(1)] assms(2) by auto

end

subsection \<open>The emulator meets the contract\<close>

definition action_guard :: "write_action \<Rightarrow> tables \<Rightarrow> bool" where
  "action_guard a db \<longleftrightarrow>
     (case action_condition a of None \<Rightarrow> True
      | Some c \<Rightarrow> conditionHolds c (db (action_table a) (action_key a)))"

definition action_effect :: "write_action \<Rightarrow> tables \<Rightarrow> tables" where
  "action_effect a db =
     (case nextImage a (db (action_table a) (action_key a)) of
        Inr (Some i) \<Rightarrow> set_item (action_table a) (action_key a) i db
      | _ \<Rightarrow> db)"

lemma execute_single:
  "execute [a] code db =
     (if \<not> action_guard a db
      then (ConditionFailed 0 (db (action_table a) (action_key a)), db)
      else (case nextImage a (db (action_table a) (action_key a)) of
              Inl _ \<Rightarrow> (DefinitiveFailure code, db)
            | Inr _ \<Rightarrow> (Applied, action_effect a db)))"
  by (auto simp: execute_def action_guard_def action_effect_def apply_commits_def Let_def
      split: option.splits sum.splits)

lemma store_write_cases:
  "store_write f a db =
     (case f of
        None \<Rightarrow> execute [a] ''ValidationException'' db
      | Some (FaultDefinitive code) \<Rightarrow> (DefinitiveFailure code, db)
      | Some (FaultAmbiguous code applied) \<Rightarrow>
          (Ambiguous code, if applied then snd (execute [a] ''ValidationException'' db) else db))"
  by (simp add: store_write_def split: option.splits scripted_fault.splits)

interpretation single_write: conditional_writes store_write action_guard action_effect
  by unfold_locales
    (auto simp: store_write_cases execute_single
      split: if_splits option.splits scripted_fault.splits sum.splits)

subsection \<open>Transactions meet the same contract\<close>

text \<open>
  A transaction is one conditional write too: it applies when every condition holds and no
  increment is refused, and then stores every image computed from the state before it.
\<close>

fun action_commits :: "tables \<Rightarrow> write_action \<Rightarrow> commit list" where
  "action_commits db a =
     (case nextImage a (db (action_table a) (action_key a)) of
        Inr (Some i) \<Rightarrow> [(action_table a, action_key a, i)]
      | _ \<Rightarrow> [])"

definition action_refused :: "tables \<Rightarrow> write_action \<Rightarrow> bool" where
  "action_refused db a \<longleftrightarrow> nextImage a (db (action_table a) (action_key a)) = Inl ()"

definition transact_guard :: "write_action list \<Rightarrow> tables \<Rightarrow> bool" where
  "transact_guard as db \<longleftrightarrow> list_all (\<lambda>a. action_guard a db \<and> \<not> action_refused db a) as"

definition transact_effect :: "write_action list \<Rightarrow> tables \<Rightarrow> tables" where
  "transact_effect as db = apply_commits (concat (map (action_commits db) as)) db"

lemma evaluate_actions_Inr:
  "evaluate_actions db n as cs ref = Inr (cs', ref') \<longleftrightarrow>
     list_all (\<lambda>a. action_guard a db) as
     \<and> cs' = cs @ concat (map (action_commits db) as)
     \<and> ref' = (ref \<or> list_ex (action_refused db) as)"
proof (induction as arbitrary: n cs ref)
  case (Cons a as)
  then show ?case
    by (cases "nextImage a (db (action_table a) (action_key a))")
      (auto simp: Let_def action_guard_def action_refused_def split: option.splits)
qed auto

lemma evaluate_actions_Inl:
  assumes "evaluate_actions db n as cs ref = Inl r"
  shows "\<exists>k<length as. \<not> action_guard (as ! k) db \<and> (\<forall>j<k. action_guard (as ! j) db)
    \<and> r = ConditionFailed (n + k) (db (action_table (as ! k)) (action_key (as ! k)))"
  using assms
proof (induction as arbitrary: n cs ref)
  case (Cons a as)
  show ?case
  proof (cases "action_guard a db")
    case True
    with Cons.prems obtain cs' ref' where "evaluate_actions db (Suc n) as cs' ref' = Inl r"
      by (auto simp: Let_def action_guard_def split: option.splits if_splits sum.splits)
    from Cons.IH [OF this] obtain k where k: "k < length as" "\<not> action_guard (as ! k) db"
      "\<forall>j<k. action_guard (as ! j) db"
      "r = ConditionFailed (Suc n + k) (db (action_table (as ! k)) (action_key (as ! k)))" by blast
    with True show ?thesis by (intro exI [of _ "Suc k"]) (auto simp: less_Suc_eq_0_disj)
  next
    case False
    with Cons.prems show ?thesis
      by (intro exI [of _ 0]) (auto simp: Let_def action_guard_def split: option.splits if_splits)
  qed
qed auto

lemma execute_cases:
  obtains (applied) "execute as code db = (Applied, transact_effect as db)" "transact_guard as db"
  | (refused) "execute as code db = (DefinitiveFailure code, db)" "\<not> transact_guard as db"
      "list_all (\<lambda>a. action_guard a db) as"
  | (failed) k where "k < length as" "\<not> action_guard (as ! k) db" "\<forall>j<k. action_guard (as ! j) db"
      "execute as code db = (ConditionFailed k (db (action_table (as ! k)) (action_key (as ! k))), db)"
proof (cases "evaluate_actions db 0 as [] False")
  case (Inl r)
  with evaluate_actions_Inl [OF Inl] failed show thesis by (auto simp: execute_def)
next
  case (Inr p)
  obtain cs ref where p: "p = (cs, ref)" by fastforce
  with Inr have *: "evaluate_actions db 0 as [] False = Inr (cs, ref)" by simp
  note facts = evaluate_actions_Inr [THEN iffD1, OF *]
  have guard: "transact_guard as db \<longleftrightarrow> \<not> ref"
    using facts by (auto simp: transact_guard_def list_all_iff list_ex_iff)
  show thesis
  proof (cases ref)
    case True
    with * guard facts refused show thesis by (simp add: execute_def)
  next
    case False
    with * guard facts applied show thesis by (simp add: execute_def transact_effect_def)
  qed
qed

lemma store_transact_cases:
  "store_transact f as db =
     (case f of
        None \<Rightarrow> execute as ''ValidationError'' db
      | Some (FaultDefinitive code) \<Rightarrow> (DefinitiveFailure code, db)
      | Some (FaultAmbiguous code applied) \<Rightarrow>
          (Ambiguous code, if applied then snd (execute as ''ValidationError'' db) else db))"
  by (simp add: store_transact_def split: option.splits scripted_fault.splits)

interpretation transaction: conditional_writes store_transact transact_guard transact_effect
proof
  fix f as db db' n e c
  note cases = execute_cases [of as "''ValidationError''" db]
  show "transact_guard as db \<and> db' = transact_effect as db" if "store_transact f as db = (Applied, db')"
    by (rule cases) (use that in \<open>auto simp: store_transact_cases split: option.splits scripted_fault.splits\<close>)
  show "db' = db" if "store_transact f as db = (ConditionFailed n e, db')"
    by (rule cases) (use that in \<open>auto simp: store_transact_cases split: option.splits scripted_fault.splits\<close>)
  show "db' = db" if "store_transact f as db = (DefinitiveFailure c, db')"
    by (rule cases) (use that in \<open>auto simp: store_transact_cases split: option.splits scripted_fault.splits\<close>)
  show "db' = db \<or> (transact_guard as db \<and> db' = transact_effect as db)"
    if "store_transact f as db = (Ambiguous c, db')"
    by (rule cases)
      (use that in \<open>auto simp: store_transact_cases split: option.splits scripted_fault.splits if_splits\<close>)
qed

lemma store_transact_condition_failed:
  assumes "store_transact f as db = (ConditionFailed k e, db')"
  shows "k < length as \<and> \<not> action_guard (as ! k) db \<and> (\<forall>j<k. action_guard (as ! j) db)
    \<and> e = db (action_table (as ! k)) (action_key (as ! k)) \<and> db' = db"
  by (rule execute_cases [of as "''ValidationError''" db])
    (use assms in \<open>auto simp: store_transact_cases split: option.splits scripted_fault.splits\<close>)

subsection \<open>A store among other writers\<close>

text \<open>
  What a client may rely on when it reaches the tables only through a store port: between any two
  of its calls the others move the tables as \<open>rely\<close> allows, each write answers one of the
  emulator's outcomes on the tables it meets, and a call that throws changed nothing or was
  applied. \<open>view\<close> reads the tables out of the world and \<open>sane\<close> is what the world itself keeps.
\<close>

locale store_environment =
  fixes store :: "'w durable_item_store"
    and view :: "'w \<Rightarrow> tables"
    and sane :: "'w \<Rightarrow> bool"
    and rely :: "tables \<Rightarrow> tables \<Rightarrow> bool"
  assumes write_law:
      "sane w \<Longrightarrow> run_state (item_write store a) w = (r, w') \<Longrightarrow>
       sane w' \<and> (\<exists>db. rely (view w) db \<and>
         (case r of
            Inr outcome \<Rightarrow> (\<exists>f. store_write f a db = (outcome, view w'))
          | Inl _ \<Rightarrow> view w' = db \<or> (action_guard a db \<and> view w' = action_effect a db)))"
    and transact_law:
      "sane w \<Longrightarrow> run_state (item_transact store as token) w = (r, w') \<Longrightarrow>
       sane w' \<and> (\<exists>db. rely (view w) db \<and>
         (case r of
            Inr outcome \<Rightarrow> (\<exists>f. store_transact f as db = (outcome, view w'))
          | Inl _ \<Rightarrow> view w' = db \<or> (transact_guard as db \<and> view w' = transact_effect as db)))"
    and read_law:
      "sane w \<Longrightarrow> run_state (item_get store t k) w = (answer, w') \<Longrightarrow>
       sane w' \<and> rely (view w) (view w') \<and> (\<forall>v. answer = Inr (Inr v) \<longrightarrow> v = view w' t k)"

end
