(* ===== verification/Lease_Item.thy ===== *)
theory Lease_Item
  imports Item_Store
begin

text \<open>
  The lease item of the coordination table (\<^verbatim>\<open>coordination-lease/lease-item.ts\<close>): its record,
  the total decoder of untrusted stored items, and the item a fresh acquisition writes.
\<close>

datatype lease_item_status = HELD | RELEASED | RECOVERY_REQUIRED

record lease_owner =
  owner_kind :: execution_kind
  owner_id :: uuid4
  owner_manifest_sha256 :: sha256_hex

record lease_item = lease_owner +
  lease_pk :: string
  lease_sk :: string
  coordination_schema_version :: int
  lease_status :: lease_item_status
  lease_version :: int
  acquired_at :: utc_millis
  heartbeat_at :: utc_millis
  expires_at :: utc_millis
  updated_at :: utc_millis

definition COORDINATION_SCHEMA_VERSION :: int where
  "COORDINATION_SCHEMA_VERSION = 1"

definition LEASE_ITEM_KEY :: item_key where
  "LEASE_ITEM_KEY = \<lparr>pk = ''lease#study-1'', sk = ''current''\<rparr>"

definition LEASE_STALE_BOUNDARY_MS :: int where
  "LEASE_STALE_BOUNDARY_MS = 300000"

definition LEASE_RULE :: string where
  "LEASE_RULE = ''BR-RUA-045''"

definition leaseReason :: "string \<Rightarrow> structured_reason" where
  "leaseReason code = mk_reason code LEASE_RULE"

fun status_text :: "lease_item_status \<Rightarrow> string" where
  "status_text HELD = ''HELD''"
| "status_text RELEASED = ''RELEASED''"
| "status_text RECOVERY_REQUIRED = ''RECOVERY_REQUIRED''"

definition LEASE_ITEM_STATUSES :: "lease_item_status list" where
  "LEASE_ITEM_STATUSES = [HELD, RELEASED, RECOVERY_REQUIRED]"

definition MEMBERS :: "string list" where
  "MEMBERS = [''pk'', ''sk'', ''coordination_schema_version'', ''lease_status'', ''owner_kind'',
     ''owner_id'', ''owner_manifest_sha256'', ''lease_version'', ''acquired_at'', ''heartbeat_at'',
     ''expires_at'', ''updated_at'']"

definition MEMBER_CHECKS :: "string \<Rightarrow> json \<Rightarrow> bool" where
  "MEMBER_CHECKS member v =
     (if member = ''pk'' then v = JString (pk LEASE_ITEM_KEY)
      else if member = ''sk'' then v = JString (sk LEASE_ITEM_KEY)
      else if member = ''coordination_schema_version''
           then v = JNumber (JsInt COORDINATION_SCHEMA_VERSION)
      else if member = ''lease_status'' then is_text_of status_text LEASE_ITEM_STATUSES v
      else if member = ''owner_kind'' then is_text_of kind_text EXECUTION_KINDS v
      else if member = ''owner_id'' then isUuid4 v
      else if member = ''owner_manifest_sha256'' then isSha256Hex v
      else if member = ''lease_version'' then is_positive_safe_number v
      else isUtcMillisJson v)"

definition member_ok :: "stored_item \<Rightarrow> string \<Rightarrow> bool" where
  "member_ok item member \<longleftrightarrow>
     (case own_member item member of None \<Rightarrow> False | Some v \<Rightarrow> MEMBER_CHECKS member v)"

definition as_lease_item :: "stored_item \<Rightarrow> lease_item" where
  "as_lease_item item =
     \<lparr>owner_kind = of_text kind_text EXECUTION_KINDS RUN (text_member item ''owner_kind''),
      owner_id = text_member item ''owner_id'',
      owner_manifest_sha256 = text_member item ''owner_manifest_sha256'',
      lease_pk = text_member item ''pk'',
      lease_sk = text_member item ''sk'',
      coordination_schema_version = int_member item ''coordination_schema_version'',
      lease_status = of_text status_text LEASE_ITEM_STATUSES HELD (text_member item ''lease_status''),
      lease_version = int_member item ''lease_version'',
      acquired_at = text_member item ''acquired_at'',
      heartbeat_at = text_member item ''heartbeat_at'',
      expires_at = text_member item ''expires_at'',
      updated_at = text_member item ''updated_at''\<rparr>"

definition decodeLeaseItem :: "stored_item \<Rightarrow> structured_reason + lease_item" where
  "decodeLeaseItem item =
     (case List.find (\<lambda>name. name \<notin> set MEMBERS) (map fst item) of
        Some _ \<Rightarrow> Inl (leaseReason ''LEASE_ITEM_UNDECODABLE'')
      | None \<Rightarrow>
         (case List.find (\<lambda>m. \<not> member_ok item m) MEMBERS of
            Some _ \<Rightarrow> Inl (leaseReason ''LEASE_ITEM_UNDECODABLE'')
          | None \<Rightarrow> Inr (as_lease_item item)))"

definition isOwnedBy :: "'a lease_owner_scheme \<Rightarrow> 'b lease_owner_scheme \<Rightarrow> bool" where
  "isOwnedBy item owner \<longleftrightarrow>
     owner_kind item = owner_kind owner \<and> owner_id item = owner_id owner
     \<and> owner_manifest_sha256 item = owner_manifest_sha256 owner"

definition isLeaseAvailable :: "lease_item option \<Rightarrow> bool" where
  "isLeaseAvailable item \<longleftrightarrow> (case item of None \<Rightarrow> True | Some i \<Rightarrow> lease_status i = RELEASED)"

definition leaseExpiry :: "utc_millis \<Rightarrow> js_throw + utc_millis" where
  "leaseExpiry instant = formatUtcMillis (Date_parse instant + LEASE_STALE_BOUNDARY_MS)"

definition acquiredLeaseItem :: "lease_owner \<Rightarrow> utc_millis \<Rightarrow> js_throw + lease_item" where
  "acquiredLeaseItem owner instant =
     (case leaseExpiry instant of
        Inl e \<Rightarrow> Inl e
      | Inr expiry \<Rightarrow>
          Inr \<lparr>owner_kind = owner_kind owner, owner_id = owner_id owner,
               owner_manifest_sha256 = owner_manifest_sha256 owner,
               lease_pk = pk LEASE_ITEM_KEY, lease_sk = sk LEASE_ITEM_KEY,
               coordination_schema_version = COORDINATION_SCHEMA_VERSION,
               lease_status = HELD, lease_version = 1, acquired_at = instant, heartbeat_at = instant,
               expires_at = expiry, updated_at = instant\<rparr>)"

definition toStoredItem :: "lease_item \<Rightarrow> stored_item" where
  "toStoredItem i =
     [(''pk'', JString (lease_pk i)), (''sk'', JString (lease_sk i)),
      (''coordination_schema_version'', JNumber (JsInt (coordination_schema_version i))),
      (''lease_status'', JString (status_text (lease_status i))),
      (''owner_kind'', JString (kind_text (owner_kind i))),
      (''owner_id'', JString (owner_id i)),
      (''owner_manifest_sha256'', JString (owner_manifest_sha256 i)),
      (''lease_version'', JNumber (JsInt (lease_version i))),
      (''acquired_at'', JString (acquired_at i)),
      (''heartbeat_at'', JString (heartbeat_at i)),
      (''expires_at'', JString (expires_at i)),
      (''updated_at'', JString (updated_at i))]"

subsection \<open>Well-formed items\<close>

text \<open>What the decoder establishes of every item it returns.\<close>

definition wf_lease_item :: "lease_item \<Rightarrow> bool" where
  "wf_lease_item i \<longleftrightarrow>
     lease_pk i = pk LEASE_ITEM_KEY \<and> lease_sk i = sk LEASE_ITEM_KEY
     \<and> coordination_schema_version i = COORDINATION_SCHEMA_VERSION
     \<and> UUID4_PATTERN (owner_id i) \<and> SHA256_HEX_PATTERN (owner_manifest_sha256 i)
     \<and> 1 \<le> lease_version i \<and> lease_version i \<le> MAX_SAFE_INTEGER
     \<and> isUtcMillis (acquired_at i) \<and> isUtcMillis (heartbeat_at i)
     \<and> isUtcMillis (expires_at i) \<and> isUtcMillis (updated_at i)"

lemma status_text_inject [simp]: "status_text k = status_text k' \<longleftrightarrow> k = k'"
  by (cases k; cases k') auto

lemma is_text_of_status [simp]: "is_text_of status_text LEASE_ITEM_STATUSES (JString (status_text s))"
  by (cases s) (auto simp: is_text_of_def LEASE_ITEM_STATUSES_def)

lemma of_text_status [simp]: "of_text status_text LEASE_ITEM_STATUSES d (status_text k) = k"
  by (cases k) (auto simp: of_text_def LEASE_ITEM_STATUSES_def)

lemma isOwnedBy_truncate: "isOwnedBy i o1 \<Longrightarrow> isOwnedBy i o2 \<Longrightarrow> isOwnedBy o1 o2"
  by (simp add: isOwnedBy_def)

lemma isOwnedBy_eq: "isOwnedBy (o1 :: lease_owner) (o2 :: lease_owner) \<longleftrightarrow> o1 = o2"
  by (cases o1; cases o2) (auto simp: isOwnedBy_def)

lemma isOwnedBy_unique:
  fixes o1 o2 :: lease_owner
  shows "isOwnedBy (i :: lease_item) o1 \<Longrightarrow> isOwnedBy i o2 \<Longrightarrow> o1 = o2"
  using isOwnedBy_truncate isOwnedBy_eq by blast

lemma decode_ok_iff:
  "decodeLeaseItem item = Inr i \<longleftrightarrow>
     (\<forall>name\<in>set (map fst item). name \<in> set MEMBERS) \<and> (\<forall>m\<in>set MEMBERS. member_ok item m)
     \<and> i = as_lease_item item"
  unfolding decodeLeaseItem_def
  by (auto split: option.splits simp: find_None_all dest!: find_Some_mem)

lemma decode_error_code:
  "decodeLeaseItem item = Inl r \<Longrightarrow> r = leaseReason ''LEASE_ITEM_UNDECODABLE''"
  by (auto simp: decodeLeaseItem_def split: option.splits)


lemma member_ok_toStoredItem:
  assumes "wf_lease_item i"
  shows "\<forall>m\<in>set MEMBERS. member_ok (toStoredItem i) m"
  using assms
  by (simp add: MEMBERS_def member_ok_def toStoredItem_def MEMBER_CHECKS_def wf_lease_item_def
      is_positive_safe_number_def)

lemma as_lease_item_toStoredItem: "as_lease_item (toStoredItem i) = i"
  by (cases i) (simp add: as_lease_item_def toStoredItem_def text_member_def int_member_def)

lemma decode_toStoredItem: "wf_lease_item i \<Longrightarrow> decodeLeaseItem (toStoredItem i) = Inr i"
  using member_ok_toStoredItem [of i]
  by (simp add: decode_ok_iff as_lease_item_toStoredItem) (simp add: toStoredItem_def MEMBERS_def)

text \<open>Every item the decoder returns is well-formed.\<close>

lemma decode_wf:
  assumes "decodeLeaseItem item = Inr i"
  shows "wf_lease_item i"
proof -
  from assms have ok: "\<forall>m\<in>set MEMBERS. member_ok item m" and i: "i = as_lease_item item"
    by (auto simp: decode_ok_iff)
  have m: "member_ok item m" if "m \<in> set MEMBERS" for m using ok that by blast
  note ms = m [of "''pk''"] m [of "''sk''"] m [of "''coordination_schema_version''"]
    m [of "''owner_id''"] m [of "''owner_manifest_sha256''"] m [of "''lease_version''"]
    m [of "''acquired_at''"] m [of "''heartbeat_at''"] m [of "''expires_at''"] m [of "''updated_at''"]
  have str: "isUuid4 v \<Longrightarrow> UUID4_PATTERN (case v of JString t \<Rightarrow> t | _ \<Rightarrow> [])"
    "isSha256Hex v \<Longrightarrow> SHA256_HEX_PATTERN (case v of JString t \<Rightarrow> t | _ \<Rightarrow> [])"
    "isUtcMillisJson v \<Longrightarrow> isUtcMillis (case v of JString t \<Rightarrow> t | _ \<Rightarrow> [])" for v by (cases v; simp)+
  show ?thesis
    unfolding wf_lease_item_def i as_lease_item_def lease_item.simps lease_owner.simps
    by (intro conjI; insert ms; clarsimp simp: MEMBERS_def member_ok_def MEMBER_CHECKS_def text_member_def
        int_member_def is_positive_safe_number_int str split: option.splits)
qed

text \<open>The decoder only reads the members: items with the same members decode alike.\<close>

lemma decode_cong:
  assumes "map_of a = map_of b"
  shows "decodeLeaseItem a = decodeLeaseItem b"
proof -
  have "fst ` set a = fst ` set b" using assms by (simp flip: dom_map_of_conv_image_fst)
  then have names: "(List.find (\<lambda>name. name \<notin> set MEMBERS) (map fst a) = None)
    = (List.find (\<lambda>name. name \<notin> set MEMBERS) (map fst b) = None)"
    unfolding find_None_all set_map by simp
  have "member_ok a = member_ok b" "as_lease_item a = as_lease_item b"
    using assms by (simp_all add: member_ok_def as_lease_item_def text_member_def int_member_def fun_eq_iff)
  then show ?thesis
    using names unfolding decodeLeaseItem_def by (auto split: option.splits)
qed

end
