(* ===== verification/Lease_Store.thy ===== *)
theory Lease_Store
  imports Lease_Item
begin

text \<open>
  The lease store port and its two implementations: the durable one over the coordination table
  (\<^verbatim>\<open>durable-lease-store.ts\<close>) and the wrapper that never throws (\<^verbatim>\<open>guarded-lease-store.ts\<close>).

  A port is a record of operations in the state monad over a world \<open>'w\<close>: an \<^verbatim>\<open>async\<close> call is one
  step of the world, a call that may throw answers \<open>Inl\<close>. The world is whatever the caller
  cannot see: the table, the other owners and the faults of the network.
\<close>

subsection \<open>The lease store port\<close>

type_synonym lease_read = "string + lease_item option"

record 'w lease_store_port =
  lease_acquire :: "lease_owner \<Rightarrow> utc_millis \<Rightarrow> ('w, write_outcome) io"
  lease_heartbeat :: "lease_owner \<Rightarrow> int \<Rightarrow> utc_millis \<Rightarrow> ('w, write_outcome) io"
  lease_release :: "lease_owner \<Rightarrow> int \<Rightarrow> utc_millis \<Rightarrow> ('w, write_outcome) io"
  lease_mark_recovery :: "lease_owner \<Rightarrow> int \<Rightarrow> utc_millis \<Rightarrow> ('w, write_outcome) io"
  lease_read :: "('w, lease_read) io"

definition leaseOwnerOf :: "execution_identity \<Rightarrow> sha256_hex \<Rightarrow> lease_owner" where
  "leaseOwnerOf execution sha =
     \<lparr>owner_kind = execution_kind_of execution, owner_id = executionIdOf execution,
      owner_manifest_sha256 = sha\<rparr>"

subsection \<open>The durable lease store\<close>

definition releasedHolder :: "write_outcome \<Rightarrow> lease_item option" where
  "releasedHolder outcome =
     (case outcome of
        ConditionFailed _ (Some existing) \<Rightarrow>
          (case decodeLeaseItem existing of
             Inr i \<Rightarrow> if isLeaseAvailable (Some i) then Some i else None
           | Inl _ \<Rightarrow> None)
      | _ \<Rightarrow> None)"

definition sameReleasedItem :: "lease_item \<Rightarrow> condition" where
  "sameReleasedItem released =
     AllOf [AttributeEquals ''lease_status'' (SString ''RELEASED''),
            AttributeEquals ''lease_version'' (SNumber (JsInt (lease_version released))),
            AttributeEquals ''owner_id'' (SString (owner_id released))]"

definition ownedAt :: "lease_owner \<Rightarrow> int \<Rightarrow> lease_item_status list \<Rightarrow> condition" where
  "ownedAt owner version statuses =
     AllOf [AttributeEquals ''owner_kind'' (SString (kind_text (owner_kind owner))),
            AttributeEquals ''owner_id'' (SString (owner_id owner)),
            AttributeEquals ''owner_manifest_sha256'' (SString (owner_manifest_sha256 owner)),
            AttributeEquals ''lease_version'' (SNumber (JsInt version)),
            AttributeIn ''lease_status'' (map status_text statuses)]"

text \<open>The single writes an owner issues: the put of a fresh item, and the update of an owned one.\<close>

definition acquire_put :: "lease_item \<Rightarrow> condition \<Rightarrow> write_action" where
  "acquire_put item c = Put CoordinationTable LEASE_ITEM_KEY (toStoredItem item) (Some c)"

definition owned_update ::
  "lease_owner \<Rightarrow> int \<Rightarrow> lease_item_status list \<Rightarrow> (string \<times> json) list \<Rightarrow> write_action" where
  "owned_update owner version statuses sets =
     Update CoordinationTable LEASE_ITEM_KEY
       (sets @ [(''lease_version'', JNumber (JsInt (version + 1)))]) [] (ownedAt owner version statuses)"

definition heartbeat_sets :: "utc_millis \<Rightarrow> utc_millis \<Rightarrow> (string \<times> json) list" where
  "heartbeat_sets instant expiry =
     [(''heartbeat_at'', JString instant), (''expires_at'', JString expiry), (''updated_at'', JString instant)]"

definition status_sets :: "lease_item_status \<Rightarrow> utc_millis \<Rightarrow> (string \<times> json) list" where
  "status_sets status instant =
     [(''lease_status'', JString (status_text status)), (''updated_at'', JString instant)]"

definition acquireLease ::
  "'w durable_item_store \<Rightarrow> lease_owner \<Rightarrow> utc_millis \<Rightarrow> ('w, write_outcome) io" where
  "acquireLease store owner instant =
     io_bind (io_of (acquiredLeaseItem owner instant)) (\<lambda>item.
     io_bind (item_write store (acquire_put item ItemAbsent)) (\<lambda>first.
     case releasedHolder first of
       None \<Rightarrow> io_return first
     | Some released \<Rightarrow> item_write store (acquire_put item (sameReleasedItem released))))"

definition updateOwnedLease ::
  "'w durable_item_store \<Rightarrow> lease_owner \<Rightarrow> int \<Rightarrow> lease_item_status list \<Rightarrow> (string \<times> json) list
   \<Rightarrow> ('w, write_outcome) io" where
  "updateOwnedLease store owner expectedVersion statuses sets =
     item_write store (owned_update owner expectedVersion statuses sets)"

definition readLease :: "'w durable_item_store \<Rightarrow> ('w, lease_read) io" where
  "readLease store =
     io_bind (item_get store CoordinationTable LEASE_ITEM_KEY) (\<lambda>r.
     io_return
       (case r of
          Inl code \<Rightarrow> Inl ''LEASE_READ_FAILED''
        | Inr None \<Rightarrow> Inr None
        | Inr (Some stored) \<Rightarrow>
            (case decodeLeaseItem stored of
               Inl reason \<Rightarrow> Inl (reason_code reason)
             | Inr i \<Rightarrow> Inr (Some i))))"

definition createDurableLeaseStore :: "'w durable_item_store \<Rightarrow> 'w lease_store_port" where
  "createDurableLeaseStore store =
     \<lparr>lease_acquire = acquireLease store,
      lease_heartbeat = (\<lambda>owner version instant.
        io_bind (io_of (leaseExpiry instant)) (\<lambda>expiry.
          updateOwnedLease store owner version [HELD] (heartbeat_sets instant expiry))),
      lease_release = (\<lambda>owner version instant.
        updateOwnedLease store owner version [HELD, RECOVERY_REQUIRED] (status_sets RELEASED instant)),
      lease_mark_recovery = (\<lambda>owner version instant.
        updateOwnedLease store owner version [HELD] (status_sets RECOVERY_REQUIRED instant)),
      lease_read = readLease store\<rparr>"

subsection \<open>The store that never throws\<close>

definition LEASE_STORE_THREW :: string where
  "LEASE_STORE_THREW = ''LeaseStoreThrew''"

fun thrownName :: "js_throw \<Rightarrow> string" where
  "thrownName RangeError = ''RangeError''"
| "thrownName TypeError = ''TypeError''"
| "thrownName ErrorThrown = ''Error''"
| "thrownName (NamedError name) = name"
| "thrownName (ProviderFault _ _ _) = ''ProviderFault''"
| "thrownName (ControllerFault _ _) = ''ControllerFault''"

definition guardedWrite :: "('w, write_outcome) io \<Rightarrow> ('w, write_outcome) io" where
  "guardedWrite write =
     io_catch write (\<lambda>e. io_return (Ambiguous (LEASE_STORE_THREW @ '':'' @ thrownName e)))"

definition guardedRead :: "('w, lease_read) io \<Rightarrow> ('w, lease_read) io" where
  "guardedRead read = io_catch read (\<lambda>e. io_return (Inl ''LEASE_READ_FAILED''))"

definition guardLeaseStore :: "'w lease_store_port \<Rightarrow> 'w lease_store_port" where
  "guardLeaseStore store =
     \<lparr>lease_acquire = (\<lambda>owner instant. guardedWrite (lease_acquire store owner instant)),
      lease_heartbeat = (\<lambda>owner v instant. guardedWrite (lease_heartbeat store owner v instant)),
      lease_release = (\<lambda>owner v instant. guardedWrite (lease_release store owner v instant)),
      lease_mark_recovery = (\<lambda>owner v instant. guardedWrite (lease_mark_recovery store owner v instant)),
      lease_read = guardedRead (lease_read store)\<rparr>"

text \<open>No call of a guarded store throws.\<close>

lemma guardedWrite_never_throws [simp]: "never_throws (guardedWrite m)"
  by (simp add: guardedWrite_def never_throws_catch)

lemma guardedRead_never_throws [simp]: "never_throws (guardedRead m)"
  by (simp add: guardedRead_def never_throws_catch)

subsection \<open>What an owner's writes do to the lease item\<close>

text \<open>The lease item a table shows; \<open>None\<close> when absent or undecodable.\<close>

abbreviation lease_slot :: "tables \<Rightarrow> stored_item option" where
  "lease_slot db \<equiv> db CoordinationTable LEASE_ITEM_KEY"

definition shown_item :: "tables \<Rightarrow> lease_item option" where
  "shown_item db =
     (case lease_slot db of
        None \<Rightarrow> None
      | Some s \<Rightarrow> (case decodeLeaseItem s of Inl _ \<Rightarrow> None | Inr i \<Rightarrow> Some i))"

text \<open>Every write the durable lease store of \<open>owner\<close> can issue.\<close>

inductive lease_write :: "lease_owner \<Rightarrow> write_action \<Rightarrow> bool" for owner where
  put_absent: "acquiredLeaseItem owner instant = Inr item \<Longrightarrow> isUtcMillis instant \<Longrightarrow>
     lease_write owner (acquire_put item ItemAbsent)"
| put_released: "acquiredLeaseItem owner instant = Inr item \<Longrightarrow> isUtcMillis instant \<Longrightarrow>
     lease_status released = RELEASED \<Longrightarrow>
     lease_write owner (acquire_put item (sameReleasedItem released))"
| beat: "leaseExpiry instant = Inr expiry \<Longrightarrow> isUtcMillis instant \<Longrightarrow>
     lease_write owner (owned_update owner v [HELD] (heartbeat_sets instant expiry))"
| settle: "isUtcMillis instant \<Longrightarrow>
     lease_write owner (owned_update owner v [HELD, RECOVERY_REQUIRED] (status_sets RELEASED instant))"
| recover: "isUtcMillis instant \<Longrightarrow>
     lease_write owner (owned_update owner v [HELD] (status_sets RECOVERY_REQUIRED instant))"

lemma is_text_of_read_back:
  "is_text_of f xs v \<Longrightarrow> \<exists>t. v = JString t \<and> f (of_text f xs d t) = t"
  by (cases v)
    (auto simp: is_text_of_def of_text_def find_None_all split: option.splits dest!: find_Some_mem)

lemma member_checks_read_back:
  assumes "MEMBER_CHECKS m v" and "m \<in> set MEMBERS" and "own_member s m = Some v"
  shows "own_member (toStoredItem (as_lease_item s)) m = Some v"
proof -
  have "m = ''pk'' \<or> m = ''sk'' \<or> m = ''coordination_schema_version'' \<or> m = ''lease_status''
    \<or> m = ''owner_kind'' \<or> m = ''owner_id'' \<or> m = ''owner_manifest_sha256'' \<or> m = ''lease_version''
    \<or> m = ''acquired_at'' \<or> m = ''heartbeat_at'' \<or> m = ''expires_at'' \<or> m = ''updated_at''"
    using assms(2) by (simp add: MEMBERS_def)
  then show ?thesis
    using assms(1,3) unfolding toStoredItem_def as_lease_item_def
    by (elim disjE)
      (simp_all add: MEMBER_CHECKS_def text_member_def int_member_def isUuid4_text isSha256Hex_text
        isUtcMillisJson_text is_positive_safe_number_int,
       use is_text_of_read_back in fastforce, use is_text_of_read_back in fastforce, auto)
qed

text \<open>A decodable item has exactly the members of its decoded form.\<close>

lemma decode_members:
  assumes "decodeLeaseItem s = Inr i"
  shows "own_member s = own_member (toStoredItem i)"
proof
  fix m
  from assms have names: "\<forall>n\<in>fst ` set s. n \<in> set MEMBERS"
    and ok: "\<And>n. n \<in> set MEMBERS \<Longrightarrow> member_ok s n" and i: "i = as_lease_item s"
    by (auto simp: decode_ok_iff)
  show "own_member s m = own_member (toStoredItem i) m"
  proof (cases "m \<in> set MEMBERS")
    case True
    with ok [OF True] member_checks_read_back [of m _ s] show ?thesis
      by (auto simp: member_ok_def i split: option.splits)
  next
    case False
    with names have "own_member s m = None" by (auto simp: map_of_eq_None_iff)
    moreover from False have "own_member (toStoredItem i) m = None"
      by (auto simp: toStoredItem_def MEMBERS_def)
    ultimately show ?thesis by simp
  qed
qed

lemma member_text:
  assumes "decodeLeaseItem s = Inr i"
  shows "own_member s ''owner_kind'' = Some (JString (kind_text (owner_kind i)))"
    and "own_member s ''owner_id'' = Some (JString (owner_id i))"
    and "own_member s ''owner_manifest_sha256'' = Some (JString (owner_manifest_sha256 i))"
    and "own_member s ''lease_version'' = Some (JNumber (JsInt (lease_version i)))"
    and "own_member s ''lease_status'' = Some (JString (status_text (lease_status i)))"
  by (simp_all add: decode_members [OF assms] toStoredItem_def)

lemma ownedAt_holds:
  assumes "decodeLeaseItem s = Inr i"
  shows "conditionHolds (ownedAt owner v statuses) (Some s) \<longleftrightarrow>
    isOwnedBy i owner \<and> lease_version i = v \<and> lease_status i \<in> set statuses"
  by (auto simp: ownedAt_def isOwnedBy_def member_text [OF assms])

lemma sameReleasedItem_holds:
  assumes "decodeLeaseItem s = Inr i"
  shows "conditionHolds (sameReleasedItem r) (Some s) \<longleftrightarrow>
    lease_status i = RELEASED \<and> lease_version i = lease_version r \<and> owner_id i = owner_id r"
proof -
  have "status_text (lease_status i) = ''RELEASED'' \<longleftrightarrow> lease_status i = RELEASED"
    by (cases "lease_status i") auto
  then show ?thesis by (auto simp: sameReleasedItem_def member_text [OF assms])
qed


subsection \<open>Effects on decodable items\<close>

lemma applyUpdate_no_increments:
  "applyUpdate (Some s) key sets [] = Some (obj_merge (obj_merge s sets) (key_members key))"
  by (simp add: applyUpdate_def)

lemma beat_image:
  assumes "decodeLeaseItem s = Inr i" and "isUtcMillis instant" and "isUtcMillis expiry"
    and "lease_version i = v" and "v < MAX_SAFE_INTEGER"
  shows "\<exists>s'. nextImage (owned_update owner v statuses (heartbeat_sets instant expiry)) (Some s) = Inr (Some s')
    \<and> decodeLeaseItem s' = Inr (i\<lparr>heartbeat_at := instant, expires_at := expiry, updated_at := instant,
        lease_version := v + 1\<rparr>)"
proof -
  let ?s' = "obj_merge (obj_merge s (heartbeat_sets instant expiry @ [(''lease_version'', JNumber (JsInt (v + 1)))]))
     (key_members LEASE_ITEM_KEY)"
  let ?i' = "i\<lparr>heartbeat_at := instant, expires_at := expiry, updated_at := instant, lease_version := v + 1\<rparr>"
  have wf: "wf_lease_item i" using assms(1) by (rule decode_wf)
  have "own_member ?s' = own_member (toStoredItem ?i')"
    using wf by (auto simp: map_of_obj_merge decode_members [OF assms(1)] heartbeat_sets_def key_members_def
        toStoredItem_def wf_lease_item_def fun_eq_iff)
  moreover have "wf_lease_item ?i'" using wf assms(2-) by (simp add: wf_lease_item_def)
  ultimately have "decodeLeaseItem ?s' = Inr ?i'" using decode_cong decode_toStoredItem by metis
  then show ?thesis by (simp add: owned_update_def applyUpdate_no_increments)
qed

lemma status_image:
  assumes "decodeLeaseItem s = Inr i" and "isUtcMillis instant"
    and "lease_version i = v" and "v < MAX_SAFE_INTEGER"
  shows "\<exists>s'. nextImage (owned_update owner v statuses (status_sets st instant)) (Some s) = Inr (Some s')
    \<and> decodeLeaseItem s' = Inr (i\<lparr>lease_status := st, updated_at := instant, lease_version := v + 1\<rparr>)"
proof -
  let ?s' = "obj_merge (obj_merge s (status_sets st instant @ [(''lease_version'', JNumber (JsInt (v + 1)))]))
     (key_members LEASE_ITEM_KEY)"
  let ?i' = "i\<lparr>lease_status := st, updated_at := instant, lease_version := v + 1\<rparr>"
  have wf: "wf_lease_item i" using assms(1) by (rule decode_wf)
  have "own_member ?s' = own_member (toStoredItem ?i')"
    using wf by (auto simp: map_of_obj_merge decode_members [OF assms(1)] status_sets_def key_members_def
        toStoredItem_def wf_lease_item_def fun_eq_iff)
  moreover have "wf_lease_item ?i'" using wf assms(2-) by (simp add: wf_lease_item_def)
  ultimately have "decodeLeaseItem ?s' = Inr ?i'" using decode_cong decode_toStoredItem by metis
  then show ?thesis by (simp add: owned_update_def applyUpdate_no_increments)
qed

subsection \<open>The abstract lease and its refinement\<close>

text \<open>
  The lease as its callers think of it: at most one item, which a fresh owner may take only when
  there is none or it was released, and which only its owner moves, raising the version by one.
\<close>

definition slot_ok :: "tables \<Rightarrow> bool" where
  "slot_ok db \<longleftrightarrow> (case lease_slot db of None \<Rightarrow> True | Some s \<Rightarrow> (\<exists>i. decodeLeaseItem s = Inr i))"

inductive lease_step :: "lease_owner \<Rightarrow> lease_item option \<Rightarrow> lease_item option \<Rightarrow> bool" for owner where
  take: "isLeaseAvailable x \<Longrightarrow> acquiredLeaseItem owner instant = Inr i \<Longrightarrow> lease_step owner x (Some i)"
| beat_step: "isOwnedBy i owner \<Longrightarrow> lease_status i = HELD \<Longrightarrow>
     lease_step owner (Some i)
       (Some (i\<lparr>heartbeat_at := instant, expires_at := expiry, updated_at := instant,
          lease_version := lease_version i + 1\<rparr>))"
| settle_step: "isOwnedBy i owner \<Longrightarrow> lease_status i \<noteq> RELEASED \<Longrightarrow> st \<noteq> HELD \<Longrightarrow>
     (st = RECOVERY_REQUIRED \<Longrightarrow> lease_status i = HELD) \<Longrightarrow>
     lease_step owner (Some i)
       (Some (i\<lparr>lease_status := st, updated_at := instant, lease_version := lease_version i + 1\<rparr>))"

definition wf_owner :: "lease_owner \<Rightarrow> bool" where
  "wf_owner owner \<longleftrightarrow> UUID4_PATTERN (owner_id owner) \<and> SHA256_HEX_PATTERN (owner_manifest_sha256 owner)"

lemma leaseExpiry_isUtcMillis: "leaseExpiry instant = Inr e \<Longrightarrow> isUtcMillis e"
  by (auto simp: leaseExpiry_def formatUtcMillis_def Let_def split: if_splits)

lemma acquired_fields:
  assumes "acquiredLeaseItem owner instant = Inr i"
  shows "isOwnedBy i owner" "lease_status i = HELD" "lease_version i = 1" "acquired_at i = instant"
  using assms by (auto simp: acquiredLeaseItem_def isOwnedBy_def split: sum.splits)

lemma acquired_wf:
  assumes "acquiredLeaseItem owner instant = Inr i" and "isUtcMillis instant" and "wf_owner owner"
  shows "wf_lease_item i"
  using assms leaseExpiry_isUtcMillis
  by (auto simp: acquiredLeaseItem_def wf_lease_item_def wf_owner_def MAX_SAFE_INTEGER_def split: sum.splits)

lemma shown_item_Some: "shown_item db = Some i \<longleftrightarrow> (\<exists>s. lease_slot db = Some s \<and> decodeLeaseItem s = Inr i)"
  by (auto simp: shown_item_def split: option.splits sum.splits)

lemma shown_item_None: "slot_ok db \<Longrightarrow> shown_item db = None \<longleftrightarrow> lease_slot db = None"
  by (auto simp: shown_item_def slot_ok_def split: option.splits sum.splits)

lemma lease_slot_set_item [simp]: "lease_slot (set_item CoordinationTable LEASE_ITEM_KEY i db) = Some i"
  by (simp add: set_item_def)

lemma effect_put [simp]:
  "action_effect (acquire_put item c) db = set_item CoordinationTable LEASE_ITEM_KEY (toStoredItem item) db"
  by (simp add: action_effect_def acquire_put_def)

lemma guard_put [simp]: "action_guard (acquire_put item c) db \<longleftrightarrow> conditionHolds c (lease_slot db)"
  by (simp add: action_guard_def acquire_put_def)

lemma guard_update [simp]:
  "action_guard (owned_update owner v statuses sets) db \<longleftrightarrow> conditionHolds (ownedAt owner v statuses) (lease_slot db)"
  by (simp add: action_guard_def owned_update_def)

lemma effect_update:
  assumes "nextImage (owned_update owner v statuses sets) (lease_slot db) = Inr (Some s')"
  shows "lease_slot (action_effect (owned_update owner v statuses sets) db) = Some s'"
  using assms by (simp add: action_effect_def owned_update_def)

lemma sameReleasedItem_absent [simp]: "\<not> conditionHolds (sameReleasedItem r) None"
  by (simp add: sameReleasedItem_def)

lemma ownedAt_absent [simp]: "\<not> conditionHolds (ownedAt owner v statuses) None"
  by (simp add: ownedAt_def)

text \<open>
  Fencing: while the table shows an item that names \<open>o1\<close> and is not released, no write another
  owner can issue passes its condition.
\<close>

lemma foreign_guard_fails:
  assumes "lease_write o2 a" and "o2 \<noteq> o1" and "shown_item db = Some i" and "isOwnedBy i o1"
    and "lease_status i \<noteq> RELEASED"
  shows "\<not> action_guard a db"
proof -
  from assms(3) obtain s where s: "lease_slot db = Some s" "decodeLeaseItem s = Inr i"
    by (auto simp: shown_item_Some)
  have "\<not> isOwnedBy i o2" using assms(2,4) isOwnedBy_unique by blast
  with assms(1,5) s show ?thesis
    by cases (auto simp: ownedAt_holds [OF s(2)] sameReleasedItem_holds [OF s(2)])
qed

lemma foreign_write_blocked:
  assumes "lease_write o2 a" and "o2 \<noteq> o1" and "shown_item db = Some i" and "isOwnedBy i o1"
    and "lease_status i \<noteq> RELEASED" and "store_write f a db = (r, db')"
  shows "db' = db"
  using single_write.state_after [OF assms(6)] foreign_guard_fails [OF assms(1-5)] by blast

lemma owned_guardE:
  assumes "slot_ok db" and "action_guard (owned_update owner v statuses sets) db"
  obtains s i where "lease_slot db = Some s" and "decodeLeaseItem s = Inr i" and "shown_item db = Some i"
    and "isOwnedBy i owner" and "lease_version i = v" and "lease_status i \<in> set statuses"
  using assms that
  by (auto simp: slot_ok_def shown_item_def ownedAt_holds split: option.splits)

lemma update_is_step:
  assumes "lease_slot db = Some s"
    and "\<exists>s'. nextImage (owned_update o' v statuses sets) (Some s) = Inr (Some s') \<and> decodeLeaseItem s' = Inr i'"
    and "lease_step owner x (Some i')"
  shows "slot_ok (action_effect (owned_update o' v statuses sets) db)
    \<and> lease_step owner x (shown_item (action_effect (owned_update o' v statuses sets) db))"
  using effect_update [of o' v statuses sets db] assms by (auto simp: slot_ok_def shown_item_def)

text \<open>An owner's write on a decodable table is a step of the abstract lease, or nothing.\<close>

lemma lease_write_effect:
  assumes "lease_write owner a" and "wf_owner owner" and "slot_ok db" and "action_guard a db"
    and bound: "\<And>i. shown_item db = Some i \<Longrightarrow> lease_version i < MAX_SAFE_INTEGER"
  shows "slot_ok (action_effect a db) \<and> lease_step owner (shown_item db) (shown_item (action_effect a db))"
  using assms(1)
proof cases
  case (put_absent instant item)
  with assms acquired_wf have "decodeLeaseItem (toStoredItem item) = Inr item"
    using decode_toStoredItem by blast
  with put_absent assms show ?thesis
    by (auto simp: slot_ok_def shown_item_def isLeaseAvailable_def intro!: lease_step.take)
next
  case (put_released instant item released)
  with assms acquired_wf have dec: "decodeLeaseItem (toStoredItem item) = Inr item"
    using decode_toStoredItem by blast
  from put_released assms obtain s i where s: "lease_slot db = Some s" "decodeLeaseItem s = Inr i"
    by (auto simp: slot_ok_def split: option.splits)
  with put_released assms have "lease_status i = RELEASED" by (simp add: sameReleasedItem_holds [OF s(2)])
  with put_released dec s show ?thesis
    by (auto simp: slot_ok_def shown_item_def isLeaseAvailable_def intro!: lease_step.take)
next
  case (beat instant expiry v)
  from assms(3,4) obtain s i where i: "lease_slot db = Some s" "decodeLeaseItem s = Inr i"
    "shown_item db = Some i" "isOwnedBy i owner" "lease_version i = v" "lease_status i \<in> set [HELD]"
    unfolding beat(1) by (rule owned_guardE)
  have v: "v < MAX_SAFE_INTEGER" using bound i by auto
  have "lease_step owner (Some i) (Some (i\<lparr>heartbeat_at := instant, expires_at := expiry,
      updated_at := instant, lease_version := v + 1\<rparr>))"
    using i lease_step.beat_step by auto
  with update_is_step [where db = db and s = s, OF i(1) beat_image [OF i(2) beat(3) leaseExpiry_isUtcMillis [OF beat(2)] i(5) v]]
  show ?thesis unfolding beat(1) i(3) by blast
next
  case (settle instant v)
  from assms(3,4) obtain s i where i: "lease_slot db = Some s" "decodeLeaseItem s = Inr i"
    "shown_item db = Some i" "isOwnedBy i owner" "lease_version i = v" "lease_status i \<in> set [HELD, RECOVERY_REQUIRED]"
    unfolding settle(1) by (rule owned_guardE)
  have v: "v < MAX_SAFE_INTEGER" using bound i by auto
  have "lease_step owner (Some i) (Some (i\<lparr>lease_status := RELEASED, updated_at := instant, lease_version := v + 1\<rparr>))"
    using i by (auto intro!: lease_step.settle_step)
  with update_is_step [where db = db and s = s, OF i(1) status_image [OF i(2) settle(2) i(5) v]]
  show ?thesis unfolding settle(1) i(3) by blast
next
  case (recover instant v)
  from assms(3,4) obtain s i where i: "lease_slot db = Some s" "decodeLeaseItem s = Inr i"
    "shown_item db = Some i" "isOwnedBy i owner" "lease_version i = v" "lease_status i \<in> set [HELD]"
    unfolding recover(1) by (rule owned_guardE)
  have v: "v < MAX_SAFE_INTEGER" using bound i by auto
  have "lease_step owner (Some i) (Some (i\<lparr>lease_status := RECOVERY_REQUIRED, updated_at := instant, lease_version := v + 1\<rparr>))"
    using i by (auto intro!: lease_step.settle_step)
  with update_is_step [where db = db and s = s, OF i(1) status_image [OF i(2) recover(2) i(5) v]]
  show ?thesis unfolding recover(1) i(3) by blast
qed

end
