(* ===== verification/Lease_Health.thy ===== *)
theory Lease_Health
  imports Lease_Item
begin

text \<open>
  The lease-health state machine (\<^verbatim>\<open>coordination-lease/lease-health.ts\<close>), its publication gate,
  the heartbeat delay and the final status of a lease-event history.
\<close>

datatype lease_health = CONFIRMED | UNCERTAIN | LOST_OWNERSHIP_MISMATCH | LOST_STALE

datatype lease_event =
    EV_ACQUIRED | EV_ACQUISITION_FAILED | EV_HEARTBEAT_CONFIRMED | EV_HEARTBEAT_FAILED | EV_RECOVERED
  | EV_LOST_OWNERSHIP_MISMATCH | EV_LOST_STALE | EV_RELEASED | EV_RELEASE_FAILED
  | EV_RECOVERY_REQUIRED | EV_STATE_UNVERIFIED

datatype lease_final_status = Released | RecoveryRequired | LeaseUnverified

definition LEASE_HEARTBEAT_INTERVAL_MS :: int where
  "LEASE_HEARTBEAT_INTERVAL_MS = 30000"

definition NS_PER_MS :: int where
  "NS_PER_MS = 1000000"

definition LEASE_STALE_BOUNDARY_NS :: int where
  "LEASE_STALE_BOUNDARY_NS = LEASE_STALE_BOUNDARY_MS * NS_PER_MS"

record lease_health_state =
  health :: lease_health
  known_version :: int
  last_confirmed_ns :: int
  last_confirmed_at :: utc_millis

datatype lease_observation =
    ObsConfirmed (issued_ns: int) (observed_ns: int) (obs_at: utc_millis) (obs_version: int)
  | ObsFailed (observed_ns: int) (adopted_version: "int option")
  | ObsMismatch (observed_ns: int) (obs_code: string)
  | ObsClock (observed_ns: int)

fun isLost :: "lease_health \<Rightarrow> bool" where
  "isLost LOST_OWNERSHIP_MISMATCH = True"
| "isLost LOST_STALE = True"
| "isLost _ = False"

definition nextLeaseHealth :: "lease_health_state \<Rightarrow> lease_observation \<Rightarrow> lease_health_state" where
  "nextLeaseHealth state observation =
     (if isLost (health state) then state
      else if LEASE_STALE_BOUNDARY_NS \<le> observed_ns observation - last_confirmed_ns state
      then state\<lparr>health := LOST_STALE\<rparr>
      else (case observation of
              ObsConfirmed issued _ instant version \<Rightarrow>
                \<lparr>health = CONFIRMED, known_version = version, last_confirmed_ns = issued,
                 last_confirmed_at = instant\<rparr>
            | ObsFailed _ adopted \<Rightarrow>
                state\<lparr>health := UNCERTAIN,
                      known_version := (case adopted of None \<Rightarrow> known_version state | Some v \<Rightarrow> v)\<rparr>
            | ObsMismatch _ _ \<Rightarrow> state\<lparr>health := LOST_OWNERSHIP_MISMATCH\<rparr>
            | ObsClock _ \<Rightarrow> state))"

definition isPublicationAllowed :: "lease_health_state \<Rightarrow> int \<Rightarrow> bool" where
  "isPublicationAllowed state nowNs \<longleftrightarrow>
     health state = CONFIRMED \<and> nowNs - last_confirmed_ns state < LEASE_STALE_BOUNDARY_NS"

definition heartbeatDelayMs :: "lease_health_state \<Rightarrow> int \<Rightarrow> int" where
  "heartbeatDelayMs state nowNs =
     (if health state \<noteq> UNCERTAIN then LEASE_HEARTBEAT_INTERVAL_MS
      else (let remainingNs = last_confirmed_ns state + LEASE_STALE_BOUNDARY_NS - nowNs;
                remainingMs = bigint_div (remainingNs + NS_PER_MS - 1) NS_PER_MS
            in max 0 (min LEASE_HEARTBEAT_INTERVAL_MS remainingMs)))"

fun FINAL_STATUS_OF_EVENT :: "lease_event \<Rightarrow> lease_final_status option" where
  "FINAL_STATUS_OF_EVENT EV_RELEASED = Some Released"
| "FINAL_STATUS_OF_EVENT EV_RECOVERY_REQUIRED = Some RecoveryRequired"
| "FINAL_STATUS_OF_EVENT EV_RELEASE_FAILED = Some LeaseUnverified"
| "FINAL_STATUS_OF_EVENT EV_STATE_UNVERIFIED = Some LeaseUnverified"
| "FINAL_STATUS_OF_EVENT _ = None"

definition deriveFinalLeaseStatus :: "lease_event list \<Rightarrow> lease_final_status" where
  "deriveFinalLeaseStatus events =
     (let settled = List.map_filter FINAL_STATUS_OF_EVENT events
      in if settled = [] then LeaseUnverified else last settled)"

subsection \<open>Lemmas\<close>

lemma lost_absorbing: "isLost (health s) \<Longrightarrow> foldl nextLeaseHealth s obs = s"
  by (rule foldl_absorbing) (simp add: nextLeaseHealth_def)

lemma stale_first:
  "\<not> isLost (health s) \<Longrightarrow> LEASE_STALE_BOUNDARY_NS \<le> observed_ns ob - last_confirmed_ns s \<Longrightarrow>
   health (nextLeaseHealth s ob) = LOST_STALE"
  by (simp add: nextLeaseHealth_def)

text \<open>
  The chain of confirmations of a run: the instants of the confirmed observations, each issued at
  an instant, answered within the boundary of the previous one.
\<close>

fun confirmation_chain :: "int \<Rightarrow> lease_observation list \<Rightarrow> bool" where
  "confirmation_chain since [] = True"
| "confirmation_chain since (ob # obs) \<longleftrightarrow>
     observed_ns ob - since < LEASE_STALE_BOUNDARY_NS
     \<and> (\<forall>n c. ob \<noteq> ObsMismatch n c)
     \<and> confirmation_chain (case ob of ObsConfirmed issued _ _ _ \<Rightarrow> issued | _ \<Rightarrow> since) obs"

lemma not_lost_iff_chain:
  "\<not> isLost (health s) \<Longrightarrow>
   \<not> isLost (health (foldl nextLeaseHealth s obs)) \<longleftrightarrow> confirmation_chain (last_confirmed_ns s) obs"
proof (induction obs arbitrary: s)
  case Nil
  then show ?case by simp
next
  case (Cons ob obs)
  let ?s' = "nextLeaseHealth s ob"
  show ?case
  proof (cases "isLost (health ?s')")
    case True
    then have "isLost (health (foldl nextLeaseHealth s (ob # obs)))" by (simp add: lost_absorbing)
    moreover from True Cons.prems have "\<not> confirmation_chain (last_confirmed_ns s) (ob # obs)"
      by (cases ob) (auto simp: nextLeaseHealth_def split: if_splits)
    ultimately show ?thesis by simp
  next
    case False
    then have head: "observed_ns ob - last_confirmed_ns s < LEASE_STALE_BOUNDARY_NS" "\<forall>n c. ob \<noteq> ObsMismatch n c"
      using Cons.prems by (auto simp: nextLeaseHealth_def split: if_splits)
    have "last_confirmed_ns ?s' = (case ob of ObsConfirmed issued _ _ _ \<Rightarrow> issued | _ \<Rightarrow> last_confirmed_ns s)"
      using head Cons.prems by (cases ob) (auto simp: nextLeaseHealth_def)
    with Cons.IH [OF False] head show ?thesis by simp
  qed
qed

lemma map_filter_last:
  assumes "List.map_filter f xs \<noteq> []"
  shows "\<exists>ys x zs. xs = ys @ x # zs \<and> f x = Some (last (List.map_filter f xs)) \<and> (\<forall>z\<in>set zs. f z = None)"
  using assms
proof (induction xs rule: rev_induct)
  case Nil
  then show ?case by (simp add: List.map_filter_def)
next
  case (snoc x xs)
  show ?case
  proof (cases "f x")
    case None
    then have eq: "List.map_filter f (xs @ [x]) = List.map_filter f xs" by (simp add: List.map_filter_def)
    with snoc obtain ys y zs where "xs = ys @ y # zs" "f y = Some (last (List.map_filter f xs))" "\<forall>z\<in>set zs. f z = None"
      by auto
    with None eq show ?thesis by (intro exI [of _ ys] exI [of _ y] exI [of _ "zs @ [x]"]) auto
  next
    case (Some y)
    then have "List.map_filter f (xs @ [x]) = List.map_filter f xs @ [y]" by (simp add: List.map_filter_def)
    with Some show ?thesis by (intro exI [of _ xs] exI [of _ x] exI [of _ "[]"]) auto
  qed
qed

subsection \<open>Properties\<close>

text \<open>
  C11: a lease that starts out held is still held after any sequence of observations exactly when
  no observation refuted ownership and every one arrived less than 300 s (on the monotonic clock)
  after the last confirmed write was issued. One late or refuting observation loses it for good,
  whatever confirmations follow.
\<close>

theorem lease_survives_iff:
  assumes "\<not> isLost (health s)"
  shows "isLost (health (foldl nextLeaseHealth s obs)) \<longleftrightarrow> \<not> confirmation_chain (last_confirmed_ns s) obs"
  using not_lost_iff_chain [OF assms] by blast

theorem lease_survives_iff_witness:
  "isLost (health (foldl nextLeaseHealth
       \<lparr>health = CONFIRMED, known_version = 1, last_confirmed_ns = 0, last_confirmed_at = ''''\<rparr>
       [ObsFailed 30000000000 None, ObsConfirmed 300000000000 300000000000 '''' 2]))"
  using lease_survives_iff
    [of "\<lparr>health = CONFIRMED, known_version = 1, last_confirmed_ns = 0, last_confirmed_at = ''''\<rparr>"
      "[ObsFailed 30000000000 None, ObsConfirmed 300000000000 300000000000 '''' 2]"]
  by (simp add: LEASE_STALE_BOUNDARY_NS_def LEASE_STALE_BOUNDARY_MS_def NS_PER_MS_def)

text \<open>
  C12: the delay before the next heartbeat is between 0 and 30 s, and while ownership is uncertain
  it never carries the next beat more than one millisecond past the stale boundary: staleness is
  established at the boundary, not up to an interval after it.
\<close>

theorem heartbeatDelayMs_bounds:
  "0 \<le> heartbeatDelayMs s now \<and> heartbeatDelayMs s now \<le> LEASE_HEARTBEAT_INTERVAL_MS
   \<and> (if health s = UNCERTAIN
      then now + heartbeatDelayMs s now * NS_PER_MS
           < max now (last_confirmed_ns s + LEASE_STALE_BOUNDARY_NS) + NS_PER_MS
      else heartbeatDelayMs s now = LEASE_HEARTBEAT_INTERVAL_MS)"
proof (cases "health s = UNCERTAIN")
  case False
  then show ?thesis by (simp add: heartbeatDelayMs_def LEASE_HEARTBEAT_INTERVAL_MS_def)
next
  case True
  define r where "r = last_confirmed_ns s + LEASE_STALE_BOUNDARY_NS - now"
  define d where "d = bigint_div (r + NS_PER_MS - 1) NS_PER_MS"
  have delay: "heartbeatDelayMs s now = max 0 (min LEASE_HEARTBEAT_INTERVAL_MS d)"
    using True by (simp add: heartbeatDelayMs_def r_def d_def Let_def)
  have ns: "NS_PER_MS = 1000000" by (simp add: NS_PER_MS_def)
  have small: "max 0 d * NS_PER_MS < max 0 r + NS_PER_MS"
  proof (cases "0 \<le> r + NS_PER_MS - 1")
    case nonneg: True
    then have d: "d = (r + NS_PER_MS - 1) div NS_PER_MS" by (simp add: d_def bigint_div_nonneg ns)
    then have "d * NS_PER_MS \<le> r + NS_PER_MS - 1" by (simp add: ns div_times_less_eq_dividend)
    moreover have "0 \<le> d" using nonneg by (simp add: d ns)
    ultimately show ?thesis by (simp add: ns)
  next
    case False
    then have "d \<le> 0" by (simp add: d_def bigint_div_def ns sgn_if)
    then show ?thesis by (simp add: ns)
  qed
  have "max 0 (min LEASE_HEARTBEAT_INTERVAL_MS d) \<le> max 0 d" by simp
  then have "max 0 (min LEASE_HEARTBEAT_INTERVAL_MS d) * NS_PER_MS \<le> max 0 d * NS_PER_MS"
    by (simp add: ns mult_right_mono)
  with small have "max 0 (min LEASE_HEARTBEAT_INTERVAL_MS d) * NS_PER_MS < max 0 r + NS_PER_MS"
    by linarith
  moreover have "now + max 0 r = max now (last_confirmed_ns s + LEASE_STALE_BOUNDARY_NS)"
    by (simp add: r_def)
  ultimately have "now + heartbeatDelayMs s now * NS_PER_MS
      < max now (last_confirmed_ns s + LEASE_STALE_BOUNDARY_NS) + NS_PER_MS"
    unfolding delay by linarith
  then show ?thesis using True by (simp add: delay LEASE_HEARTBEAT_INTERVAL_MS_def)
qed

end
