(* ===== verification/Lease_Session.thy ===== *)
theory Lease_Session
  imports Lease_Store Lease_Health
begin

text \<open>
  One owner's lease for one execution: what an acquisition, a heartbeat and a finalization write
  established (\<^verbatim>\<open>lease-acquisition.ts\<close>, \<^verbatim>\<open>heartbeat-judgement.ts\<close>, \<^verbatim>\<open>lease-finalization.ts\<close>), the
  session that runs them (\<^verbatim>\<open>lease-session.ts\<close>), the body of its journal events
  (\<^verbatim>\<open>lease-event-body.ts\<close>) and the heartbeat loop (\<^verbatim>\<open>lease-heartbeat-loop.ts\<close>).
  The free-text details of verdicts and events are left out, as in structured reasons.
\<close>

subsection \<open>Acquisition\<close>

datatype acquisition_resolution =
    Acquired
  | Refused "lease_item option" structured_reason
  | Unresolved "lease_item option" structured_reason

definition acquisitionLanded :: "lease_item \<Rightarrow> lease_owner \<Rightarrow> utc_millis \<Rightarrow> bool" where
  "acquisitionLanded item owner instant \<longleftrightarrow>
     isOwnedBy item owner \<and> lease_status item = HELD \<and> lease_version item = 1 \<and> acquired_at item = instant"

definition conflict :: "lease_item \<Rightarrow> acquisition_resolution" where
  "conflict holder = Refused (Some holder) (leaseReason ''LEASE_CONFLICT'')"

definition refusedByExisting :: "stored_item option \<Rightarrow> acquisition_resolution" where
  "refusedByExisting existing =
     (case existing of
        None \<Rightarrow> Refused None (leaseReason ''LEASE_CONFLICT'')
      | Some s \<Rightarrow>
          (case decodeLeaseItem s of
             Inl reason \<Rightarrow> Refused None (leaseReason (reason_code reason))
           | Inr i \<Rightarrow> conflict i))"

definition resolveAmbiguousAcquisition ::
  "'w lease_store_port \<Rightarrow> lease_owner \<Rightarrow> utc_millis \<Rightarrow> ('w, acquisition_resolution) io" where
  "resolveAmbiguousAcquisition store owner instant =
     io_bind (lease_read store) (\<lambda>read.
     io_return
       (case read of
          Inl _ \<Rightarrow> Unresolved None (leaseReason ''LEASE_WRITE_AMBIGUOUS'')
        | Inr None \<Rightarrow> Refused None (leaseReason ''LEASE_WRITE_AMBIGUOUS'')
        | Inr (Some item) \<Rightarrow> if acquisitionLanded item owner instant then Acquired else conflict item))"

fun resolveAcquisition ::
  "'w lease_store_port \<Rightarrow> lease_owner \<Rightarrow> utc_millis \<Rightarrow> write_outcome \<Rightarrow> ('w, acquisition_resolution) io" where
  "resolveAcquisition store owner instant Applied = io_return Acquired"
| "resolveAcquisition store owner instant (DefinitiveFailure _) =
     io_return (Refused None (leaseReason ''LEASE_WRITE_REJECTED''))"
| "resolveAcquisition store owner instant (ConditionFailed _ existing) = io_return (refusedByExisting existing)"
| "resolveAcquisition store owner instant (Ambiguous _) = resolveAmbiguousAcquisition store owner instant"

subsection \<open>Heartbeat judgement\<close>

record heartbeat_attempt =
  att_owner :: lease_owner
  att_version :: int
  att_issued_ns :: int
  att_at :: utc_millis

record heartbeat_judgement =
  judged_observation :: lease_observation
  judged_observed :: "lease_item option"

record 'w judgement_deps =
  jd_store :: "'w lease_store_port"
  jd_now_ns :: "('w, int) io"

definition judged :: "'w judgement_deps \<Rightarrow> (int \<Rightarrow> lease_observation) \<Rightarrow> lease_item option \<Rightarrow> ('w, heartbeat_judgement) io" where
  "judged deps mk observed =
     io_bind (jd_now_ns deps) (\<lambda>now. io_return \<lparr>judged_observation = mk now, judged_observed = observed\<rparr>)"

definition confirmed :: "heartbeat_attempt \<Rightarrow> 'w judgement_deps \<Rightarrow> ('w, heartbeat_judgement) io" where
  "confirmed attempt deps =
     judged deps (\<lambda>now. ObsConfirmed (att_issued_ns attempt) now (att_at attempt) (att_version attempt + 1)) None"

definition failed :: "'w judgement_deps \<Rightarrow> ('w, heartbeat_judgement) io" where
  "failed deps = judged deps (\<lambda>now. ObsFailed now None) None"

definition mismatch :: "'w judgement_deps \<Rightarrow> string \<Rightarrow> lease_item option \<Rightarrow> ('w, heartbeat_judgement) io" where
  "mismatch deps code observed = judged deps (\<lambda>now. ObsMismatch now code) observed"

definition heartbeatLanded :: "lease_item \<Rightarrow> heartbeat_attempt \<Rightarrow> bool" where
  "heartbeatLanded item attempt \<longleftrightarrow>
     isOwnedBy item (att_owner attempt) \<and> lease_status item = HELD
     \<and> lease_version item = att_version attempt + 1 \<and> heartbeat_at item = att_at attempt"

definition judgeItem :: "lease_item \<Rightarrow> heartbeat_attempt \<Rightarrow> 'w judgement_deps \<Rightarrow> ('w, heartbeat_judgement) io" where
  "judgeItem item attempt deps =
     (if isOwnedBy item (att_owner attempt) \<and> lease_status item = HELD
      then judged deps (\<lambda>now. ObsFailed now (Some (lease_version item))) (Some item)
      else mismatch deps ''LEASE_OWNERSHIP_MISMATCH'' (Some item))"

definition judgeRead :: "lease_read \<Rightarrow> heartbeat_attempt \<Rightarrow> 'w judgement_deps \<Rightarrow> ('w, heartbeat_judgement) io" where
  "judgeRead read attempt deps =
     (case read of
        Inl code \<Rightarrow>
          if code = ''LEASE_ITEM_UNDECODABLE'' then mismatch deps code None else failed deps
      | Inr None \<Rightarrow> mismatch deps ''LEASE_ITEM_ABSENT'' None
      | Inr (Some item) \<Rightarrow> judgeItem item attempt deps)"

definition judgeAmbiguous :: "heartbeat_attempt \<Rightarrow> 'w judgement_deps \<Rightarrow> ('w, heartbeat_judgement) io" where
  "judgeAmbiguous attempt deps =
     io_bind (lease_read (jd_store deps)) (\<lambda>read.
       if (case read of Inr (Some item) \<Rightarrow> heartbeatLanded item attempt | _ \<Rightarrow> False)
       then confirmed attempt deps
       else judgeRead read attempt deps)"

definition judgeConditionFailure ::
  "stored_item option \<Rightarrow> heartbeat_attempt \<Rightarrow> 'w judgement_deps \<Rightarrow> ('w, heartbeat_judgement) io" where
  "judgeConditionFailure existing attempt deps =
     (case existing of
        None \<Rightarrow> io_bind (lease_read (jd_store deps)) (\<lambda>read. judgeRead read attempt deps)
      | Some s \<Rightarrow>
          (case decodeLeaseItem s of
             Inl _ \<Rightarrow> mismatch deps ''LEASE_ITEM_UNDECODABLE'' None
           | Inr i \<Rightarrow> judgeItem i attempt deps))"

fun judgeHeartbeat ::
  "write_outcome \<Rightarrow> heartbeat_attempt \<Rightarrow> 'w judgement_deps \<Rightarrow> ('w, heartbeat_judgement) io" where
  "judgeHeartbeat Applied attempt deps = confirmed attempt deps"
| "judgeHeartbeat (DefinitiveFailure _) attempt deps = failed deps"
| "judgeHeartbeat (Ambiguous _) attempt deps = judgeAmbiguous attempt deps"
| "judgeHeartbeat (ConditionFailed _ existing) attempt deps = judgeConditionFailure existing attempt deps"

subsection \<open>Finalization\<close>

datatype lease_closure = Clean | Unclean

record 'w finalization_request =
  fr_store :: "'w lease_store_port"
  fr_owner :: lease_owner
  fr_closure :: lease_closure
  fr_known_version :: int
  fr_held :: bool
  fr_now :: "('w, utc_millis) io"

record finalization_verdict =
  fv_event :: lease_event
  fv_version :: "int option"
  fv_observed :: "lease_item option"

abbreviation verdict :: "lease_event \<Rightarrow> int option \<Rightarrow> lease_item option \<Rightarrow> finalization_verdict" where
  "verdict e v i \<equiv> \<lparr>fv_event = e, fv_version = v, fv_observed = i\<rparr>"

definition target_status :: "lease_closure \<Rightarrow> lease_item_status" where
  "target_status closure = (case closure of Clean \<Rightarrow> RELEASED | Unclean \<Rightarrow> RECOVERY_REQUIRED)"

definition target_event :: "lease_closure \<Rightarrow> lease_event" where
  "target_event closure = (case closure of Clean \<Rightarrow> EV_RELEASED | Unclean \<Rightarrow> EV_RECOVERY_REQUIRED)"

definition notOwned :: "'w finalization_request \<Rightarrow> lease_item option \<Rightarrow> finalization_verdict" where
  "notOwned request item =
     (if \<not> fr_held request then verdict EV_RELEASED None item else verdict EV_STATE_UNVERIFIED None item)"

definition observedOf :: "write_outcome \<Rightarrow> lease_item option" where
  "observedOf outcome =
     (case outcome of
        ConditionFailed _ (Some s) \<Rightarrow> (case decodeLeaseItem s of Inr i \<Rightarrow> Some i | Inl _ \<Rightarrow> None)
      | _ \<Rightarrow> None)"

definition writeFailure :: "lease_closure \<Rightarrow> lease_event" where
  "writeFailure closure = (case closure of Clean \<Rightarrow> EV_RELEASE_FAILED | Unclean \<Rightarrow> EV_STATE_UNVERIFIED)"

definition resolveAmbiguousFinal :: "'w finalization_request \<Rightarrow> ('w, finalization_verdict) io" where
  "resolveAmbiguousFinal request =
     io_bind (lease_read (fr_store request)) (\<lambda>read.
     io_return
       (case read of
          Inl _ \<Rightarrow> verdict EV_STATE_UNVERIFIED None None
        | Inr None \<Rightarrow> verdict EV_STATE_UNVERIFIED None None
        | Inr (Some item) \<Rightarrow>
            if isOwnedBy item (fr_owner request) \<and> lease_status item = target_status (fr_closure request)
            then verdict (target_event (fr_closure request)) (Some (lease_version item)) (Some item)
            else verdict EV_STATE_UNVERIFIED None (Some item)))"

definition final_write :: "'w finalization_request \<Rightarrow> int \<Rightarrow> utc_millis \<Rightarrow> ('w, write_outcome) io" where
  "final_write request version instant =
     (case fr_closure request of
        Clean \<Rightarrow> lease_release (fr_store request) (fr_owner request) version instant
      | Unclean \<Rightarrow> lease_mark_recovery (fr_store request) (fr_owner request) version instant)"

definition writeFinal :: "'w finalization_request \<Rightarrow> int \<Rightarrow> ('w, finalization_verdict) io" where
  "writeFinal request version =
     io_bind (fr_now request) (\<lambda>instant.
     io_bind (final_write request version instant) (\<lambda>outcome.
       case outcome of
         Applied \<Rightarrow> io_return (verdict (target_event (fr_closure request)) (Some (version + 1)) None)
       | Ambiguous _ \<Rightarrow> resolveAmbiguousFinal request
       | _ \<Rightarrow> io_return (verdict (writeFailure (fr_closure request)) None (observedOf outcome))))"

definition finalizeLease :: "'w finalization_request \<Rightarrow> ('w, finalization_verdict) io" where
  "finalizeLease request =
     io_bind (lease_read (fr_store request)) (\<lambda>read.
       case read of
         Inl _ \<Rightarrow> writeFinal request (fr_known_version request)
       | Inr None \<Rightarrow> io_return (notOwned request None)
       | Inr (Some item) \<Rightarrow>
           if \<not> isOwnedBy item (fr_owner request) then io_return (notOwned request (Some item))
           else if lease_status item = RELEASED
           then io_return (verdict EV_RELEASED (Some (lease_version item)) (Some item))
           else if lease_status item = RECOVERY_REQUIRED \<and> fr_closure request = Unclean
           then io_return (verdict EV_RECOVERY_REQUIRED (Some (lease_version item)) (Some item))
           else writeFinal request (lease_version item))"

subsection \<open>Journal events\<close>

record lease_event_facts =
  fact_event :: lease_event
  fact_owner :: lease_owner
  fact_state :: "lease_health_state option"
  fact_observed :: "lease_item option"

record lease_event_body =
  body_event :: lease_event
  body_owner :: lease_owner
  body_state :: "(int \<times> lease_health \<times> utc_millis) option"
  body_holder :: "(execution_kind \<times> uuid4) option"

definition leaseEventBody :: "lease_event_facts \<Rightarrow> lease_event_body" where
  "leaseEventBody facts =
     \<lparr>body_event = fact_event facts, body_owner = fact_owner facts,
      body_state = map_option (\<lambda>s. (known_version s, health s, last_confirmed_at s)) (fact_state facts),
      body_holder =
        (case fact_observed facts of
           Some i \<Rightarrow> if isOwnedBy i (fact_owner facts) then None else Some (owner_kind i, owner_id i)
         | None \<Rightarrow> None)\<rparr>"

subsection \<open>The session\<close>

datatype lease_acquisition = SessionAcquired | SessionNotAcquired "lease_item option" structured_reason

record lease_loss =
  loss_health :: lease_health
  loss_reason :: structured_reason

datatype session_phase =
    Idle
  | RefusedPhase lease_owner
  | UnresolvedPhase lease_owner
  | Held lease_owner lease_health_state
  | Finalized lease_final_status

text \<open>
  The private members of \<^verbatim>\<open>LeaseSession\<close>; \<open>ses_journal\<close> are the bodies handed to the journal
  writer, whose failures the session ignores. Operations are serialized, so one at a time runs.
\<close>

record lease_session =
  ses_phase :: session_phase
  ses_loss :: "lease_loss option"
  ses_events :: "lease_event list"
  ses_journal :: "lease_event_body list"

definition new_session :: lease_session where
  "new_session = \<lparr>ses_phase = Idle, ses_loss = None, ses_events = [], ses_journal = []\<rparr>"

record 'w lease_session_deps =
  dep_store :: "'w lease_store_port"
  dep_now_ns :: "('w, int) io"
  dep_wall :: "('w, int) io"

definition session_store :: "'w lease_session_deps \<Rightarrow> 'w lease_store_port" where
  "session_store deps = guardLeaseStore (dep_store deps)"

definition session_now :: "'w lease_session_deps \<Rightarrow> ('w, utc_millis) io" where
  "session_now deps = io_bind (dep_wall deps) (\<lambda>ms. io_of (formatUtcMillis ms))"

definition record_event :: "lease_event_facts \<Rightarrow> lease_session \<Rightarrow> lease_session" where
  "record_event facts ses =
     ses\<lparr>ses_events := ses_events ses @ [fact_event facts],
         ses_journal := ses_journal ses @ [leaseEventBody facts]\<rparr>"

abbreviation facts :: "lease_event \<Rightarrow> lease_owner \<Rightarrow> lease_health_state option \<Rightarrow> lease_item option \<Rightarrow> lease_event_facts" where
  "facts e ow st ob \<equiv> \<lparr>fact_event = e, fact_owner = ow, fact_state = st, fact_observed = ob\<rparr>"

text \<open>
  An operation takes the session and answers its result with the session after it; when it
  throws, the session is unchanged: every assignment of the source follows its last throwing call.
\<close>

definition settle_acquisition ::
  "lease_session \<Rightarrow> lease_owner \<Rightarrow> int \<Rightarrow> utc_millis \<Rightarrow> acquisition_resolution \<Rightarrow> lease_acquisition \<times> lease_session" where
  "settle_acquisition ses owner issued instant resolution =
     (case resolution of
        Acquired \<Rightarrow>
          (let state = \<lparr>health = CONFIRMED, known_version = 1, last_confirmed_ns = issued, last_confirmed_at = instant\<rparr>
           in (SessionAcquired,
               record_event (facts EV_ACQUIRED owner (Some state) None) (ses\<lparr>ses_phase := Held owner state\<rparr>)))
      | Refused holder reason \<Rightarrow>
          (SessionNotAcquired holder reason,
           record_event (facts EV_ACQUISITION_FAILED owner None holder) (ses\<lparr>ses_phase := RefusedPhase owner\<rparr>))
      | Unresolved holder reason \<Rightarrow>
          (SessionNotAcquired holder reason,
           record_event (facts EV_ACQUISITION_FAILED owner None holder) (ses\<lparr>ses_phase := UnresolvedPhase owner\<rparr>)))"

definition session_acquire ::
  "'w lease_session_deps \<Rightarrow> lease_owner \<Rightarrow> lease_session \<Rightarrow> ('w, lease_acquisition \<times> lease_session) io" where
  "session_acquire deps owner ses =
     (if ses_phase ses \<noteq> Idle then io_throw ErrorThrown
      else
        io_bind (dep_now_ns deps) (\<lambda>issued.
        io_bind (session_now deps) (\<lambda>instant.
        io_bind (lease_acquire (session_store deps) owner instant) (\<lambda>outcome.
        io_bind (resolveAcquisition (session_store deps) owner instant outcome) (\<lambda>resolution.
        io_return (settle_acquisition ses owner issued instant resolution))))))"

definition lossReasonOf :: "lease_health_state \<Rightarrow> lease_health_state \<Rightarrow> heartbeat_judgement \<Rightarrow> structured_reason option" where
  "lossReasonOf previous next j =
     (if health next = LOST_STALE then Some (leaseReason ''LEASE_STALE'')
      else (case judged_observation j of ObsMismatch _ code \<Rightarrow> Some (leaseReason code) | _ \<Rightarrow> None))"

fun beatEvent :: "lease_health \<Rightarrow> lease_health \<Rightarrow> lease_event" where
  "beatEvent previous CONFIRMED = (if previous = UNCERTAIN then EV_RECOVERED else EV_HEARTBEAT_CONFIRMED)"
| "beatEvent previous UNCERTAIN = EV_HEARTBEAT_FAILED"
| "beatEvent previous LOST_OWNERSHIP_MISMATCH = EV_LOST_OWNERSHIP_MISMATCH"
| "beatEvent previous LOST_STALE = EV_LOST_STALE"

definition settleBeat ::
  "lease_session \<Rightarrow> lease_owner \<Rightarrow> lease_health_state \<Rightarrow> lease_health_state \<Rightarrow> structured_reason option
   \<Rightarrow> lease_item option \<Rightarrow> lease_health \<times> lease_session" where
  "settleBeat ses owner previous next lossReason observed =
     (health next,
      record_event (facts (beatEvent (health previous) (health next)) owner (Some next) observed)
        (ses\<lparr>ses_phase := Held owner next,
             ses_loss := (case lossReason of
                            None \<Rightarrow> ses_loss ses
                          | Some reason \<Rightarrow> Some \<lparr>loss_health = health next, loss_reason = reason\<rparr>)\<rparr>))"

definition beat_write ::
  "'w lease_session_deps \<Rightarrow> lease_session \<Rightarrow> lease_owner \<Rightarrow> lease_health_state \<Rightarrow> int
   \<Rightarrow> ('w, lease_health \<times> lease_session) io" where
  "beat_write deps ses owner state issued =
     io_bind (session_now deps) (\<lambda>instant.
     io_bind (lease_heartbeat (session_store deps) owner (known_version state) instant) (\<lambda>outcome.
     io_bind (judgeHeartbeat outcome
                \<lparr>att_owner = owner, att_version = known_version state, att_issued_ns = issued, att_at = instant\<rparr>
                \<lparr>jd_store = session_store deps, jd_now_ns = dep_now_ns deps\<rparr>) (\<lambda>j.
     let next = nextLeaseHealth state (judged_observation j)
     in io_return (settleBeat ses owner state next (lossReasonOf state next j) (judged_observed j)))))"

definition session_heartbeatOnce ::
  "'w lease_session_deps \<Rightarrow> lease_session \<Rightarrow> ('w, lease_health \<times> lease_session) io" where
  "session_heartbeatOnce deps ses =
     (case ses_phase ses of
        Held owner state \<Rightarrow>
          if isLost (health state) then io_return (health state, ses)
          else
            io_bind (dep_now_ns deps) (\<lambda>issued.
              let beforeWrite = nextLeaseHealth state (ObsClock issued)
              in if health beforeWrite = LOST_STALE
                 then io_return (settleBeat ses owner state beforeWrite (Some (leaseReason ''LEASE_STALE'')) None)
                 else beat_write deps ses owner state issued)
      | _ \<Rightarrow> io_throw ErrorThrown)"

definition session_publicationAllowed :: "'w lease_session_deps \<Rightarrow> lease_session \<Rightarrow> ('w, bool) io" where
  "session_publicationAllowed deps ses =
     (case ses_phase ses of
        Held owner state \<Rightarrow> io_bind (dep_now_ns deps) (\<lambda>now. io_return (isPublicationAllowed state now))
      | _ \<Rightarrow> io_return False)"

definition session_nextHeartbeatDelayMs :: "'w lease_session_deps \<Rightarrow> lease_session \<Rightarrow> ('w, int) io" where
  "session_nextHeartbeatDelayMs deps ses =
     (case ses_phase ses of
        Held owner state \<Rightarrow> io_bind (dep_now_ns deps) (\<lambda>now. io_return (heartbeatDelayMs state now))
      | _ \<Rightarrow> io_return 0)"

definition settleFinal :: "lease_session \<Rightarrow> lease_final_status \<times> lease_session" where
  "settleFinal ses =
     (let status = deriveFinalLeaseStatus (ses_events ses) in (status, ses\<lparr>ses_phase := Finalized status\<rparr>))"

definition finalizeOwned ::
  "'w lease_session_deps \<Rightarrow> lease_session \<Rightarrow> lease_owner \<Rightarrow> lease_health_state option \<Rightarrow> lease_closure
   \<Rightarrow> ('w, lease_session) io" where
  "finalizeOwned deps ses owner state closure =
     io_bind (finalizeLease
                \<lparr>fr_store = session_store deps, fr_owner = owner, fr_closure = closure,
                 fr_known_version = (case state of None \<Rightarrow> 1 | Some s \<Rightarrow> known_version s),
                 fr_held = (state \<noteq> None), fr_now = session_now deps\<rparr>) (\<lambda>v.
     let after = map_option
                   (\<lambda>s. s\<lparr>known_version := (case fv_version v of None \<Rightarrow> known_version s | Some n \<Rightarrow> n)\<rparr>) state
     in io_return (record_event (facts (fv_event v) owner after (fv_observed v)) ses))"

definition session_finalize ::
  "'w lease_session_deps \<Rightarrow> lease_closure \<Rightarrow> lease_session \<Rightarrow> ('w, lease_final_status \<times> lease_session) io" where
  "session_finalize deps closure ses =
     (case ses_phase ses of
        Finalized status \<Rightarrow> io_return (status, ses)
      | Idle \<Rightarrow> io_throw ErrorThrown
      | RefusedPhase owner \<Rightarrow> io_return (settleFinal (record_event (facts EV_RELEASED owner None None) ses))
      | UnresolvedPhase owner \<Rightarrow>
          io_bind (finalizeOwned deps ses owner None closure) (\<lambda>ses'. io_return (settleFinal ses'))
      | Held owner state \<Rightarrow>
          io_bind (finalizeOwned deps ses owner (Some state) closure) (\<lambda>ses'. io_return (settleFinal ses')))"

end
