(* ===== verification/Lease_Safety.thy ===== *)
theory Lease_Safety
  imports Lease_Session
begin

text \<open>
  Safety of the lease among several owners. The session reaches the coordination table only
  through its store port, and between any two of its calls the other owners may write. The
  locale \<^verbatim>\<open>lease_environment\<close> carries what a store call means with such interference over to the
  guarded lease store, the locale \<^verbatim>\<open>fenced_lease\<close> adds that the others cannot move an item this owner holds; the session
  lemmas are proved in the locales and interpreted on a scripted world in which the others issue
  any sequence of the durable lease store's own writes and every call may fail in any way the
  port documents.
\<close>

subsection \<open>The environment of a session\<close>

locale lease_environment = store_environment store view sane rely
  for store :: "'w durable_item_store" and view :: "'w \<Rightarrow> tables" and sane :: "'w \<Rightarrow> bool"
    and rely :: "tables \<Rightarrow> tables \<Rightarrow> bool"
begin

abbreviation guarded :: "'w lease_store_port" where
  "guarded \<equiv> guardLeaseStore (createDurableLeaseStore store)"

text \<open>A guarded single write: applied with its effect, or unchanged, or either when ambiguous.\<close>

lemma guarded_write:
  assumes "sane w" and "run_state (guardedWrite (item_write store a)) w = (r, w')"
  shows "sane w' \<and> (\<exists>db outcome. rely (view w) db \<and> r = Inr outcome \<and>
     (case outcome of
        Applied \<Rightarrow> action_guard a db \<and> view w' = action_effect a db
      | ConditionFailed n e \<Rightarrow> view w' = db \<and> e = db (action_table a) (action_key a) \<and> \<not> action_guard a db
      | DefinitiveFailure c \<Rightarrow> view w' = db
      | Ambiguous c \<Rightarrow> view w' = db \<or> (action_guard a db \<and> view w' = action_effect a db)))"
proof -
  obtain r0 where run: "run_state (item_write store a) w = (r0, w')"
    and r: "r = (case r0 of Inl e \<Rightarrow> Inr (Ambiguous (LEASE_STORE_THREW @ '':'' @ thrownName e)) | Inr x \<Rightarrow> Inr x)"
    using assms(2) by (auto simp: guardedWrite_def split: prod.splits sum.splits)
  from write_law [OF assms(1) run] obtain db where sane: "sane w'" and db: "rely (view w) db"
    and law: "case r0 of Inr outcome \<Rightarrow> (\<exists>f. store_write f a db = (outcome, view w'))
          | Inl _ \<Rightarrow> view w' = db \<or> (action_guard a db \<and> view w' = action_effect a db)" by blast
  show ?thesis
  proof (cases r0)
    case (Inl e)
    with sane db law r show ?thesis by auto
  next
    case (Inr outcome)
    with law obtain f where f: "store_write f a db = (outcome, view w')" by auto
    have "case outcome of
        Applied \<Rightarrow> action_guard a db \<and> view w' = action_effect a db
      | ConditionFailed n e \<Rightarrow> view w' = db \<and> e = db (action_table a) (action_key a) \<and> \<not> action_guard a db
      | DefinitiveFailure c \<Rightarrow> view w' = db
      | Ambiguous c \<Rightarrow> view w' = db \<or> (action_guard a db \<and> view w' = action_effect a db)"
      using f by (auto simp: store_write_cases execute_single
          split: write_outcome.splits option.splits scripted_fault.splits if_splits sum.splits)
    with sane db Inr r show ?thesis by auto
  qed
qed

lemma guarded_read:
  assumes "sane w" and "run_state (lease_read guarded) w = (r, w')"
  shows "sane w' \<and> rely (view w) (view w')
    \<and> (\<forall>i. r = Inr (Inr (Some i)) \<longrightarrow> shown_item (view w') = Some i)
    \<and> (r = Inr (Inr None) \<longrightarrow> lease_slot (view w') = None)
    \<and> (r = Inr (Inl ''LEASE_ITEM_UNDECODABLE'') \<longrightarrow> shown_item (view w') = None)"
proof -
  obtain r0 where run: "run_state (item_get store CoordinationTable LEASE_ITEM_KEY) w = (r0, w')"
    and r: "r = (case r0 of Inl e \<Rightarrow> Inr (Inl ''LEASE_READ_FAILED'')
       | Inr x \<Rightarrow> Inr (case x of Inl code \<Rightarrow> Inl ''LEASE_READ_FAILED'' | Inr None \<Rightarrow> Inr None
          | Inr (Some stored) \<Rightarrow> (case decodeLeaseItem stored of
               Inl reason \<Rightarrow> Inl (reason_code reason) | Inr i \<Rightarrow> Inr (Some i))))"
    using assms(2)
    by (auto simp: guardLeaseStore_def createDurableLeaseStore_def guardedRead_def readLease_def
        split: prod.splits sum.splits)
  from read_law [OF assms(1) run] show ?thesis
    by (auto simp: r shown_item_def split: sum.splits option.splits)
qed

end

subsection \<open>Fencing\<close>

locale fenced_lease = lease_environment store view sane rely
  for store :: "'w durable_item_store" and view :: "'w \<Rightarrow> tables" and sane :: "'w \<Rightarrow> bool"
    and rely :: "tables \<Rightarrow> tables \<Rightarrow> bool" +
  fixes me :: lease_owner
  assumes fenced:
    "rely db db' \<Longrightarrow> shown_item db = Some i \<Longrightarrow> isOwnedBy i me \<Longrightarrow> lease_status i = HELD \<Longrightarrow>
     lease_slot db' = lease_slot db"
begin

text \<open>The table shows this owner, held, at a version of at most \<open>n\<close>.\<close>

definition holds :: "int \<Rightarrow> 'w \<Rightarrow> lease_item \<Rightarrow> bool" where
  "holds n w i \<longleftrightarrow> shown_item (view w) = Some i \<and> isOwnedBy i me \<and> lease_status i = HELD \<and> lease_version i \<le> n"

lemma shown_fenced: "rely (view w) db \<Longrightarrow> holds n w i \<Longrightarrow> shown_item db = Some i"
  using fenced [of "view w" db i] by (auto simp: holds_def shown_item_def)

lemma holds_read:
  assumes "sane w" and "holds n w i" and "run_state (lease_read guarded) w = (r, w')"
  shows "sane w' \<and> holds n w' i \<and> (\<exists>v. r = Inr v \<and> (v = Inr (Some i) \<or> (\<exists>c. v = Inl c \<and> c \<noteq> ''LEASE_ITEM_UNDECODABLE'')))"
proof -
  note g = guarded_read [OF assms(1,3)]
  then have shown: "shown_item (view w') = Some i" using assms(2) shown_fenced by blast
  have "never_throws (lease_read guarded)" by (simp add: guardLeaseStore_def)
  then obtain v where "r = Inr v" using assms(3) by (cases r) (auto dest: never_throwsD)
  moreover have "lease_slot (view w') \<noteq> None" using shown by (auto simp: shown_item_Some)
  ultimately show ?thesis
    using g shown assms(2) by (cases v) (auto simp: holds_def split: option.splits)
qed

lemma holds_mono: "holds n w i \<Longrightarrow> n \<le> m \<Longrightarrow> holds m w i"
  by (simp add: holds_def)

lemma guarded_heartbeat:
  "run_state (lease_heartbeat guarded ow v instant) w =
     (case leaseExpiry instant of
        Inl e \<Rightarrow> (Inr (Ambiguous (LEASE_STORE_THREW @ '':'' @ thrownName e)), w)
      | Inr expiry \<Rightarrow>
          run_state (guardedWrite (item_write store (owned_update ow v [HELD] (heartbeat_sets instant expiry)))) w)"
  by (simp add: guardLeaseStore_def createDurableLeaseStore_def guardedWrite_def updateOwnedLease_def
      split: sum.splits)

text \<open>A heartbeat of the holder keeps it the holder, and an applied one raises the version by one.\<close>

lemma holds_heartbeat:
  assumes "sane w" and "holds n w i" and "n < MAX_SAFE_INTEGER" and "isUtcMillis instant"
    and "run_state (lease_heartbeat guarded me v instant) w = (r, w')"
  shows "sane w' \<and> (\<exists>i' outcome. r = Inr outcome \<and> holds (n + 1) w' i'
    \<and> (outcome = Applied \<longrightarrow> lease_version i' = v + 1)
    \<and> (\<forall>k e. outcome = ConditionFailed k e \<longrightarrow> (\<exists>s. e = Some s \<and> decodeLeaseItem s = Inr i')))"
proof (cases "leaseExpiry instant")
  case (Inl e)
  with assms holds_mono [of n w i "n + 1"] show ?thesis by (auto simp: guarded_heartbeat)
next
  case (Inr expiry)
  let ?a = "owned_update me v [HELD] (heartbeat_sets instant expiry)"
  let ?i' = "i\<lparr>heartbeat_at := instant, expires_at := expiry, updated_at := instant, lease_version := lease_version i + 1\<rparr>"
  have run: "run_state (guardedWrite (item_write store ?a)) w = (r, w')"
    using assms(5) Inr by (simp add: guarded_heartbeat)
  from guarded_write [OF assms(1) run] obtain db outcome where sane: "sane w'" and db: "rely (view w) db"
    and r: "r = Inr outcome"
    and law: "case outcome of
        Applied \<Rightarrow> action_guard ?a db \<and> view w' = action_effect ?a db
      | ConditionFailed n e \<Rightarrow> view w' = db \<and> e = db (action_table ?a) (action_key ?a) \<and> \<not> action_guard ?a db
      | DefinitiveFailure c \<Rightarrow> view w' = db
      | Ambiguous c \<Rightarrow> view w' = db \<or> (action_guard ?a db \<and> view w' = action_effect ?a db)" by blast
  have shown: "shown_item db = Some i" using shown_fenced [OF db assms(2)] .
  then obtain s where s: "lease_slot db = Some s" "decodeLeaseItem s = Inr i" by (auto simp: shown_item_Some)
  have kept: "holds (n + 1) w' i" if "view w' = db" using that shown assms(2) by (simp add: holds_def)
  have moved: "holds (n + 1) w' ?i' \<and> lease_version i = v" if g: "action_guard ?a db" and e: "view w' = action_effect ?a db"
  proof -
    have v: "lease_version i = v" using g s by (simp add: ownedAt_holds [OF s(2)])
    have "v < MAX_SAFE_INTEGER" using assms(2,3) v by (auto simp: holds_def)
    from beat_image [OF s(2) assms(4) leaseExpiry_isUtcMillis [OF Inr] v this]
    obtain s' where s': "nextImage ?a (Some s) = Inr (Some s')" "decodeLeaseItem s' = Inr ?i'" using v by metis
    then have "shown_item (view w') = Some ?i'"
      using effect_update [of me v "[HELD]" "heartbeat_sets instant expiry" db s'] s(1) e by (simp add: shown_item_def)
    then show ?thesis using assms(2) v by (simp add: holds_def isOwnedBy_def)
  qed
  have key: "action_table ?a = CoordinationTable" "action_key ?a = LEASE_ITEM_KEY" by (simp_all add: owned_update_def)
  show ?thesis
  proof (cases outcome)
    case Applied
    with law moved have "holds (n + 1) w' ?i'" "lease_version i = v" by auto
    with sane r Applied show ?thesis by (intro conjI exI [of _ ?i'] exI [of _ outcome]) auto
  next
    case (ConditionFailed k e)
    with law s key kept sane r show ?thesis by (intro conjI exI [of _ i] exI [of _ outcome]) auto
  next
    case (DefinitiveFailure c)
    with law kept sane r show ?thesis by auto
  next
    case (Ambiguous c)
    with law kept moved sane r show ?thesis by auto
  qed
qed

end

subsection \<open>The session's clocks\<close>

text \<open>Reading a clock changes no table; the monotonic clock always answers.\<close>

locale lease_session_environment = fenced_lease store view sane rely me
  for store :: "'w durable_item_store" and view :: "'w \<Rightarrow> tables" and sane :: "'w \<Rightarrow> bool"
    and rely :: "tables \<Rightarrow> tables \<Rightarrow> bool" and me :: lease_owner +
  fixes now_ns :: "('w, int) io" and wall :: "('w, int) io"
  assumes now_answers: "never_throws now_ns"
    and now_law: "sane w \<Longrightarrow> run_state now_ns w = (r, w') \<Longrightarrow> sane w' \<and> view w' = view w"
    and wall_law: "sane w \<Longrightarrow> run_state wall w = (r, w') \<Longrightarrow> sane w' \<and> view w' = view w"
begin

abbreviation deps :: "'w lease_session_deps" where
  "deps \<equiv> \<lparr>dep_store = createDurableLeaseStore store, dep_now_ns = now_ns, dep_wall = wall\<rparr>"

abbreviation jdeps :: "'w judgement_deps" where
  "jdeps \<equiv> \<lparr>jd_store = guarded, jd_now_ns = now_ns\<rparr>"

lemma judged_law:
  assumes "sane w" and "holds n w i" and "run_state (judged jdeps mk ob) w = (r, w')"
  shows "sane w' \<and> holds n w' i \<and> (\<exists>now. r = Inr \<lparr>judged_observation = mk now, judged_observed = ob\<rparr>)"
proof -
  from now_answers obtain now w1 where "run_state now_ns w = (Inr now, w1)"
    unfolding never_throws_def by blast
  with assms now_law [OF assms(1)] show ?thesis by (auto simp: judged_def holds_def)
qed

text \<open>What a judgement may answer while this owner holds the lease: never a mismatch.\<close>

definition fair_judgement :: "heartbeat_attempt \<Rightarrow> lease_item \<Rightarrow> heartbeat_judgement \<Rightarrow> bool" where
  "fair_judgement attempt i j \<longleftrightarrow>
     (case judged_observation j of
        ObsConfirmed _ _ _ v \<Rightarrow> v = lease_version i
      | ObsFailed _ _ \<Rightarrow> True
      | _ \<Rightarrow> False)"

lemma judgeItem_fair:
  assumes "sane w" and "holds n w i" and "att_owner attempt = me"
    and "run_state (judgeItem i attempt jdeps) w = (r, w')"
  shows "sane w' \<and> holds n w' i \<and> (\<exists>j. r = Inr j \<and> fair_judgement attempt i j)"
proof -
  have "run_state (judged jdeps (\<lambda>now. ObsFailed now (Some (lease_version i))) (Some i)) w = (r, w')"
    using assms(2-) by (simp add: judgeItem_def holds_def)
  from judged_law [OF assms(1,2) this] show ?thesis by (auto simp: fair_judgement_def)
qed

lemma judgeRead_fair:
  assumes "sane w" and "holds n w i" and "att_owner attempt = me"
    and "v = Inr (Some i) \<or> (\<exists>c. v = Inl c \<and> c \<noteq> ''LEASE_ITEM_UNDECODABLE'')"
    and "run_state (judgeRead v attempt jdeps) w = (r, w')"
  shows "sane w' \<and> holds n w' i \<and> (\<exists>j. r = Inr j \<and> fair_judgement attempt i j)"
proof -
  from assms(4) consider "v = Inr (Some i)" | c where "v = Inl c" "c \<noteq> ''LEASE_ITEM_UNDECODABLE''" by blast
  then show ?thesis
  proof cases
    case 1
    with judgeItem_fair [OF assms(1-3)] assms(5) show ?thesis by (simp add: judgeRead_def)
  next
    case 2
    with assms(5) have "run_state (judged jdeps (\<lambda>now. ObsFailed now None) None) w = (r, w')"
      by (simp add: judgeRead_def failed_def)
    from judged_law [OF assms(1,2) this] show ?thesis by (auto simp: fair_judgement_def)
  qed
qed

lemma judgeAmbiguous_fair:
  assumes "sane w" and "holds n w i" and "att_owner attempt = me"
    and "run_state (judgeAmbiguous attempt jdeps) w = (r, w')"
  shows "sane w' \<and> holds n w' i \<and> (\<exists>j. r = Inr j \<and> fair_judgement attempt i j)"
proof -
  obtain r1 w1 where read: "run_state (lease_read guarded) w = (r1, w1)" by fastforce
  from holds_read [OF assms(1,2) read] obtain v where w1: "sane w1" "holds n w1 i" and r1: "r1 = Inr v"
    and v: "v = Inr (Some i) \<or> (\<exists>c. v = Inl c \<and> c \<noteq> ''LEASE_ITEM_UNDECODABLE'')" by blast
  show ?thesis
  proof (cases "v = Inr (Some i) \<and> heartbeatLanded i attempt")
    case True
    with assms(4) read r1 have "run_state (confirmed attempt jdeps) w1 = (r, w')" by (simp add: judgeAmbiguous_def)
    from judged_law [OF w1 this [unfolded confirmed_def]] True show ?thesis
      by (auto simp: fair_judgement_def heartbeatLanded_def)
  next
    case False
    with assms(4) read r1 v have "run_state (judgeRead v attempt jdeps) w1 = (r, w')"
      by (auto simp: judgeAmbiguous_def split: if_splits)
    with judgeRead_fair [OF w1 assms(3) v] show ?thesis by blast
  qed
qed

lemma judgeHeartbeat_fair:
  assumes "sane w" and "holds n w i" and "att_owner attempt = me"
    and "outcome = Applied \<Longrightarrow> lease_version i = att_version attempt + 1"
    and "\<And>k e. outcome = ConditionFailed k e \<Longrightarrow> \<exists>s. e = Some s \<and> decodeLeaseItem s = Inr i"
    and "run_state (judgeHeartbeat outcome attempt jdeps) w = (r, w')"
  shows "sane w' \<and> holds n w' i \<and> (\<exists>j. r = Inr j \<and> fair_judgement attempt i j)"
proof (cases outcome)
  case Applied
  with assms(6) have "run_state (confirmed attempt jdeps) w = (r, w')" by simp
  from judged_law [OF assms(1,2) this [unfolded confirmed_def]] assms(4) Applied show ?thesis
    by (auto simp: fair_judgement_def)
next
  case (ConditionFailed k e)
  with assms(5) obtain s where "e = Some s" "decodeLeaseItem s = Inr i" by blast
  with ConditionFailed judgeItem_fair [OF assms(1-3)] assms(6) show ?thesis
    by (simp add: judgeConditionFailure_def)
next
  case (DefinitiveFailure c)
  with assms(6) have "run_state (failed jdeps) w = (r, w')" by simp
  from judged_law [OF assms(1,2) this [unfolded failed_def]] show ?thesis by (auto simp: fair_judgement_def)
next
  case (Ambiguous c)
  with judgeAmbiguous_fair [OF assms(1-3)] assms(6) show ?thesis by simp
qed

text \<open>
  The session invariant: a session that holds the lease and has not been refuted is the owner the
  table shows, and while its ownership is confirmed it knows the version.
\<close>

definition session_inv :: "int \<Rightarrow> lease_session \<Rightarrow> 'w \<Rightarrow> bool" where
  "session_inv n ses w \<longleftrightarrow>
     (\<exists>st i. ses_phase ses = Held me st \<and> health st \<noteq> LOST_OWNERSHIP_MISMATCH \<and> holds n w i
        \<and> (health st = CONFIRMED \<longrightarrow> lease_version i = known_version st))"

lemma fair_next:
  assumes "fair_judgement attempt i j" and "health st \<noteq> LOST_OWNERSHIP_MISMATCH" and "\<not> isLost (health st)"
  shows "health (nextLeaseHealth st (judged_observation j)) \<noteq> LOST_OWNERSHIP_MISMATCH"
    and "health (nextLeaseHealth st (judged_observation j)) = CONFIRMED \<Longrightarrow>
      lease_version i = known_version (nextLeaseHealth st (judged_observation j))"
  using assms
  by (auto simp: fair_judgement_def nextLeaseHealth_def split: lease_observation.splits if_splits)

lemma session_now_law:
  assumes "sane w" and "run_state (session_now deps) w = (r, w')"
  shows "sane w' \<and> view w' = view w \<and> (\<forall>t. r = Inr t \<longrightarrow> isUtcMillis t)"
proof -
  have "isUtcMillis t" if "formatUtcMillis ms = Inr t" for ms t
    using that by (auto simp: formatUtcMillis_def Let_def split: if_splits)
  then show ?thesis
    using assms wall_law [of w] by (auto simp: session_now_def split: prod.splits sum.splits)
qed

lemma settleBeat_phase: "ses_phase (snd (settleBeat ses ow prev nxt reason ob)) = Held ow nxt"
  by (simp add: settleBeat_def record_event_def)

lemma settleBeat_inv:
  assumes "holds n w i" and "health nxt \<noteq> LOST_OWNERSHIP_MISMATCH"
    and "health nxt = CONFIRMED \<Longrightarrow> lease_version i = known_version nxt"
  shows "session_inv n (snd (settleBeat ses me prev nxt reason ob)) w"
  unfolding session_inv_def settleBeat_phase using assms by blast

lemma beat_write_inv:
  assumes "sane w" and "holds n w i" and "n < MAX_SAFE_INTEGER" and "\<not> isLost (health st)"
    and "run_state (beat_write deps ses me st issued) w = (r, w')"
  shows "sane w' \<and> (case r of Inl e \<Rightarrow> view w' = view w | Inr (h, ses') \<Rightarrow> session_inv (n + 1) ses' w')"
proof -
  obtain rn wn where now: "run_state (session_now deps) w = (rn, wn)" by fastforce
  from session_now_law [OF assms(1) now] have wn: "sane wn" "view wn = view w"
    and utc: "\<And>t. rn = Inr t \<Longrightarrow> isUtcMillis t" by auto
  show ?thesis
  proof (cases rn)
    case (Inl e)
    with assms(5) now wn show ?thesis by (auto simp: beat_write_def)
  next
    case (Inr t)
    let ?att = "\<lparr>att_owner = me, att_version = known_version st, att_issued_ns = issued, att_at = t\<rparr>"
    have hn: "holds n wn i" using assms(2) wn by (simp add: holds_def)
    obtain rb wb where beat: "run_state (lease_heartbeat guarded me (known_version st) t) wn = (rb, wb)" by fastforce
    from holds_heartbeat [OF wn(1) hn assms(3) utc [OF Inr] beat] obtain i' outcome
      where wb: "sane wb" "rb = Inr outcome" "holds (n + 1) wb i'"
        and app: "outcome = Applied \<Longrightarrow> lease_version i' = known_version st + 1"
        and cf: "\<And>k e. outcome = ConditionFailed k e \<Longrightarrow> \<exists>s. e = Some s \<and> decodeLeaseItem s = Inr i'" by blast
    obtain rj wj where judge: "run_state (judgeHeartbeat outcome ?att jdeps) wb = (rj, wj)" by fastforce
    have "sane wj \<and> holds (n + 1) wj i' \<and> (\<exists>j. rj = Inr j \<and> fair_judgement ?att i' j)"
      by (rule judgeHeartbeat_fair [OF wb(1,3) _ _ _ judge]) (use app cf in simp_all)
    then obtain j where wj: "sane wj" "holds (n + 1) wj i'" "rj = Inr j" "fair_judgement ?att i' j" by blast
    have "r = Inr (settleBeat ses me st (nextLeaseHealth st (judged_observation j))
         (lossReasonOf st (nextLeaseHealth st (judged_observation j)) j) (judged_observed j)) \<and> w' = wj"
      using assms(5) now Inr beat wb(2) judge wj(3)
      by (auto simp: beat_write_def session_store_def Let_def)
    moreover have "health st \<noteq> LOST_OWNERSHIP_MISMATCH" using assms(4) by auto
    note settleBeat_inv [OF wj(2) fair_next [OF wj(4) this assms(4)]]
    ultimately show ?thesis using wj(1) by (simp add: case_prod_beta)
  qed
qed

lemma heartbeat_inv:
  assumes "sane w" and "session_inv n ses w" and "n < MAX_SAFE_INTEGER"
    and "run_state (session_heartbeatOnce deps ses) w = (r, w')"
  shows "sane w' \<and> (case r of Inl e \<Rightarrow> session_inv (n + 1) ses w' | Inr (h, ses') \<Rightarrow> session_inv (n + 1) ses' w')"
proof -
  from assms(2) obtain st i where ph: "ses_phase ses = Held me st" and st: "health st \<noteq> LOST_OWNERSHIP_MISMATCH"
    and i: "holds n w i" and ver: "health st = CONFIRMED \<longrightarrow> lease_version i = known_version st"
    by (auto simp: session_inv_def)
  have up: "session_inv (n + 1) ses w1" if "view w1 = view w" for w1
    unfolding session_inv_def using ph st i ver that by (intro exI [of _ st] exI [of _ i]) (auto simp: holds_def)
  show ?thesis
  proof (cases "isLost (health st)")
    case True
    with assms(1,4) ph up [of w] show ?thesis by (auto simp: session_heartbeatOnce_def)
  next
    case False
    obtain t w1 where now: "run_state now_ns w = (Inr t, w1)" using now_answers unfolding never_throws_def by blast
    with now_law [OF assms(1) now] have w1: "sane w1" "view w1 = view w" by auto
    have i1: "holds n w1 i" using i w1 by (simp add: holds_def)
    show ?thesis
    proof (cases "health (nextLeaseHealth st (ObsClock t)) = LOST_STALE")
      case True
      with assms(4) now ph False have res: "r = Inr (settleBeat ses me st (nextLeaseHealth st (ObsClock t))
          (Some (leaseReason ''LEASE_STALE'')) None) \<and> w' = w1"
        by (auto simp: session_heartbeatOnce_def Let_def)
      have "session_inv (n + 1) (snd (settleBeat ses me st (nextLeaseHealth st (ObsClock t))
          (Some (leaseReason ''LEASE_STALE'')) None)) w1"
        by (rule settleBeat_inv [OF holds_mono [OF i1]]) (use True in simp_all)
      with res w1 show ?thesis by (simp add: case_prod_beta)
    next
      case nstale: False
      with assms(4) now ph False have "run_state (beat_write deps ses me st t) w1 = (r, w')"
        by (auto simp: session_heartbeatOnce_def Let_def)
      from beat_write_inv [OF w1(1) i1 assms(3) False this] w1 up show ?thesis
        by (auto split: sum.splits)
    qed
  qed
qed

lemma raw_write_applied:
  assumes "sane w" and "run_state (item_write store a) w = (r, w')"
  shows "sane w' \<and> (r = Inr Applied \<longrightarrow> (\<exists>db. action_guard a db \<and> view w' = action_effect a db))"
  using write_law [OF assms] single_write.applied by (fastforce split: sum.splits)

lemma guarded_acquire:
  assumes "sane w" and "wf_owner me" and "isUtcMillis t"
    and "run_state (lease_acquire guarded me t) w = (r, w')"
  shows "sane w' \<and> (\<exists>outcome. r = Inr outcome \<and>
    (outcome = Applied \<longrightarrow> (\<exists>i. acquiredLeaseItem me t = Inr i \<and> shown_item (view w') = Some i)))"
proof (cases "acquiredLeaseItem me t")
  case (Inl e)
  with assms show ?thesis
    by (auto simp: guardLeaseStore_def createDurableLeaseStore_def acquireLease_def guardedWrite_def)
next
  case (Inr i)
  have shown: "shown_item (view v) = Some i" if "view v = action_effect (acquire_put i c) db" for v c db
    using that decode_toStoredItem [OF acquired_wf [OF Inr assms(3,2)]] by (simp add: shown_item_def)
  obtain r1 w1 where one: "run_state (item_write store (acquire_put i ItemAbsent)) w = (r1, w1)" by fastforce
  note w1 = raw_write_applied [OF assms(1) one]
  obtain rel where rel: "rel = (case r1 of Inr oc \<Rightarrow> releasedHolder oc | Inl _ \<Rightarrow> None)" by blast
  show ?thesis
  proof (cases rel)
    case None
    with w1 assms(4) one Inr rel shown show ?thesis
      by (cases r1) (auto simp: guardLeaseStore_def createDurableLeaseStore_def acquireLease_def guardedWrite_def)
  next
    case (Some x)
    obtain r2 w2 where two: "run_state (item_write store (acquire_put i (sameReleasedItem x))) w1 = (r2, w2)" by fastforce
    from w1 have "sane w1" by blast
    note w2 = raw_write_applied [OF this two]
    from Some rel obtain oc where "r1 = Inr oc" "releasedHolder oc = Some x" by (cases r1) auto
    with w2 assms(4) one two Inr shown show ?thesis
      by (cases r2) (auto simp: guardLeaseStore_def createDurableLeaseStore_def acquireLease_def guardedWrite_def)
  qed
qed

lemma resolveAcquisition_held:
  assumes "sane w" and "outcome = Applied \<Longrightarrow> \<exists>i. acquiredLeaseItem me t = Inr i \<and> shown_item (view w) = Some i"
    and "run_state (resolveAcquisition guarded me t outcome) w = (r, w')"
  shows "sane w' \<and> (r = Inr Acquired \<longrightarrow> (\<exists>i. holds 1 w' i \<and> lease_version i = 1))"
proof (cases outcome)
  case Applied
  with assms acquired_fields show ?thesis by (fastforce simp: holds_def)
next
  case (Ambiguous c)
  obtain r1 w1 where read: "run_state (lease_read guarded) w = (r1, w1)" by fastforce
  from guarded_read [OF assms(1) read] Ambiguous assms(3) read show ?thesis
    by (auto simp: resolveAmbiguousAcquisition_def conflict_def acquisitionLanded_def holds_def
        split: sum.splits option.splits if_splits)
qed (use assms in \<open>auto simp: refusedByExisting_def conflict_def split: option.splits sum.splits\<close>)

lemma acquire_inv:
  assumes "sane w" and "wf_owner me" and "run_state (session_acquire deps me ses) w = (r, w')"
  shows "sane w' \<and> (\<forall>ses'. r = Inr (SessionAcquired, ses') \<longrightarrow> session_inv 1 ses' w')"
proof (cases "ses_phase ses = Idle")
  case False
  with assms show ?thesis by (auto simp: session_acquire_def)
next
  case True
  obtain issued w1 where now: "run_state now_ns w = (Inr issued, w1)" using now_answers unfolding never_throws_def by blast
  with now_law [OF assms(1)] have w1: "sane w1" by blast
  obtain rn w2 where wl: "run_state (session_now deps) w1 = (rn, w2)" by fastforce
  note w2 = session_now_law [OF w1 wl]
  show ?thesis
  proof (cases rn)
    case (Inl e)
    with True assms(3) now wl w2 show ?thesis by (auto simp: session_acquire_def)
  next
    case (Inr t)
    obtain ra w3 where aq: "run_state (lease_acquire guarded me t) w2 = (ra, w3)" by fastforce
    from guarded_acquire [OF _ assms(2) _ aq] w2 Inr obtain outcome where w3: "sane w3" "ra = Inr outcome"
      "outcome = Applied \<longrightarrow> (\<exists>i. acquiredLeaseItem me t = Inr i \<and> shown_item (view w3) = Some i)" by blast
    obtain rr w4 where rs: "run_state (resolveAcquisition guarded me t outcome) w3 = (rr, w4)" by fastforce
    note held = resolveAcquisition_held [OF w3(1) _ rs]
    have res: "w' = w4 \<and> (\<forall>a. rr = Inr a \<longrightarrow> r = Inr (settle_acquisition ses me issued t a))
       \<and> (\<forall>e. rr = Inl e \<longrightarrow> r = Inl e)"
      using True assms(3) now wl Inr aq w3(2) rs
      by (auto simp: session_acquire_def session_store_def split: sum.splits)
    show ?thesis
    proof (cases "rr = Inr Acquired")
      case True
      with held w3(3) obtain i where "sane w4" "holds 1 w4 i" "lease_version i = 1" by blast
      with res True show ?thesis
        by (auto simp: settle_acquisition_def Let_def record_event_def session_inv_def)
    next
      case False
      with held w3(3) have "sane w4" by blast
      with res False show ?thesis
        by (cases rr) (auto simp: settle_acquisition_def split: acquisition_resolution.splits)
    qed
  qed
qed

end

subsection \<open>Whole runs of a session\<close>

fun session_beats :: "'w lease_session_deps \<Rightarrow> nat \<Rightarrow> lease_session \<Rightarrow> ('w, lease_session) io" where
  "session_beats deps 0 ses = io_return ses"
| "session_beats deps (Suc n) ses =
     io_bind (session_heartbeatOnce deps ses) (\<lambda>(h, ses'). session_beats deps n ses')"

definition session_run :: "'w lease_session_deps \<Rightarrow> lease_owner \<Rightarrow> nat \<Rightarrow> ('w, lease_acquisition \<times> lease_session) io" where
  "session_run deps owner n =
     io_bind (session_acquire deps owner new_session) (\<lambda>(acq, ses).
       case acq of
         SessionAcquired \<Rightarrow> io_bind (session_beats deps n ses) (\<lambda>ses'. io_return (acq, ses'))
       | _ \<Rightarrow> io_return (acq, ses))"

context lease_session_environment
begin

lemma beats_inv:
  assumes "sane w" and "session_inv n ses w" and "n + int k \<le> MAX_SAFE_INTEGER"
    and "run_state (session_beats deps k ses) w = (Inr ses', w')"
  shows "sane w' \<and> session_inv (n + int k) ses' w'"
  using assms
proof (induction k arbitrary: n ses w)
  case 0
  then show ?case by simp
next
  case (Suc k)
  obtain r1 w1 where beat: "run_state (session_heartbeatOnce deps ses) w = (r1, w1)" by fastforce
  have "n < MAX_SAFE_INTEGER" using Suc.prems(3) by simp
  note inv = heartbeat_inv [OF Suc.prems(1,2) this beat]
  from beat Suc.prems(4) obtain h s1 where r1: "r1 = Inr (h, s1)"
    and rest: "run_state (session_beats deps k s1) w1 = (Inr ses', w')"
    by (auto split: sum.splits)
  have "sane w1" "session_inv (n + 1) s1 w1" using inv r1 by auto
  from Suc.IH [OF this _ rest] Suc.prems(3) show ?case by (simp add: algebra_simps)
qed

lemma run_inv:
  assumes "sane w" and "wf_owner me" and "int k < MAX_SAFE_INTEGER"
    and "run_state (session_run deps me k) w = (Inr (SessionAcquired, ses'), w')"
  shows "session_inv (1 + int k) ses' w'"
proof -
  obtain r1 w1 where acq: "run_state (session_acquire deps me new_session) w = (r1, w1)" by fastforce
  note a = acquire_inv [OF assms(1,2) acq]
  from acq assms(4) obtain s1 where r1: "r1 = Inr (SessionAcquired, s1)"
    and rest: "run_state (session_beats deps k s1) w1 = (Inr ses', w')"
    by (auto simp: session_run_def split: sum.splits lease_acquisition.splits prod.splits)
  from a r1 have "sane w1" "session_inv 1 s1 w1" by auto
  from beats_inv [OF this _ rest] assms(3) show ?thesis by simp
qed

end

end
