(* ===== verification/Lease_World.thy ===== *)
theory Lease_World
  imports Lease_Safety
begin

text \<open>
  What a finalization establishes of the table; the scripted world, on which the environments of
  \<^verbatim>\<open>Lease_Safety\<close> are interpreted; the heartbeat loop (\<^verbatim>\<open>lease-heartbeat-loop.ts\<close>); and the
  properties of the lease.
\<close>

subsection \<open>Finalization\<close>

text \<open>The table names this owner with this status, whether or not the item decodes.\<close>

definition slot_says :: "lease_owner \<Rightarrow> lease_item_status \<Rightarrow> tables \<Rightarrow> bool" where
  "slot_says owner status db \<longleftrightarrow>
     (case lease_slot db of
        None \<Rightarrow> False
      | Some s \<Rightarrow>
          own_member s ''owner_kind'' = Some (JString (kind_text (owner_kind owner)))
          \<and> own_member s ''owner_id'' = Some (JString (owner_id owner))
          \<and> own_member s ''owner_manifest_sha256'' = Some (JString (owner_manifest_sha256 owner))
          \<and> own_member s ''lease_status'' = Some (JString (status_text status)))"

lemma slot_says_shown:
  assumes "shown_item db = Some i" and "isOwnedBy i owner"
  shows "slot_says owner (lease_status i) db"
  using assms by (auto simp: slot_says_def shown_item_Some isOwnedBy_def member_text)

lemma slot_says_applied:
  assumes "action_guard (owned_update owner v statuses (status_sets st instant)) db"
  shows "slot_says owner st (action_effect (owned_update owner v statuses (status_sets st instant)) db)"
proof -
  from assms obtain s where s: "lease_slot db = Some s" by (cases "lease_slot db") auto
  have "lease_slot (action_effect (owned_update owner v statuses (status_sets st instant)) db) =
    Some (obj_merge (obj_merge s (status_sets st instant @ [(''lease_version'', JNumber (JsInt (v + 1)))]))
     (key_members LEASE_ITEM_KEY))"
    by (rule effect_update) (simp add: s owned_update_def applyUpdate_no_increments)
  then show ?thesis
    using assms s by (simp add: slot_says_def map_of_obj_merge status_sets_def key_members_def ownedAt_def)
qed

lemma deriveFinal_snoc:
  "FINAL_STATUS_OF_EVENT e = Some st \<Longrightarrow> deriveFinalLeaseStatus (es @ [e]) = st"
  by (simp add: deriveFinalLeaseStatus_def List.map_filter_def)

fun event_status :: "lease_event \<Rightarrow> lease_item_status option" where
  "event_status EV_RELEASED = Some RELEASED"
| "event_status EV_RECOVERY_REQUIRED = Some RECOVERY_REQUIRED"
| "event_status _ = None"

lemma writeFinal_event:
  "run_state (writeFinal req n) w = (Inr v, w') \<Longrightarrow> FINAL_STATUS_OF_EVENT (fv_event v) \<noteq> None"
  by (auto simp: writeFinal_def resolveAmbiguousFinal_def target_event_def writeFailure_def
      split: sum.splits prod.splits write_outcome.splits option.splits if_splits lease_closure.splits)

lemma finalize_event:
  "run_state (finalizeLease req) w = (Inr v, w') \<Longrightarrow> FINAL_STATUS_OF_EVENT (fv_event v) \<noteq> None"
  by (auto simp: finalizeLease_def notOwned_def
      split: sum.splits prod.splits option.splits if_splits dest: writeFinal_event)

context lease_session_environment
begin

lemma guarded_settle:
  "run_state (lease_release guarded ow v t) w =
     run_state (guardedWrite (item_write store (owned_update ow v [HELD, RECOVERY_REQUIRED] (status_sets RELEASED t)))) w"
  "run_state (lease_mark_recovery guarded ow v t) w =
     run_state (guardedWrite (item_write store (owned_update ow v [HELD] (status_sets RECOVERY_REQUIRED t)))) w"
  by (simp_all add: guardLeaseStore_def createDurableLeaseStore_def updateOwnedLease_def)

lemma final_write_applied:
  assumes "sane w" and "fr_store req = guarded"
    and "run_state (final_write req v t) w = (r, w')"
  shows "sane w' \<and> (r = Inr Applied \<longrightarrow> slot_says (fr_owner req) (target_status (fr_closure req)) (view w'))"
proof -
  obtain sts where run: "run_state (guardedWrite (item_write store
      (owned_update (fr_owner req) v sts (status_sets (target_status (fr_closure req)) t)))) w = (r, w')"
    using assms(2,3) by (cases "fr_closure req") (auto simp: final_write_def guarded_settle target_status_def)
  show ?thesis using guarded_write [OF assms(1) run] slot_says_applied by auto
qed

lemma writeFinal_true:
  assumes "sane w" and "fr_store req = guarded" and "fr_now req = session_now deps"
    and "run_state (writeFinal req v) w = (r, w')"
  shows "sane w' \<and> (\<forall>x st. r = Inr x \<longrightarrow> event_status (fv_event x) = Some st \<longrightarrow> slot_says (fr_owner req) st (view w'))"
proof -
  have target: "event_status (target_event c) = Some (target_status c)" "event_status (writeFailure c) = None" for c
    by (cases c; simp add: target_event_def target_status_def writeFailure_def)+
  obtain rn w1 where now: "run_state (session_now deps) w = (rn, w1)" by fastforce
  note w1 = session_now_law [OF assms(1) now]
  show ?thesis
  proof (cases rn)
    case (Inl e)
    with assms(3,4) now w1 show ?thesis by (auto simp: writeFinal_def)
  next
    case (Inr t)
    obtain ro w2 where wr: "run_state (final_write req v t) w1 = (ro, w2)" by fastforce
    from final_write_applied [OF _ assms(2) wr] w1 have w2: "sane w2"
      "ro = Inr Applied \<longrightarrow> slot_says (fr_owner req) (target_status (fr_closure req)) (view w2)" by auto
    obtain ra w3 where read: "run_state (lease_read guarded) w2 = (ra, w3)" by fastforce
    note w3 = guarded_read [OF w2(1) read]
    have amb: "sane w3 \<and> (\<forall>x st. rr = Inr x \<longrightarrow> event_status (fv_event x) = Some st \<longrightarrow> slot_says (fr_owner req) st (view w3))"
      if "run_state (resolveAmbiguousFinal req) w2 = (rr, w')" for rr
      using that w3 read assms(2)
      by (auto simp: resolveAmbiguousFinal_def target split: sum.splits option.splits if_splits dest: slot_says_shown)
    have "w' = w3" if "run_state (resolveAmbiguousFinal req) w2 = (rr, w')" for rr
      using that read assms(2) by (auto simp: resolveAmbiguousFinal_def split: sum.splits)
    then show ?thesis
      using assms(3,4) now Inr wr w2 amb
      by (auto simp: writeFinal_def target split: sum.splits write_outcome.splits)
  qed
qed

lemma finalizeLease_true:
  assumes "sane w" and "fr_store req = guarded" and "fr_now req = session_now deps" and "fr_held req"
    and "run_state (finalizeLease req) w = (r, w')"
  shows "sane w' \<and> (\<forall>x st. r = Inr x \<longrightarrow> event_status (fv_event x) = Some st \<longrightarrow> slot_says (fr_owner req) st (view w'))"
proof -
  obtain ra w1 where read: "run_state (lease_read guarded) w = (ra, w1)" by fastforce
  note w1 = guarded_read [OF assms(1) read]
  then have sane1: "sane w1" by blast
  note wf = writeFinal_true [OF sane1 assms(2,3)]
  have never: "\<And>e. ra \<noteq> Inl e" using read never_throwsD [of "lease_read guarded" w] by (auto simp: guardLeaseStore_def)
  show ?thesis
    using assms(2,4,5) read w1 wf never
    by (fastforce simp: finalizeLease_def notOwned_def split: sum.splits option.splits if_splits dest: slot_says_shown)
qed

lemma finalize_true:
  assumes "sane w" and "ses_phase ses = Held owner st"
    and "run_state (session_finalize deps closure ses) w = (Inr (status, ses'), w')"
  shows "(status = Released \<longrightarrow> slot_says owner RELEASED (view w'))
    \<and> (status = RecoveryRequired \<longrightarrow> slot_says owner RECOVERY_REQUIRED (view w'))"
proof -
  let ?req = "\<lparr>fr_store = guarded, fr_owner = owner, fr_closure = closure, fr_known_version = known_version st,
    fr_held = True, fr_now = session_now deps\<rparr>"
  obtain rf w1 where fin: "run_state (finalizeLease ?req) w = (rf, w1)" by fastforce
  note truth = finalizeLease_true [OF assms(1) _ _ _ fin]
  from assms(2,3) fin obtain v where v: "rf = Inr v" "w1 = w'"
    and st: "status = deriveFinalLeaseStatus (ses_events ses @ [fv_event v])"
    by (auto simp: session_finalize_def finalizeOwned_def session_store_def settleFinal_def Let_def
        record_event_def split: sum.splits)
  have ev: "FINAL_STATUS_OF_EVENT (fv_event v) \<noteq> None"
    using fin unfolding v(1) by (rule finalize_event)
  then obtain fs where fs: "FINAL_STATUS_OF_EVENT (fv_event v) = Some fs" by blast
  with st have "status = fs" by (simp add: deriveFinal_snoc)
  with fs truth v show ?thesis by (cases "fv_event v") auto
qed

end

subsection \<open>The scripted world\<close>

text \<open>
  Another owner's write, by the operation that issues it and the instant it runs at; acquisitions
  are split into their two puts, the second against whatever released item the owner saw.
\<close>

datatype foreign_request =
    PutIfAbsent int
  | PutIfReleased int lease_item
  | Beat int int
  | Release int int
  | Recover int int

fun foreign_actions :: "lease_owner \<Rightarrow> foreign_request \<Rightarrow> write_action list" where
  "foreign_actions ow (PutIfAbsent ms) =
     (case formatUtcMillis ms of Inl _ \<Rightarrow> [] | Inr t \<Rightarrow>
        (case acquiredLeaseItem ow t of Inl _ \<Rightarrow> [] | Inr i \<Rightarrow> [acquire_put i ItemAbsent]))"
| "foreign_actions ow (PutIfReleased ms released) =
     (case formatUtcMillis ms of Inl _ \<Rightarrow> [] | Inr t \<Rightarrow>
        (case acquiredLeaseItem ow t of Inl _ \<Rightarrow> [] | Inr i \<Rightarrow>
           if lease_status released = RELEASED then [acquire_put i (sameReleasedItem released)] else []))"
| "foreign_actions ow (Beat v ms) =
     (case formatUtcMillis ms of Inl _ \<Rightarrow> [] | Inr t \<Rightarrow>
        (case leaseExpiry t of Inl _ \<Rightarrow> [] | Inr e \<Rightarrow> [owned_update ow v [HELD] (heartbeat_sets t e)]))"
| "foreign_actions ow (Release v ms) =
     (case formatUtcMillis ms of Inl _ \<Rightarrow> [] | Inr t \<Rightarrow>
        [owned_update ow v [HELD, RECOVERY_REQUIRED] (status_sets RELEASED t)])"
| "foreign_actions ow (Recover v ms) =
     (case formatUtcMillis ms of Inl _ \<Rightarrow> [] | Inr t \<Rightarrow>
        [owned_update ow v [HELD] (status_sets RECOVERY_REQUIRED t)])"

lemma foreign_actions_lease_write:
  assumes "a \<in> set (foreign_actions ow req)"
  shows "lease_write ow a"
proof -
  have utc: "isUtcMillis t" if "Inr t = formatUtcMillis ms" for ms t
    using that by (auto simp: formatUtcMillis_def Let_def split: if_splits)
  show ?thesis
    using assms
    by (cases req) (auto split: sum.splits if_splits intro: lease_write.intros dest: sym dest!: utc)
qed

text \<open>What surrounds one store call: the others' writes before it, and how it fails, if it does.\<close>

record call_env =
  env_foreign :: "(lease_owner \<times> foreign_request) list"
  env_fault :: "scripted_fault option"
  env_read_error :: "string option"
  env_throw :: "(js_throw \<times> bool) option"

definition calm :: call_env where
  "calm = \<lparr>env_foreign = [], env_fault = None, env_read_error = None, env_throw = None\<rparr>"

record lease_world =
  lw_tables :: tables
  lw_calls :: "call_env list"
  lw_now :: int
  lw_ticks :: "nat list"
  lw_wall :: "int list"

definition foreign_writes :: "(lease_owner \<times> foreign_request) list \<Rightarrow> tables \<Rightarrow> tables" where
  "foreign_writes reqs db =
     foldl (\<lambda>d a. snd (store_write None a d)) db (concat (map (\<lambda>(ow, req). foreign_actions ow req) reqs))"

definition next_call :: "lease_world \<Rightarrow> call_env \<times> lease_world" where
  "next_call w =
     (let e = (case lw_calls w of [] \<Rightarrow> calm | e # _ \<Rightarrow> e)
      in (e, w\<lparr>lw_calls := tl (lw_calls w), lw_tables := foreign_writes (env_foreign e) (lw_tables w)\<rparr>))"

definition scripted_write :: "write_action \<Rightarrow> (lease_world, write_outcome) io" where
  "scripted_write a = State (\<lambda>w.
     let (e, w1) = next_call w; db = lw_tables w1
     in case env_throw e of
          Some (err, applied) \<Rightarrow>
            (Inl err, w1\<lparr>lw_tables := (if applied then snd (store_write None a db) else db)\<rparr>)
        | None \<Rightarrow>
            (let (outcome, db') = store_write (env_fault e) a db in (Inr outcome, w1\<lparr>lw_tables := db'\<rparr>)))"

definition scripted_transact :: "write_action list \<Rightarrow> uuid4 \<Rightarrow> (lease_world, write_outcome) io" where
  "scripted_transact actions token = State (\<lambda>w.
     let (e, w1) = next_call w; (outcome, db') = store_transact (env_fault e) actions (lw_tables w1)
     in (Inr outcome, w1\<lparr>lw_tables := db'\<rparr>))"

definition scripted_get :: "table_role \<Rightarrow> item_key \<Rightarrow> (lease_world, string + stored_item option) io" where
  "scripted_get t k = State (\<lambda>w.
     let (e, w1) = next_call w
     in case env_throw e of
          Some (err, _) \<Rightarrow> (Inl err, w1)
        | None \<Rightarrow>
            (case env_read_error e of
               Some code \<Rightarrow> (Inr (Inl code), w1)
             | None \<Rightarrow> (Inr (Inr (lw_tables w1 t k)), w1)))"

definition scripted_store :: "lease_world durable_item_store" where
  "scripted_store =
     \<lparr>item_write = scripted_write, item_transact = scripted_transact, item_get = scripted_get\<rparr>"

definition scripted_now :: "(lease_world, int) io" where
  "scripted_now = State (\<lambda>w.
     let now = lw_now w + (case lw_ticks w of [] \<Rightarrow> 0 | d # _ \<Rightarrow> int d)
     in (Inr now, w\<lparr>lw_now := now, lw_ticks := tl (lw_ticks w)\<rparr>))"

definition scripted_wall :: "(lease_world, int) io" where
  "scripted_wall = State (\<lambda>w.
     (Inr (case lw_wall w of [] \<Rightarrow> 0 | ms # _ \<Rightarrow> ms), w\<lparr>lw_wall := tl (lw_wall w)\<rparr>))"

definition scripted_deps :: "lease_world lease_session_deps" where
  "scripted_deps =
     \<lparr>dep_store = createDurableLeaseStore scripted_store, dep_now_ns = scripted_now, dep_wall = scripted_wall\<rparr>"

text \<open>Every scripted foreign write is another owner's.\<close>

definition script_ok :: "lease_owner \<Rightarrow> lease_world \<Rightarrow> bool" where
  "script_ok me w \<longleftrightarrow> list_all (\<lambda>e. list_all (\<lambda>(ow, _). ow \<noteq> me) (env_foreign e)) (lw_calls w)"

definition foreign_move :: "lease_owner \<Rightarrow> tables \<Rightarrow> tables \<Rightarrow> bool" where
  "foreign_move me db db' \<longleftrightarrow> (\<exists>ow a. ow \<noteq> me \<and> lease_write ow a \<and> db' = snd (store_write None a db))"

lemma foreign_moves_fenced:
  assumes "(foreign_move me)\<^sup>*\<^sup>* db db'" and "shown_item db = Some i" and "isOwnedBy i me"
    and "lease_status i = HELD"
  shows "db' = db"
  using assms(1)
proof (induction rule: rtranclp_induct)
  case (step y z)
  then obtain ow a where "ow \<noteq> me" "lease_write ow a" "z = snd (store_write None a db)"
    by (auto simp: foreign_move_def)
  with assms(2-) foreign_write_blocked [of ow a me db i None] step.IH show ?case
    by (metis lease_item_status.distinct(1) prod.collapse)
qed simp

lemma foreign_writes_move:
  assumes "list_all (\<lambda>(ow, _). ow \<noteq> me) reqs"
  shows "(foreign_move me)\<^sup>*\<^sup>* db (foreign_writes reqs db)"
proof -
  have "(foreign_move me)\<^sup>*\<^sup>* d (foldl (\<lambda>d a. snd (store_write None a d)) d as)"
    if "\<forall>a\<in>set as. \<exists>ow. ow \<noteq> me \<and> lease_write ow a" for as d
    using that
  proof (induction as arbitrary: d)
    case (Cons a as)
    then have "foreign_move me d (snd (store_write None a d))" by (auto simp: foreign_move_def)
    with Cons show ?case by (auto intro: converse_rtranclp_into_rtranclp)
  qed simp
  moreover have "\<forall>a\<in>set (concat (map (\<lambda>(ow, req). foreign_actions ow req) reqs)). \<exists>ow. ow \<noteq> me \<and> lease_write ow a"
    using assms foreign_actions_lease_write by (fastforce simp: list_all_iff)
  ultimately show ?thesis unfolding foreign_writes_def by blast
qed

lemma next_call_ok:
  assumes "script_ok me w" and "next_call w = (e, w1)"
  shows "script_ok me w1 \<and> (foreign_move me)\<^sup>*\<^sup>* (lw_tables w) (lw_tables w1)"
  using assms foreign_writes_move [of me "env_foreign e" "lw_tables w"]
  by (cases "lw_calls w") (auto simp: next_call_def script_ok_def Let_def calm_def)

interpretation scripted: lease_session_environment
  scripted_store lw_tables "script_ok me" "(foreign_move me)\<^sup>*\<^sup>*" me scripted_now scripted_wall
  for me
proof unfold_locales
  fix w a r w'
  assume ok: "script_ok me w" and run: "run_state (item_write scripted_store a) w = (r, w')"
  obtain e w1 where nc: "next_call w = (e, w1)" by fastforce
  from next_call_ok [OF ok nc] have w1: "script_ok me w1" "(foreign_move me)\<^sup>*\<^sup>* (lw_tables w) (lw_tables w1)" by auto
  obtain oc db where sw: "store_write None a (lw_tables w1) = (oc, db)" by fastforce
  have same: "script_ok me (w1\<lparr>lw_tables := d\<rparr>)" for d using w1(1) by (simp add: script_ok_def)
  show "script_ok me w' \<and> (\<exists>db. (foreign_move me)\<^sup>*\<^sup>* (lw_tables w) db \<and>
     (case r of Inl _ \<Rightarrow> lw_tables w' = db \<or> action_guard a db \<and> lw_tables w' = action_effect a db
      | Inr outcome \<Rightarrow> \<exists>f. store_write f a db = (outcome, lw_tables w')))"
    using run nc w1 same single_write.state_after [OF sw] sw
    by (auto simp: scripted_store_def scripted_write_def Let_def split: option.splits prod.splits if_splits
        intro!: exI [of _ "lw_tables w1"])
next
  fix w as token r w'
  assume ok: "script_ok me w" and run: "run_state (item_transact scripted_store as token) w = (r, w')"
  obtain e w1 where nc: "next_call w = (e, w1)" by fastforce
  from next_call_ok [OF ok nc] have w1: "script_ok me w1" "(foreign_move me)\<^sup>*\<^sup>* (lw_tables w) (lw_tables w1)" by auto
  obtain oc db where st: "store_transact (env_fault e) as (lw_tables w1) = (oc, db)" by fastforce
  with run nc have res: "r = Inr oc" "w' = w1\<lparr>lw_tables := db\<rparr>"
    by (auto simp: scripted_store_def scripted_transact_def Let_def)
  show "script_ok me w' \<and> (\<exists>db. (foreign_move me)\<^sup>*\<^sup>* (lw_tables w) db \<and>
     (case r of Inl _ \<Rightarrow> lw_tables w' = db \<or> transact_guard as db \<and> lw_tables w' = transact_effect as db
      | Inr outcome \<Rightarrow> \<exists>f. store_transact f as db = (outcome, lw_tables w')))"
    using w1 st unfolding res by (auto simp: script_ok_def)
next
  fix w t k r w'
  assume ok: "script_ok me w" and run: "run_state (item_get scripted_store t k) w = (r, w')"
  obtain e w1 where nc: "next_call w = (e, w1)" by fastforce
  with next_call_ok [OF ok nc] run
  show "script_ok me w' \<and> (foreign_move me)\<^sup>*\<^sup>* (lw_tables w) (lw_tables w') \<and> (\<forall>v. r = Inr (Inr v) \<longrightarrow> v = lw_tables w' t k)"
    by (auto simp: scripted_store_def scripted_get_def split: option.splits)
qed (auto simp: never_throws_def scripted_now_def scripted_wall_def script_ok_def Let_def dest: foreign_moves_fenced)

subsection \<open>The heartbeat loop\<close>

text \<open>
  The private members of \<^verbatim>\<open>LeaseHeartbeatLoop\<close>: the pending timer with its delay, the flags, the
  losses handed to the listener, and whether a beat is awaiting the session.
\<close>

record heartbeat_loop =
  lp_timer :: "int option"
  lp_started :: bool
  lp_stopped :: bool
  lp_beating :: bool
  lp_losses :: "lease_loss list"

definition new_loop :: heartbeat_loop where
  "new_loop = \<lparr>lp_timer = None, lp_started = False, lp_stopped = False, lp_beating = False, lp_losses = []\<rparr>"

definition isRunning :: "heartbeat_loop \<Rightarrow> bool" where
  "isRunning lp \<longleftrightarrow> lp_started lp \<and> \<not> lp_stopped lp"

definition loop_scheduleNext ::
  "'w lease_session_deps \<Rightarrow> lease_session \<Rightarrow> heartbeat_loop \<Rightarrow> ('w, heartbeat_loop) io" where
  "loop_scheduleNext deps ses lp =
     io_bind (session_nextHeartbeatDelayMs deps ses) (\<lambda>d. io_return (lp\<lparr>lp_timer := Some d\<rparr>))"

definition loop_start ::
  "'w lease_session_deps \<Rightarrow> lease_session \<Rightarrow> heartbeat_loop \<Rightarrow> ('w, heartbeat_loop) io" where
  "loop_start deps ses lp =
     (if lp_started lp then io_throw ErrorThrown
      else loop_scheduleNext deps ses (lp\<lparr>lp_started := True\<rparr>))"

definition loop_stop :: "heartbeat_loop \<Rightarrow> heartbeat_loop" where
  "loop_stop lp = lp\<lparr>lp_stopped := True, lp_timer := None\<rparr>"

definition loop_fire :: "heartbeat_loop \<Rightarrow> heartbeat_loop" where
  "loop_fire lp = lp\<lparr>lp_timer := None, lp_beating := True\<rparr>"

text \<open>The rest of \<^verbatim>\<open>#beat\<close> once \<^verbatim>\<open>heartbeatOnce\<close> settled; \<open>held\<close> is whether it resolved.\<close>

definition loop_settle ::
  "'w lease_session_deps \<Rightarrow> bool \<Rightarrow> lease_session \<Rightarrow> heartbeat_loop \<Rightarrow> ('w, heartbeat_loop) io" where
  "loop_settle deps held ses lp0 =
     (let lp = lp0\<lparr>lp_beating := False\<rparr>
      in if \<not> held then io_return (lp\<lparr>lp_stopped := True\<rparr>)
         else (case ses_loss ses of
                 Some loss \<Rightarrow> io_return (lp\<lparr>lp_stopped := True, lp_losses := lp_losses lp @ [loss]\<rparr>)
               | None \<Rightarrow> if lp_stopped lp then io_return lp else loop_scheduleNext deps ses lp))"

text \<open>
  The loop beside its session: the timer fires, the beat settles, the runner starts or stops the
  loop or uses the session, in any order the timers and promises allow.
\<close>

inductive loop_step ::
  "'w lease_session_deps \<Rightarrow> heartbeat_loop \<times> lease_session \<times> 'w \<Rightarrow> heartbeat_loop \<times> lease_session \<times> 'w \<Rightarrow> bool"
  for deps where
  start: "run_state (loop_start deps ses lp) w = (Inr lp', w') \<Longrightarrow> loop_step deps (lp, ses, w) (lp', ses, w')"
| stop: "loop_step deps (lp, ses, w) (loop_stop lp, ses, w)"
| fire: "lp_timer lp \<noteq> None \<Longrightarrow> loop_step deps (lp, ses, w) (loop_fire lp, ses, w)"
| settled: "lp_beating lp \<Longrightarrow> run_state (session_heartbeatOnce deps ses) w = (Inr (h, ses'), w1) \<Longrightarrow>
     run_state (loop_settle deps True ses' lp) w1 = (Inr lp', w') \<Longrightarrow>
     loop_step deps (lp, ses, w) (lp', ses', w')"
| rejected: "lp_beating lp \<Longrightarrow> run_state (session_heartbeatOnce deps ses) w = (Inl e, w1) \<Longrightarrow>
     run_state (loop_settle deps False ses lp) w1 = (Inr lp', w') \<Longrightarrow>
     loop_step deps (lp, ses, w) (lp', ses, w')"
| runner: "loop_step deps (lp, ses, w) (lp, ses', w')"

definition loop_inv :: "heartbeat_loop \<Rightarrow> bool" where
  "loop_inv lp \<longleftrightarrow>
     (lp_timer lp \<noteq> None \<longrightarrow> lp_started lp \<and> \<not> lp_beating lp)
     \<and> (lp_beating lp \<longrightarrow> lp_started lp)
     \<and> (isRunning lp \<longrightarrow> lp_timer lp \<noteq> None \<or> lp_beating lp)
     \<and> (lp_losses lp \<noteq> [] \<longrightarrow> lp_stopped lp \<and> lp_started lp \<and> lp_timer lp = None \<and> \<not> lp_beating lp)
     \<and> length (lp_losses lp) \<le> 1
     \<and> (\<forall>d. lp_timer lp = Some d \<longrightarrow> 0 \<le> d \<and> d \<le> LEASE_HEARTBEAT_INTERVAL_MS)"

lemma delay_bounds:
  "0 \<le> heartbeatDelayMs st now \<and> heartbeatDelayMs st now \<le> LEASE_HEARTBEAT_INTERVAL_MS"
  by (simp add: heartbeatDelayMs_def LEASE_HEARTBEAT_INTERVAL_MS_def Let_def)

lemma scheduleNext_result:
  assumes "run_state (loop_scheduleNext deps ses lp) w = (Inr lp', w')"
  shows "\<exists>d. lp' = lp\<lparr>lp_timer := Some d\<rparr> \<and> 0 \<le> d \<and> d \<le> LEASE_HEARTBEAT_INTERVAL_MS"
  using assms delay_bounds
  by (auto simp: loop_scheduleNext_def session_nextHeartbeatDelayMs_def LEASE_HEARTBEAT_INTERVAL_MS_def
      split: session_phase.splits sum.splits prod.splits)

lemma loop_settle_inv:
  assumes "loop_inv lp" and "lp_beating lp" and "run_state (loop_settle deps held ses lp) w = (Inr lp', w')"
  shows "loop_inv lp'"
proof -
  from assms(1,2) have idle: "lp_timer lp = None" "lp_losses lp = []" "lp_started lp"
    by (auto simp: loop_inv_def)
  show ?thesis
  proof (cases "held \<and> ses_loss ses = None \<and> \<not> lp_stopped lp")
    case True
    with assms(3) have "run_state (loop_scheduleNext deps ses (lp\<lparr>lp_beating := False\<rparr>)) w = (Inr lp', w')"
      by (simp add: loop_settle_def Let_def)
    from scheduleNext_result [OF this] True idle show ?thesis by (auto simp: loop_inv_def isRunning_def)
  next
    case False
    with assms(3) idle show ?thesis
      by (auto simp: loop_settle_def Let_def loop_inv_def isRunning_def split: option.splits if_splits)
  qed
qed

lemma loop_step_inv: "loop_step deps x y \<Longrightarrow> loop_inv (fst x) \<Longrightarrow> loop_inv (fst y)"
proof (induction rule: loop_step.induct)
  case (start ses lp w lp' w')
  then have fresh: "\<not> lp_started lp"
    and sched: "run_state (loop_scheduleNext deps ses (lp\<lparr>lp_started := True\<rparr>)) w = (Inr lp', w')"
    by (auto simp: loop_start_def split: if_splits)
  from scheduleNext_result [OF sched] start.prems fresh show ?case
    by (auto simp: loop_inv_def isRunning_def)
next
  case (settled lp ses w h ses' w1 lp' w')
  then show ?case using loop_settle_inv by fastforce
next
  case (rejected lp ses w e w1 lp' w')
  then show ?case using loop_settle_inv by fastforce
qed (auto simp: loop_inv_def isRunning_def loop_stop_def loop_fire_def)

lemma loop_reachable_inv: "(loop_step deps)\<^sup>*\<^sup>* x y \<Longrightarrow> loop_inv (fst x) \<Longrightarrow> loop_inv (fst y)"
  by (induction rule: rtranclp_induct) (auto intro: loop_step_inv)

subsection \<open>Properties\<close>

text \<open>
  C6: an owner that acquired the lease and runs any number of heartbeats keeps it against every
  sequence of writes the other owners' lease stores can issue, whatever store calls fail, are
  ambiguous or throw: the table still shows this owner, held, the session never reports an
  ownership mismatch, and while it reports confirmed ownership it knows the stored version.
\<close>

theorem acquired_lease_is_kept:
  assumes "script_ok me w" and "wf_owner me" and "int k < MAX_SAFE_INTEGER"
    and "run_state (session_run scripted_deps me k) w = (Inr (SessionAcquired, ses), w')"
  shows "\<exists>st i. ses_phase ses = Held me st \<and> health st \<noteq> LOST_OWNERSHIP_MISMATCH
    \<and> shown_item (lw_tables w') = Some i \<and> isOwnedBy i me \<and> lease_status i = HELD
    \<and> (health st = CONFIRMED \<longrightarrow> lease_version i = known_version st)"
  using scripted.run_inv [OF assms(1-3) assms(4) [unfolded scripted_deps_def]]
  unfolding scripted.session_inv_def scripted.holds_def by blast

definition sample_owner :: lease_owner where
  "sample_owner = \<lparr>owner_kind = RUN, owner_id = ''01234567-89ab-4cde-8f01-23456789abcd'',
     owner_manifest_sha256 = replicate 64 CHR ''a''\<rparr>"

definition other_owner :: lease_owner where
  "other_owner = sample_owner\<lparr>owner_kind := TRANSPORT_PROBE\<rparr>"

definition sample_world :: lease_world where
  "sample_world =
     \<lparr>lw_tables = (\<lambda>_ _. None),
      lw_calls = [calm, calm\<lparr>env_foreign := [(other_owner, PutIfAbsent 7), (other_owner, Release 1 8)]\<rparr>],
      lw_now = 0, lw_ticks = [], lw_wall = [0, 30000]\<rparr>"

lemma sample_instants:
  "formatUtcMillis 0 = Inr (toISOString 0)" "formatUtcMillis 30000 = Inr (toISOString 30000)"
  "formatUtcMillis 7 = Inr (toISOString 7)" "formatUtcMillis 8 = Inr (toISOString 8)"
  "leaseExpiry (toISOString 0) = Inr (toISOString 300000)"
  "leaseExpiry (toISOString 7) = Inr (toISOString 300007)"
  "leaseExpiry (toISOString 30000) = Inr (toISOString 330000)"
  by (simp_all add: formatUtcMillis_eq leaseExpiry_def instant_bounds LEASE_STALE_BOUNDARY_MS_def
     Date_parse_def isUtcMillis_toISOString)

lemmas session_evaluation =
  session_run_def session_acquire_def new_session_def scripted_deps_def session_now_def
  session_store_def scripted_now_def scripted_wall_def sample_instants guardLeaseStore_def
  createDurableLeaseStore_def guardedWrite_def guardedRead_def readLease_def acquireLease_def acquiredLeaseItem_def
  scripted_store_def scripted_write_def scripted_get_def next_call_def calm_def foreign_writes_def store_write_def
  execute_def acquire_put_def releasedHolder_def settle_acquisition_def record_event_def Let_def
  session_heartbeatOnce_def nextLeaseHealth_def LEASE_STALE_BOUNDARY_NS_def LEASE_STALE_BOUNDARY_MS_def
  NS_PER_MS_def beat_write_def updateOwnedLease_def owned_update_def ownedAt_def apply_commits_def
  set_item_def toStoredItem_def other_owner_def sample_owner_def applyUpdate_no_increments
  confirmed_def judged_def settleBeat_def

lemma sample_run_acquires:
  "\<exists>ses w'. run_state (session_run scripted_deps sample_owner 1) sample_world = (Inr (SessionAcquired, ses), w')"
  unfolding sample_world_def by (simp add: session_evaluation)

lemma sample_owner_wf: "wf_owner sample_owner"
  by (simp add: wf_owner_def sample_owner_def UUID4_PATTERN_def SHA256_HEX_PATTERN_def uuid_class_def
      is_lower_hex_def is_digit_def numeral_eq_Suc)

theorem acquired_lease_is_kept_witness:
  "\<exists>ses w' i. run_state (session_run scripted_deps sample_owner 1) sample_world = (Inr (SessionAcquired, ses), w')
     \<and> shown_item (lw_tables w') = Some i \<and> isOwnedBy i sample_owner \<and> lease_status i = HELD"
proof -
  obtain ses w' where run: "run_state (session_run scripted_deps sample_owner 1) sample_world = (Inr (SessionAcquired, ses), w')"
    using sample_run_acquires by blast
  have "script_ok sample_owner sample_world"
    by (simp add: script_ok_def sample_world_def calm_def other_owner_def sample_owner_def)
  from acquired_lease_is_kept [OF this sample_owner_wf _ run] run show ?thesis
    by (auto simp: MAX_SAFE_INTEGER_def)
qed

text \<open>
  C7: the final status a held session reports is true of the table: after \<open>released\<close> the stored
  item names this owner with status RELEASED, after \<open>recovery_required\<close> with RECOVERY_REQUIRED,
  whatever other owners wrote meanwhile and however the calls failed.
\<close>

theorem finalize_status_is_true:
  assumes "script_ok owner w" and "ses_phase ses = Held owner st"
    and "run_state (session_finalize scripted_deps closure ses) w = (Inr (status, ses'), w')"
  shows "(status = Released \<longrightarrow> slot_says owner RELEASED (lw_tables w'))
    \<and> (status = RecoveryRequired \<longrightarrow> slot_says owner RECOVERY_REQUIRED (lw_tables w'))"
  using scripted.finalize_true [OF assms(1,2) assms(3) [unfolded scripted_deps_def]] .

definition sample_item :: lease_item where
  "sample_item = (case acquiredLeaseItem sample_owner (toISOString 0) of Inr i \<Rightarrow> i)"

lemma sample_item_acquired: "acquiredLeaseItem sample_owner (toISOString 0) = Inr sample_item"
  by (simp add: sample_item_def acquiredLeaseItem_def sample_instants)

definition held_session :: lease_session where
  "held_session = new_session\<lparr>ses_phase := Held sample_owner
     \<lparr>health = CONFIRMED, known_version = 1, last_confirmed_ns = 0, last_confirmed_at = toISOString 0\<rparr>\<rparr>"

definition held_world :: lease_world where
  "held_world = sample_world\<lparr>lw_calls := [calm\<lparr>env_read_error := Some ''InternalServerError''\<rparr>], lw_tables := set_item CoordinationTable LEASE_ITEM_KEY (toStoredItem sample_item) (\<lambda>_ _. None)\<rparr>"

lemma held_session_releases:
  "\<exists>ses' w'. run_state (session_finalize scripted_deps Clean held_session) held_world = (Inr (Released, ses'), w')"
  unfolding held_session_def held_world_def sample_world_def sample_item_def
  by (simp add: session_evaluation session_finalize_def finalizeOwned_def finalizeLease_def writeFinal_def
      final_write_def status_sets_def target_event_def settleFinal_def deriveFinalLeaseStatus_def
      List.map_filter_def)

theorem finalize_status_is_true_witness:
  "\<exists>w'. slot_says sample_owner RELEASED (lw_tables w')
     \<and> w' = snd (run_state (session_finalize scripted_deps Clean held_session) held_world)"
proof -
  obtain ses' w' where run: "run_state (session_finalize scripted_deps Clean held_session) held_world = (Inr (Released, ses'), w')"
    using held_session_releases by blast
  have "script_ok sample_owner held_world" by (simp add: script_ok_def held_world_def calm_def)
  from finalize_status_is_true [OF this _ run] run show ?thesis by (simp add: held_session_def)
qed





text \<open>
  C10: in every state the heartbeat loop reaches beside its session, the listener has received at
  most one loss, after which nothing is scheduled or beating; a running loop always has a timer
  pending or a beat in flight, never both; and a pending timer fires within 30 s.
\<close>

theorem heartbeat_loop_safe:
  assumes "(loop_step deps)\<^sup>*\<^sup>* (new_loop, ses, w) (lp, ses', w')"
  shows "length (lp_losses lp) \<le> 1 \<and> (lp_losses lp \<noteq> [] \<longrightarrow> \<not> isRunning lp \<and> lp_timer lp = None \<and> \<not> lp_beating lp)
    \<and> (isRunning lp \<longrightarrow> (lp_timer lp \<noteq> None) \<noteq> lp_beating lp)
    \<and> (\<forall>d. lp_timer lp = Some d \<longrightarrow> 0 \<le> d \<and> d \<le> LEASE_HEARTBEAT_INTERVAL_MS)"
proof -
  have "loop_inv new_loop" by (simp add: loop_inv_def new_loop_def isRunning_def)
  with loop_reachable_inv [OF assms] have inv: "loop_inv lp" by simp
  then show ?thesis by (auto simp: loop_inv_def isRunning_def)
qed

theorem heartbeat_loop_safe_witness:
  "length (lp_losses (loop_fire (new_loop\<lparr>lp_started := True, lp_timer := Some 30000\<rparr>))) \<le> 1"
proof -
  let ?lp = "new_loop\<lparr>lp_started := True, lp_timer := Some 30000\<rparr>"
  have "loop_step scripted_deps (new_loop, held_session, held_world)
      (?lp, held_session, held_world\<lparr>lw_now := 0, lw_ticks := []\<rparr>)"
    by (rule loop_step.start)
      (simp add: loop_start_def loop_scheduleNext_def session_nextHeartbeatDelayMs_def scripted_deps_def
        scripted_now_def held_session_def held_world_def sample_world_def new_loop_def heartbeatDelayMs_def
        LEASE_HEARTBEAT_INTERVAL_MS_def Let_def)
  moreover have "loop_step scripted_deps (?lp, held_session, held_world\<lparr>lw_now := 0, lw_ticks := []\<rparr>)
      (loop_fire ?lp, held_session, held_world\<lparr>lw_now := 0, lw_ticks := []\<rparr>)"
    by (rule loop_step.fire) simp
  ultimately have "(loop_step scripted_deps)\<^sup>*\<^sup>* (new_loop, held_session, held_world)
      (loop_fire ?lp, held_session, held_world\<lparr>lw_now := 0, lw_ticks := []\<rparr>)"
    by (meson converse_rtranclp_into_rtranclp rtranclp.rtrancl_refl)
  from heartbeat_loop_safe [OF this] show ?thesis by blast
qed

text \<open>
  C13: a stored item decodes exactly when it has the members of a well-formed lease item and no
  others; the item it decodes to is that one, so decoding inverts storing.
\<close>

theorem decodeLeaseItem_iff:
  "decodeLeaseItem s = Inr i \<longleftrightarrow> wf_lease_item i \<and> own_member s = own_member (toStoredItem i)"
  using decode_wf decode_members decode_cong decode_toStoredItem by metis

end
