(* ===== verification/Settlement.thy ===== *)
theory Settlement
  imports Json_Values
begin

text \<open>
  The settlement evaluator (\<^verbatim>\<open>settlement/\<close>): the activity a sample shows, and the search for a
  quiet stabilization window followed by a quiet pre-freeze recheck before the deadline.
\<close>

subsection \<open>Samples and policy\<close>

datatype restart_cause =
    SOURCE_VISIBLE | SOURCE_IN_FLIGHT | SOURCE_DELAYED | NEW_CORRELATED_DLQ_MESSAGE
  | UNCAPTURED_DLQ_MESSAGE | CORRELATED_JOURNAL_ACTIVITY | LEDGER_ACTIVITY | PROVIDER_ACTIVE
  | PROCESSING_NOT_TERMINAL | INNER_EXECUTION_ACTIVE | TREATMENT_NOT_TERMINAL | QUEUE_UNAVAILABLE
  | PRE_FREEZE_ACTIVITY

definition SETTLEMENT_RESTART_CAUSES :: "restart_cause list" where
  "SETTLEMENT_RESTART_CAUSES =
     [SOURCE_VISIBLE, SOURCE_IN_FLIGHT, SOURCE_DELAYED, NEW_CORRELATED_DLQ_MESSAGE,
      UNCAPTURED_DLQ_MESSAGE, CORRELATED_JOURNAL_ACTIVITY, LEDGER_ACTIVITY, PROVIDER_ACTIVE,
      PROCESSING_NOT_TERMINAL, INNER_EXECUTION_ACTIVE, TREATMENT_NOT_TERMINAL, QUEUE_UNAVAILABLE,
      PRE_FREEZE_ACTIVITY]"

datatype sample_phase = Observation | PreFreezeRecheck

record queue_counters =
  visible :: int
  in_flight :: int
  delayed :: int

datatype queue_reading = Counters queue_counters | CountersNotApplicable | CountersUnavailable

text \<open>A terminal flag is \<^verbatim>\<open>boolean | 'not_applicable'\<close>: \<open>None\<close> is the marker.\<close>

record settlement_sample =
  observed_at :: utc_millis
  sample_phase :: sample_phase
  publication_stopped :: bool
  processing_terminal :: bool
  inner_executions_terminal :: "bool option"
  provider_active_calls :: int
  provider_held_barriers :: int
  provider_pending_releases :: int
  treatment_terminal :: "bool option"
  ledger_snapshot_possible :: bool
  source_queue :: queue_reading
  dlq :: queue_reading
  correlated_dlq_message_ids :: "string list"
  dlq_captured_message_ids :: "string list"
  correlated_event_watermark :: int
  ledger_item_count :: int

record settlement_policy =
  stabilization_ms :: int
  observation_deadline_ms :: int
  poll_interval_ms :: int

definition TRIAL_SETTLEMENT_POLICY :: settlement_policy where
  "TRIAL_SETTLEMENT_POLICY =
     \<lparr>stabilization_ms = 120000, observation_deadline_ms = 600000, poll_interval_ms = 30000\<rparr>"

definition PROBE_SETTLEMENT_POLICY :: settlement_policy where
  "PROBE_SETTLEMENT_POLICY =
     \<lparr>stabilization_ms = 120000, observation_deadline_ms = 600000, poll_interval_ms = 30000\<rparr>"

record settlement_restart =
  restart_at :: utc_millis
  restart_cause :: restart_cause

datatype settlement_assessment =
    Established (window_start_at: utc_millis) (established_at: utc_millis) (rechecked_at: utc_millis)
      (assessment_restarts: "settlement_restart list")
  | NotEstablished "structured_reason list" (assessment_restarts: "settlement_restart list")

subsection \<open>Activity\<close>

fun sourceQueueCauses :: "queue_reading \<Rightarrow> restart_cause list" where
  "sourceQueueCauses (Counters c) =
     when_list (0 < visible c) SOURCE_VISIBLE @ when_list (0 < in_flight c) SOURCE_IN_FLIGHT
     @ when_list (0 < delayed c) SOURCE_DELAYED"
| "sourceQueueCauses _ = []"

definition hasUncapturedDlqMessage :: "settlement_sample \<Rightarrow> bool" where
  "hasUncapturedDlqMessage s \<longleftrightarrow>
     (let captured = set (dlq_captured_message_ids s)
      in list_ex (\<lambda>i. i \<notin> captured) (correlated_dlq_message_ids s)
         \<or> (case dlq s of
              Counters c \<Rightarrow> int (length (remdups (dlq_captured_message_ids s))) < visible c + in_flight c + delayed c
            | _ \<Rightarrow> False))"

definition providerIdle :: "settlement_sample \<Rightarrow> bool" where
  "providerIdle s \<longleftrightarrow>
     provider_active_calls s = 0 \<and> provider_held_barriers s = 0 \<and> provider_pending_releases s = 0"

definition quietViolations :: "settlement_sample \<Rightarrow> restart_cause list" where
  "quietViolations s =
     sourceQueueCauses (source_queue s)
     @ when_list (hasUncapturedDlqMessage s) UNCAPTURED_DLQ_MESSAGE
     @ when_list (\<not> ledger_snapshot_possible s) LEDGER_ACTIVITY
     @ when_list (\<not> providerIdle s) PROVIDER_ACTIVE
     @ when_list (\<not> (processing_terminal s \<and> publication_stopped s)) PROCESSING_NOT_TERMINAL
     @ when_list (inner_executions_terminal s = Some False) INNER_EXECUTION_ACTIVE
     @ when_list (treatment_terminal s = Some False) TREATMENT_NOT_TERMINAL
     @ when_list (source_queue s = CountersUnavailable \<or> dlq s = CountersUnavailable) QUEUE_UNAVAILABLE"

fun changesSince :: "settlement_sample \<Rightarrow> settlement_sample option \<Rightarrow> restart_cause list" where
  "changesSince s None = []"
| "changesSince s (Some previous) =
     when_list (list_ex (\<lambda>i. i \<notin> set (correlated_dlq_message_ids previous)) (correlated_dlq_message_ids s))
       NEW_CORRELATED_DLQ_MESSAGE
     @ when_list (correlated_event_watermark previous < correlated_event_watermark s) CORRELATED_JOURNAL_ACTIVITY
     @ when_list (ledger_item_count s \<noteq> ledger_item_count previous) LEDGER_ACTIVITY"

definition activityCauses :: "settlement_sample \<Rightarrow> settlement_sample option \<Rightarrow> restart_cause list" where
  "activityCauses s previous =
     (let active = set (quietViolations s @ changesSince s previous)
      in filter (\<lambda>c. c \<in> active) SETTLEMENT_RESTART_CAUSES)"

subsection \<open>The evaluator\<close>

record timed_sample =
  timed_of :: settlement_sample
  at_ms :: int

definition inObservationOrder :: "settlement_sample list \<Rightarrow> timed_sample list" where
  "inObservationOrder samples =
     sort_key at_ms (map (\<lambda>s. \<lparr>timed_of = s, at_ms = Date_parse (observed_at s)\<rparr>) samples)"

record settlement_scan =
  scan_previous :: "settlement_sample option"
  scan_window :: "timed_sample option"
  scan_quiet :: "timed_sample option"
  scan_last :: "restart_cause list option"
  scan_restarts :: "settlement_restart list"

definition scan_start :: settlement_scan where
  "scan_start = \<lparr>scan_previous = None, scan_window = None, scan_quiet = None, scan_last = None, scan_restarts = []\<rparr>"

text \<open>One pass of the loop body: the next state, or the \<^verbatim>\<open>return\<close> of an established settlement.\<close>

definition scan_step :: "settlement_policy \<Rightarrow> settlement_scan \<Rightarrow> timed_sample \<Rightarrow> settlement_scan + settlement_assessment" where
  "scan_step policy st timed =
     (let s = timed_of timed; causes = activityCauses s (scan_previous st)
      in case causes of
           firstCause # _ \<Rightarrow>
             (let cause = (if sample_phase s = PreFreezeRecheck then PRE_FREEZE_ACTIVITY else firstCause)
              in Inl \<lparr>scan_previous = Some s, scan_window = None, scan_quiet = None, scan_last = Some causes,
                      scan_restarts = scan_restarts st @ [\<lparr>restart_at = observed_at s, restart_cause = cause\<rparr>]\<rparr>)
         | [] \<Rightarrow>
             (case (sample_phase s, scan_window st, scan_quiet st) of
                (PreFreezeRecheck, Some w, Some q) \<Rightarrow>
                  Inr (Established (observed_at (timed_of w)) (observed_at (timed_of q)) (observed_at s) (scan_restarts st))
              | _ \<Rightarrow>
                  (let w = (case scan_window st of None \<Rightarrow> timed | Some w \<Rightarrow> w)
                   in Inl (st\<lparr>scan_previous := Some s, scan_window := Some w,
                          scan_quiet := (if sample_phase s = Observation \<and> stabilization_ms policy \<le> at_ms timed - at_ms w
                                         then Some timed else scan_quiet st)\<rparr>))))"

fun scan_samples ::
  "settlement_policy \<Rightarrow> settlement_scan \<Rightarrow> timed_sample list \<Rightarrow> settlement_scan + settlement_assessment" where
  "scan_samples policy st [] = Inl st"
| "scan_samples policy st (t # ts) =
     (case scan_step policy st t of Inl st' \<Rightarrow> scan_samples policy st' ts | Inr a \<Rightarrow> Inr a)"

fun cause_text :: "restart_cause \<Rightarrow> string" where
  "cause_text SOURCE_VISIBLE = ''SOURCE_VISIBLE''"
| "cause_text SOURCE_IN_FLIGHT = ''SOURCE_IN_FLIGHT''"
| "cause_text SOURCE_DELAYED = ''SOURCE_DELAYED''"
| "cause_text NEW_CORRELATED_DLQ_MESSAGE = ''NEW_CORRELATED_DLQ_MESSAGE''"
| "cause_text UNCAPTURED_DLQ_MESSAGE = ''UNCAPTURED_DLQ_MESSAGE''"
| "cause_text CORRELATED_JOURNAL_ACTIVITY = ''CORRELATED_JOURNAL_ACTIVITY''"
| "cause_text LEDGER_ACTIVITY = ''LEDGER_ACTIVITY''"
| "cause_text PROVIDER_ACTIVE = ''PROVIDER_ACTIVE''"
| "cause_text PROCESSING_NOT_TERMINAL = ''PROCESSING_NOT_TERMINAL''"
| "cause_text INNER_EXECUTION_ACTIVE = ''INNER_EXECUTION_ACTIVE''"
| "cause_text TREATMENT_NOT_TERMINAL = ''TREATMENT_NOT_TERMINAL''"
| "cause_text QUEUE_UNAVAILABLE = ''QUEUE_UNAVAILABLE''"
| "cause_text PRE_FREEZE_ACTIVITY = ''PRE_FREEZE_ACTIVITY''"

definition notEstablishedReasons :: "restart_cause list option \<Rightarrow> structured_reason list" where
  "notEstablishedReasons last_causes =
     (case last_causes of
        None \<Rightarrow> [mk_reason ''DEADLINE'' ''BR-RUA-032'']
      | Some causes \<Rightarrow> map (\<lambda>c. mk_reason (cause_text c) ''BR-RUA-032'') causes)"

definition judged_samples :: "settlement_sample list \<Rightarrow> settlement_policy \<Rightarrow> utc_millis \<Rightarrow> timed_sample list" where
  "judged_samples samples policy publishedAt =
     filter (\<lambda>t. at_ms t \<le> Date_parse publishedAt + observation_deadline_ms policy) (inObservationOrder samples)"

definition evaluateSettlement ::
  "settlement_sample list \<Rightarrow> settlement_policy \<Rightarrow> utc_millis \<Rightarrow> settlement_assessment" where
  "evaluateSettlement samples policy publishedAt =
     (case scan_samples policy scan_start (judged_samples samples policy publishedAt) of
        Inr a \<Rightarrow> a
      | Inl st \<Rightarrow> NotEstablished (notEstablishedReasons (scan_last st)) (scan_restarts st))"

subsection \<open>The window the evaluator looks for\<close>

definition active_at :: "timed_sample list \<Rightarrow> nat \<Rightarrow> bool" where
  "active_at ts k \<longleftrightarrow>
     activityCauses (timed_of (ts ! k)) (if k = 0 then None else Some (timed_of (ts ! (k - 1)))) \<noteq> []"

text \<open>
  Positions \<open>w \<le> q < r\<close> of a stabilization window: no activity from \<open>w\<close> to \<open>r\<close>, an observation at
  \<open>q\<close> at least the stabilization time after \<open>w\<close>, and the pre-freeze recheck at \<open>r\<close>.
\<close>

definition settled_at :: "settlement_policy \<Rightarrow> timed_sample list \<Rightarrow> nat \<Rightarrow> nat \<Rightarrow> nat \<Rightarrow> bool" where
  "settled_at policy ts w q r \<longleftrightarrow>
     w \<le> q \<and> q < r \<and> r < length ts \<and> (\<forall>k. w \<le> k \<and> k \<le> r \<longrightarrow> \<not> active_at ts k)
     \<and> sample_phase (timed_of (ts ! q)) = Observation \<and> sample_phase (timed_of (ts ! r)) = PreFreezeRecheck
     \<and> stabilization_ms policy \<le> at_ms (ts ! q) - at_ms (ts ! w)"

text \<open>What the scan knows after \<open>k\<close> samples.\<close>

definition quiet_since :: "timed_sample list \<Rightarrow> nat \<Rightarrow> nat \<Rightarrow> bool" where
  "quiet_since ts w k \<longleftrightarrow> w < k \<and> (\<forall>j. w \<le> j \<and> j < k \<longrightarrow> \<not> active_at ts j) \<and> (w = 0 \<or> active_at ts (w - 1))"

definition quiet_ok :: "settlement_policy \<Rightarrow> timed_sample list \<Rightarrow> nat \<Rightarrow> nat \<Rightarrow> timed_sample option \<Rightarrow> bool" where
  "quiet_ok policy ts w k quiet \<longleftrightarrow>
     (case quiet of
        None \<Rightarrow> (\<forall>q. w \<le> q \<and> q < k \<and> sample_phase (timed_of (ts ! q)) = Observation \<longrightarrow>
                  at_ms (ts ! q) - at_ms (ts ! w) < stabilization_ms policy)
      | Some u \<Rightarrow> (\<exists>q. w \<le> q \<and> q < k \<and> u = ts ! q \<and> sample_phase (timed_of (ts ! q)) = Observation
                  \<and> stabilization_ms policy \<le> at_ms (ts ! q) - at_ms (ts ! w)))"

definition scan_inv :: "settlement_policy \<Rightarrow> timed_sample list \<Rightarrow> nat \<Rightarrow> settlement_scan \<Rightarrow> bool" where
  "scan_inv policy ts k st \<longleftrightarrow>
     scan_previous st = (if k = 0 then None else Some (timed_of (ts ! (k - 1))))
     \<and> (case scan_window st of
          None \<Rightarrow> scan_quiet st = None \<and> (k = 0 \<or> active_at ts (k - 1))
        | Some t \<Rightarrow> (\<exists>w. quiet_since ts w k \<and> t = ts ! w \<and> quiet_ok policy ts w k (scan_quiet st)))"

lemma scan_invI_active:
  assumes "scan_previous st = Some (timed_of (ts ! k))" and "scan_window st = None" and "scan_quiet st = None"
    and "active_at ts k"
  shows "scan_inv policy ts (Suc k) st"
  using assms by (simp add: scan_inv_def)

lemma quiet_since_Suc: "quiet_since ts w k \<Longrightarrow> \<not> active_at ts k \<Longrightarrow> quiet_since ts w (Suc k)"
  by (auto simp: quiet_since_def less_Suc_eq)

lemma quiet_since_start: "k = 0 \<or> active_at ts (k - 1) \<Longrightarrow> \<not> active_at ts k \<Longrightarrow> quiet_since ts k (Suc k)"
  by (auto simp: quiet_since_def less_Suc_eq_le)

lemma quiet_since_unique: "quiet_since ts w k \<Longrightarrow> quiet_since ts w' k \<Longrightarrow> w = w'"
proof (induction w w' rule: linorder_wlog)
  case (le w w')
  then show ?case
    by (cases "w = w'") (force simp: quiet_since_def dest: spec [of _ "w' - 1"])+
qed (simp add: eq_commute)

lemma scan_step_active:
  assumes "scan_inv policy ts k st" and "active_at ts k"
  shows "\<exists>st'. scan_step policy st (ts ! k) = Inl st' \<and> scan_inv policy ts (Suc k) st'"
proof -
  have "activityCauses (timed_of (ts ! k)) (scan_previous st) \<noteq> []"
    using assms by (auto simp: scan_inv_def active_at_def)
  then obtain c cs where "activityCauses (timed_of (ts ! k)) (scan_previous st) = c # cs"
    by (cases "activityCauses (timed_of (ts ! k)) (scan_previous st)") auto
  then show ?thesis using assms(2) by (auto simp: scan_step_def Let_def intro!: scan_invI_active)
qed

lemma quiet_ok_step:
  assumes "quiet_ok policy ts w k quiet \<or> (w = k \<and> quiet = None)" and "w \<le> k"
  shows "quiet_ok policy ts w (Suc k)
    (if sample_phase (timed_of (ts ! k)) = Observation \<and> stabilization_ms policy \<le> at_ms (ts ! k) - at_ms (ts ! w)
     then Some (ts ! k) else quiet)"
  using assms by (auto simp: quiet_ok_def less_Suc_eq split: option.splits)

lemma scan_step_continues:
  assumes "scan_inv policy ts k st" and "\<not> active_at ts k"
    and "\<not> (sample_phase (timed_of (ts ! k)) = PreFreezeRecheck \<and> scan_quiet st \<noteq> None)"
  shows "\<exists>st'. scan_step policy st (ts ! k) = Inl st' \<and> scan_inv policy ts (Suc k) st' \<and> scan_window st' \<noteq> None"
proof -
  have none: "activityCauses (timed_of (ts ! k)) (scan_previous st) = []"
    using assms by (auto simp: scan_inv_def active_at_def)
  let ?t = "case scan_window st of None \<Rightarrow> ts ! k | Some w \<Rightarrow> w"
  obtain w where w: "quiet_since ts w (Suc k)" "w \<le> k" "?t = ts ! w"
    and q: "quiet_ok policy ts w k (scan_quiet st) \<or> (w = k \<and> scan_quiet st = None)"
  proof (cases "scan_window st")
    case None
    with assms(1) have start: "k = 0 \<or> active_at ts (k - 1)" "scan_quiet st = None" by (simp_all add: scan_inv_def)
    show ?thesis by (rule that [OF quiet_since_start [OF start(1) assms(2)]]) (simp_all add: None start(2))
  next
    case (Some t)
    with assms(1) obtain w where "quiet_since ts w k" "t = ts ! w" "quiet_ok policy ts w k (scan_quiet st)"
      by (auto simp: scan_inv_def)
    then show ?thesis
      by (intro that [OF quiet_since_Suc [OF _ assms(2)], of w]) (simp_all add: Some quiet_since_def)
  qed
  have "scan_step policy st (ts ! k) = Inl (st\<lparr>scan_previous := Some (timed_of (ts ! k)), scan_window := Some ?t,
      scan_quiet := (if sample_phase (timed_of (ts ! k)) = Observation \<and> stabilization_ms policy \<le> at_ms (ts ! k) - at_ms ?t
                     then Some (ts ! k) else scan_quiet st)\<rparr>)"
    using none assms(3) by (auto simp: scan_step_def Let_def split: sample_phase.splits option.splits)
  with quiet_ok_step [OF q w(2)] w(1,3) show ?thesis by (auto simp: scan_inv_def)
qed

lemma scan_step_establishes:
  assumes "scan_inv policy ts k st" and "\<not> active_at ts k"
    and "sample_phase (timed_of (ts ! k)) = PreFreezeRecheck" and "scan_quiet st \<noteq> None"
  shows "\<exists>w q. scan_step policy st (ts ! k) =
          Inr (Established (observed_at (timed_of (ts ! w))) (observed_at (timed_of (ts ! q)))
                 (observed_at (timed_of (ts ! k))) (scan_restarts st))
        \<and> quiet_since ts w k \<and> w \<le> q \<and> q < k \<and> sample_phase (timed_of (ts ! q)) = Observation
        \<and> stabilization_ms policy \<le> at_ms (ts ! q) - at_ms (ts ! w)"
proof -
  have none: "activityCauses (timed_of (ts ! k)) (scan_previous st) = []"
    using assms by (auto simp: scan_inv_def active_at_def)
  from assms(1,4) obtain u t where u: "scan_quiet st = Some u" "scan_window st = Some t"
    by (auto simp: scan_inv_def split: option.splits)
  with assms(1) obtain w where w: "quiet_since ts w k" "t = ts ! w" "quiet_ok policy ts w k (Some u)"
    by (auto simp: scan_inv_def)
  then obtain q where "w \<le> q" "q < k" "u = ts ! q" "sample_phase (timed_of (ts ! q)) = Observation"
    "stabilization_ms policy \<le> at_ms (ts ! q) - at_ms (ts ! w)" by (auto simp: quiet_ok_def)
  with w u none assms(3) show ?thesis
    by (intro exI [of _ w] exI [of _ q]) (simp add: scan_step_def Let_def)
qed

text \<open>The scan from position \<open>k\<close> on: it establishes a settled window, or there is none left.\<close>

lemma scan_sound:
  assumes "scan_inv policy ts k st" and "k \<le> length ts" and "scan_samples policy st (drop k ts) = Inr a"
  shows "\<exists>w q r rs. settled_at policy ts w q r
    \<and> a = Established (observed_at (timed_of (ts ! w))) (observed_at (timed_of (ts ! q))) (observed_at (timed_of (ts ! r))) rs"
  using assms
proof (induction "length ts - k" arbitrary: k st)
  case 0
  then show ?case by simp
next
  case (Suc n)
  then have k: "k < length ts" by simp
  then have drop: "drop k ts = ts ! k # drop (Suc k) ts" by (simp add: Cons_nth_drop_Suc)
  consider (active) "active_at ts k"
    | (go) "\<not> active_at ts k" "\<not> (sample_phase (timed_of (ts ! k)) = PreFreezeRecheck \<and> scan_quiet st \<noteq> None)"
    | (fin) "\<not> active_at ts k" "sample_phase (timed_of (ts ! k)) = PreFreezeRecheck" "scan_quiet st \<noteq> None" by blast
  then show ?case
  proof cases
    case active
    with scan_step_active [OF Suc.prems(1)] obtain st' where st': "scan_step policy st (ts ! k) = Inl st'"
      "scan_inv policy ts (Suc k) st'" by blast
    with Suc.prems(3) drop have "scan_samples policy st' (drop (Suc k) ts) = Inr a" by simp
    with Suc.hyps(1) [of "Suc k"] Suc.hyps(2) k st' show ?thesis by simp
  next
    case go
    with scan_step_continues [OF Suc.prems(1)] obtain st' where st': "scan_step policy st (ts ! k) = Inl st'"
      "scan_inv policy ts (Suc k) st'" by blast
    with Suc.prems(3) drop have "scan_samples policy st' (drop (Suc k) ts) = Inr a" by simp
    with Suc.hyps(1) [of "Suc k"] Suc.hyps(2) k st' show ?thesis by simp
  next
    case fin
    with scan_step_establishes [OF Suc.prems(1)] obtain w q where
      e: "scan_step policy st (ts ! k) = Inr (Established (observed_at (timed_of (ts ! w)))
        (observed_at (timed_of (ts ! q))) (observed_at (timed_of (ts ! k))) (scan_restarts st))"
      and wq: "quiet_since ts w k" "w \<le> q" "q < k" "sample_phase (timed_of (ts ! q)) = Observation"
        "stabilization_ms policy \<le> at_ms (ts ! q) - at_ms (ts ! w)" by blast
    have "settled_at policy ts w q k"
      using wq fin k by (auto simp: settled_at_def quiet_since_def le_less)
    with e Suc.prems(3) drop show ?thesis by auto
  qed
qed

lemma quiet_before_settled:
  assumes "scan_inv policy ts k st" and "settled_at policy ts w q k" and "sorted (map at_ms ts)"
  shows "scan_quiet st \<noteq> None"
proof
  assume none: "scan_quiet st = None"
  from assms(2) have wq: "w \<le> q" "q < k" "k < length ts" and quiet: "\<And>j. w \<le> j \<Longrightarrow> j \<le> k \<Longrightarrow> \<not> active_at ts j"
    and stab: "stabilization_ms policy \<le> at_ms (ts ! q) - at_ms (ts ! w)"
    and obs: "sample_phase (timed_of (ts ! q)) = Observation" by (auto simp: settled_at_def)
  have "\<not> (k = 0 \<or> active_at ts (k - 1))" using quiet [of "k - 1"] wq by auto
  with assms(1) obtain w0 where w0: "quiet_since ts w0 k" "quiet_ok policy ts w0 k None"
    using none by (auto simp: scan_inv_def split: option.splits)
  have "w0 \<le> w"
  proof (rule ccontr)
    assume "\<not> w0 \<le> w"
    with w0(1) have "active_at ts (w0 - 1)" "w \<le> w0 - 1" "w0 - 1 \<le> k" by (auto simp: quiet_since_def)
    with quiet show False by blast
  qed
  then have "at_ms (ts ! w0) \<le> at_ms (ts ! w)"
    using sorted_nth_mono [OF assms(3), of w0 w] wq by simp
  moreover have "at_ms (ts ! q) - at_ms (ts ! w0) < stabilization_ms policy"
    using w0(2) obs wq \<open>w0 \<le> w\<close> by (simp add: quiet_ok_def)
  ultimately show False using stab by linarith
qed

lemma scan_complete:
  assumes "scan_inv policy ts k st" and "k \<le> length ts" and "sorted (map at_ms ts)"
    and "scan_samples policy st (drop k ts) = Inl st'" and "settled_at policy ts w q r"
  shows "r < k"
  using assms(1,2,4)
proof (induction "length ts - k" arbitrary: k st)
  case 0
  with assms(5) show ?case by (auto simp: settled_at_def)
next
  case (Suc n)
  then have k: "k < length ts" by simp
  then have drop: "drop k ts = ts ! k # drop (Suc k) ts" by (simp add: Cons_nth_drop_Suc)
  have not_here: "r \<noteq> k"
  proof
    assume r: "r = k"
    with assms(5) have "\<not> active_at ts k" "sample_phase (timed_of (ts ! k)) = PreFreezeRecheck"
      by (auto simp: settled_at_def)
    with scan_step_establishes [OF Suc.prems(1)] quiet_before_settled [OF Suc.prems(1) _ assms(3)] assms(5) r
    show False using Suc.prems(3) drop by fastforce
  qed
  have "\<exists>st2. scan_step policy st (ts ! k) = Inl st2 \<and> scan_inv policy ts (Suc k) st2"
    using scan_step_active [OF Suc.prems(1)] scan_step_continues [OF Suc.prems(1)]
      scan_step_establishes [OF Suc.prems(1)] Suc.prems(3) drop by fastforce
  then obtain st2 where st2: "scan_step policy st (ts ! k) = Inl st2" "scan_inv policy ts (Suc k) st2" by blast
  with Suc.prems(3) drop have "scan_samples policy st2 (drop (Suc k) ts) = Inl st'" by simp
  with Suc.hyps(1) [of "Suc k"] Suc.hyps(2) k st2 have "r < Suc k" by simp
  with not_here show ?case by simp
qed

lemma scan_inv_start: "scan_inv policy ts 0 scan_start"
  by (simp add: scan_inv_def scan_start_def)

lemma judged_sorted: "sorted (map at_ms (judged_samples samples policy publishedAt))"
  by (simp add: judged_samples_def inObservationOrder_def sorted_filter)

subsection \<open>Properties\<close>

text \<open>
  C16: settlement is established exactly when the samples read before the deadline, in observation
  order, contain a window: no activity from its first sample to a pre-freeze recheck, with an
  observation at least the stabilization time after the first. The reported instants are those of
  such a window.
\<close>

theorem evaluateSettlement_iff:
  "case evaluateSettlement samples policy publishedAt of
     Established ws es rs _ \<Rightarrow>
       (let ts = judged_samples samples policy publishedAt
        in \<exists>w q r. settled_at policy ts w q r \<and> ws = observed_at (timed_of (ts ! w))
             \<and> es = observed_at (timed_of (ts ! q)) \<and> rs = observed_at (timed_of (ts ! r)))
   | NotEstablished _ _ \<Rightarrow> (\<nexists>w q r. settled_at policy (judged_samples samples policy publishedAt) w q r)"
proof (cases "scan_samples policy scan_start (judged_samples samples policy publishedAt)")
  case (Inl st)
  with scan_complete [OF scan_inv_start _ judged_sorted, of _ _ _ policy] show ?thesis
    by (fastforce simp: evaluateSettlement_def)
next
  case (Inr a)
  with scan_sound [OF scan_inv_start, of _ policy] show ?thesis
    by (fastforce simp: evaluateSettlement_def Let_def)
qed

end
