(* ===== verification/Safety.thy ===== *)
theory Safety
  imports Json_Values
begin

text \<open>
  The \<^verbatim>\<open>safety/\<close> module: exact USD arithmetic, the conservative resource plan and its cost
  estimate, the safety maximums, the safety status of a set of checks and the duration supervisor.
\<close>

subsection \<open>Exact USD amounts\<close>

definition USD_SCALE_DIGITS :: nat where
  "USD_SCALE_DIGITS = 12"

definition SCALE :: int where
  "SCALE = 10 ^ USD_SCALE_DIGITS"

definition SCALE_PER_CENT :: int where
  "SCALE_PER_CENT = SCALE div 100"

text \<open>\<^verbatim>\<open>text.split('.')\<close> of a text with at most one dot: the part before it, and the part after.\<close>

definition split_dot :: "string \<Rightarrow> string \<times> string option" where
  "split_dot s =
     (let whole = takeWhile (\<lambda>c. c \<noteq> CHR ''.'') s; rest = dropWhile (\<lambda>c. c \<noteq> CHR ''.'') s
      in (whole, if rest = [] then None else Some (tl rest)))"

definition MONEY_DECIMAL_PATTERN :: "string \<Rightarrow> bool" where
  "MONEY_DECIMAL_PATTERN s \<longleftrightarrow>
     (let (whole, fraction) = split_dot s
      in DECIMAL_STRING_PATTERN whole
         \<and> (case fraction of None \<Rightarrow> True | Some f \<Rightarrow> f \<noteq> [] \<and> list_all is_digit f))"

definition padEnd :: "nat \<Rightarrow> string \<Rightarrow> string" where
  "padEnd n s = s @ replicate (n - length s) CHR ''0''"

text \<open>\<^verbatim>\<open>replace(/0+$/, '')\<close>.\<close>

definition strip_trailing_zeros :: "string \<Rightarrow> string" where
  "strip_trailing_zeros s = rev (dropWhile (\<lambda>c. c = CHR ''0'') (rev s))"

definition scaledUsd :: "string \<Rightarrow> int option" where
  "scaledUsd s =
     (if \<not> MONEY_DECIMAL_PATTERN s then None
      else (let (whole, f) = split_dot s; fraction = (case f of None \<Rightarrow> '''' | Some x \<Rightarrow> x)
            in if USD_SCALE_DIGITS < length fraction then None
               else Some (int (parse_nat whole) * SCALE + int (parse_nat (padEnd USD_SCALE_DIGITS fraction)))))"

definition centsCeiling :: "int \<Rightarrow> string" where
  "centsCeiling scaled =
     (let cents = bigint_div (scaled + SCALE_PER_CENT - 1) SCALE_PER_CENT
      in int_text (bigint_div cents 100) @ ''.'' @ padStart 2 (int_text (bigint_mod cents 100)))"

definition exactUsd :: "int \<Rightarrow> string" where
  "exactUsd scaled =
     (let whole = int_text (bigint_div scaled SCALE);
          fraction = strip_trailing_zeros (padStart USD_SCALE_DIGITS (int_text (bigint_mod scaled SCALE)))
      in if fraction = '''' then whole else whole @ ''.'' @ fraction)"

subsection \<open>Price ceilings\<close>

datatype price_meter =
    Lambda_requests | Lambda_gb_seconds | Lambda_durable_operations | Dynamodb_write_request_units
  | Dynamodb_read_request_units | Dynamodb_stream_read_request_units | Sqs_fifo_requests
  | Sqs_standard_requests | Cloudwatch_logs_ingested_mb

record price_ceiling =
  price_meter :: price_meter
  usd_per_unit :: string

definition PRICE_CEILINGS :: "price_ceiling list" where
  "PRICE_CEILINGS =
     [\<lparr>price_meter = Lambda_requests, usd_per_unit = ''0.0000002''\<rparr>,
      \<lparr>price_meter = Lambda_gb_seconds, usd_per_unit = ''0.0000166667''\<rparr>,
      \<lparr>price_meter = Lambda_durable_operations, usd_per_unit = ''0.000008''\<rparr>,
      \<lparr>price_meter = Dynamodb_write_request_units, usd_per_unit = ''0.000000625''\<rparr>,
      \<lparr>price_meter = Dynamodb_read_request_units, usd_per_unit = ''0.000000125''\<rparr>,
      \<lparr>price_meter = Dynamodb_stream_read_request_units, usd_per_unit = ''0.0000002''\<rparr>,
      \<lparr>price_meter = Sqs_fifo_requests, usd_per_unit = ''0.0000005''\<rparr>,
      \<lparr>price_meter = Sqs_standard_requests, usd_per_unit = ''0.0000004''\<rparr>,
      \<lparr>price_meter = Cloudwatch_logs_ingested_mb, usd_per_unit = ''0.0005''\<rparr>]"

subsection \<open>The resource plan\<close>

record planned_usage =
  usage_meter :: price_meter
  quantity :: js_number

record resource_plan =
  usage :: "planned_usage list"
  resource_counts :: "(string \<times> int) list"

record resource_plan_input =
  plan_kind :: execution_kind
  plan_variant :: "variant_id option"
  plan_active_ms :: int
  treatment_poll_interval_ms :: int

definition deployedVariants :: "resource_plan_input \<Rightarrow> variant_id list" where
  "deployedVariants inp =
     (if plan_kind inp = RUN then [Conventional, Durable]
      else (case plan_variant inp of
              Some v \<Rightarrow> if plan_kind inp = VARIANT_VALIDATION then [v] else []
            | None \<Rightarrow> []))"

text \<open>\<^verbatim>\<open>Math.ceil(a / b)\<close>: an integer, or an infinity or NaN when \<open>b\<close> is zero.\<close>

definition ceil_div :: "int \<Rightarrow> int \<Rightarrow> js_number" where
  "ceil_div a b =
     (if b \<noteq> 0 then JsInt \<lceil>of_int a / (of_int b :: rat)\<rceil> else if a = 0 then NaN else Infinite (0 < a))"

fun times_number :: "int \<Rightarrow> js_number \<Rightarrow> js_number" where
  "times_number k (Num q) = Num (of_int k * q)"
| "times_number k (Infinite s) = (if k = 0 then NaN else Infinite (s = (0 < k)))"
| "times_number k NaN = NaN"

definition planExecutionResources :: "resource_plan_input \<Rightarrow> resource_plan" where
  "planExecutionResources inp =
     (let variants = deployedVariants inp;
          functions = 2 + int (length variants) + (if plan_kind inp = TRANSPORT_PROBE then 1 else 0);
          fifoQueues = 2 * int (length variants);
          activeSeconds = \<lceil>of_int (plan_active_ms inp) / (1000 :: rat)\<rceil>;
          pollsPerSecond = ceil_div 1000 (treatment_poll_interval_ms inp);
          functionSeconds = functions * activeSeconds
      in \<lparr>usage =
            [\<lparr>usage_meter = Lambda_requests, quantity = JsInt functionSeconds\<rparr>,
             \<lparr>usage_meter = Lambda_gb_seconds, quantity = ceil_div (functionSeconds * 512) 1024\<rparr>,
             \<lparr>usage_meter = Lambda_durable_operations,
              quantity = JsInt (if Durable \<in> set variants then activeSeconds else 0)\<rparr>,
             \<lparr>usage_meter = Dynamodb_write_request_units, quantity = JsInt (5 * activeSeconds)\<rparr>,
             \<lparr>usage_meter = Dynamodb_read_request_units, quantity = times_number (5 * activeSeconds) pollsPerSecond\<rparr>,
             \<lparr>usage_meter = Dynamodb_stream_read_request_units, quantity = times_number activeSeconds pollsPerSecond\<rparr>,
             \<lparr>usage_meter = Sqs_fifo_requests, quantity = JsInt (fifoQueues * 5 * activeSeconds)\<rparr>,
             \<lparr>usage_meter = Sqs_standard_requests, quantity = JsInt activeSeconds\<rparr>,
             \<lparr>usage_meter = Cloudwatch_logs_ingested_mb, quantity = ceil_div (functionSeconds * 1) 1000\<rparr>],
          resource_counts =
            [(''functions'', functions), (''tables'', 5), (''fifo_queues'', fifoQueues), (''standard_queues'', 1)]\<rparr>)"

subsection \<open>The cost estimate\<close>

record cost_line =
  line_meter :: price_meter
  line_quantity :: js_number
  line_usd_per_unit :: string
  cost_usd :: string

record cost_estimate =
  estimated_cost_usd :: string
  cost_lines :: "cost_line list"
  estimate_counts :: "(string \<times> int) list"

definition costReason :: "string \<Rightarrow> structured_reason" where
  "costReason code = mk_reason code ''BR-RUA-046''"

definition priceLine :: "price_meter \<Rightarrow> js_number \<Rightarrow> price_ceiling list \<Rightarrow> structured_reason + cost_line \<times> int" where
  "priceLine meter qty prices =
     (case filter (\<lambda>p. price_meter p = meter) prices of
        [price] \<Rightarrow>
          (case scaledUsd (usd_per_unit price) of
             None \<Rightarrow> Inl (costReason ''PRICE_CEILING_INVALID'')
           | Some unitPrice \<Rightarrow>
               if \<not> is_nonneg_safe qty then Inl (costReason ''PLANNED_QUANTITY_INVALID'')
               else (let scaled = unitPrice * int_of_number qty
                     in Inr (\<lparr>line_meter = meter, line_quantity = qty,
                              line_usd_per_unit = usd_per_unit price, cost_usd = exactUsd scaled\<rparr>, scaled)))
      | _ \<Rightarrow> Inl (costReason ''PRICE_CEILING_MISSING''))"

fun price_lines ::
  "planned_usage list \<Rightarrow> price_ceiling list \<Rightarrow> cost_line list \<Rightarrow> structured_reason list \<Rightarrow> int
   \<Rightarrow> cost_line list \<times> structured_reason list \<times> int" where
  "price_lines [] prices lines reasons acc = (lines, reasons, acc)"
| "price_lines (u # us) prices lines reasons acc =
     (case priceLine (usage_meter u) (quantity u) prices of
        Inl reason \<Rightarrow> price_lines us prices lines (reasons @ [reason]) acc
      | Inr (line, scaled) \<Rightarrow> price_lines us prices (lines @ [line]) reasons (acc + scaled))"

definition estimateAttributableCost ::
  "resource_plan \<Rightarrow> price_ceiling list \<Rightarrow> structured_reason list + cost_estimate" where
  "estimateAttributableCost plan prices =
     (let (lines, reasons, acc) = price_lines (usage plan) prices [] [] 0
      in if reasons \<noteq> [] then Inl reasons
         else Inr \<lparr>estimated_cost_usd = centsCeiling acc, cost_lines = lines, estimate_counts = resource_counts plan\<rparr>)"

definition estimateWithinCeiling :: "string \<Rightarrow> string \<Rightarrow> bool" where
  "estimateWithinCeiling estimate ceilingUsd =
     (case (scaledUsd ceilingUsd, scaledUsd estimate) of
        (Some limit, Some value) \<Rightarrow> value \<le> limit
      | _ \<Rightarrow> False)"

subsection \<open>Safety maximums, status and supervision\<close>

record safety_limits =
  active_ms :: int
  cleanup_ms :: int
  total_ms :: int
  ceiling_usd :: string
  limits_region :: string

definition SAFETY_REGION :: string where
  "SAFETY_REGION = ''us-east-1''"

definition RUN_SAFETY :: safety_limits where
  "RUN_SAFETY = \<lparr>active_ms = 4500000, cleanup_ms = 900000, total_ms = 5400000, ceiling_usd = ''5.00'',
     limits_region = SAFETY_REGION\<rparr>"

definition PROBE_SAFETY :: safety_limits where
  "PROBE_SAFETY = \<lparr>active_ms = 600000, cleanup_ms = 600000, total_ms = 1200000, ceiling_usd = ''1.00'',
     limits_region = SAFETY_REGION\<rparr>"

definition VALIDATION_SAFETY :: safety_limits where
  "VALIDATION_SAFETY = RUN_SAFETY"

fun safetyLimitsFor :: "execution_kind \<Rightarrow> safety_limits" where
  "safetyLimitsFor RUN = RUN_SAFETY"
| "safetyLimitsFor TRANSPORT_PROBE = PROBE_SAFETY"
| "safetyLimitsFor VARIANT_VALIDATION = VALIDATION_SAFETY"

record declared_safety =
  declared_region :: string
  declared_active_ms :: int
  declared_cleanup_ms :: int
  declared_total_ms :: int
  declared_ceiling_usd :: string
  concurrent_owners :: int

definition declaredSafetyOf :: "safety_limits \<Rightarrow> declared_safety" where
  "declaredSafetyOf limits =
     \<lparr>declared_region = limits_region limits, declared_active_ms = active_ms limits,
      declared_cleanup_ms = cleanup_ms limits, declared_total_ms = total_ms limits,
      declared_ceiling_usd = ceiling_usd limits, concurrent_owners = 1\<rparr>"

datatype safety_result = WithinLimits | Breached | SafetyUnverified

definition deriveSafetyStatus :: "safety_result list \<Rightarrow> safety_result" where
  "deriveSafetyStatus results =
     (if list_ex (\<lambda>r. r = Breached) results then Breached
      else if results = [] \<or> list_ex (\<lambda>r. r = SafetyUnverified) results then SafetyUnverified
      else WithinLimits)"

datatype duration_boundary = ACTIVE_TIME | TOTAL_TIME

record duration_check =
  boundary :: duration_boundary
  declared_limit :: string
  observed_text :: string
  check_result :: safety_result
  checked_at :: utc_millis

text \<open>A supervisor: its limits, the start reading and the frozen active duration.\<close>

record safety_supervisor =
  sup_limits :: safety_limits
  started_ns :: int
  active_ended_ms :: "int option"

definition elapsedMs :: "safety_supervisor \<Rightarrow> int \<Rightarrow> int" where
  "elapsedMs sv now =
     (let elapsed = now - started_ns sv in if elapsed < 0 then 0 else elapsed div 1000000)"

definition activeDeadlineReached :: "safety_supervisor \<Rightarrow> int \<Rightarrow> bool" where
  "activeDeadlineReached sv now \<longleftrightarrow> active_ms (sup_limits sv) \<le> elapsedMs sv now"

definition mayStartTrial :: "safety_supervisor \<Rightarrow> int \<Rightarrow> bool" where
  "mayStartTrial sv now \<longleftrightarrow> active_ended_ms sv = None \<and> \<not> activeDeadlineReached sv now"

definition totalTargetExceeded :: "safety_supervisor \<Rightarrow> int \<Rightarrow> bool" where
  "totalTargetExceeded sv now \<longleftrightarrow> total_ms (sup_limits sv) < elapsedMs sv now"

definition markActiveEnded :: "safety_supervisor \<Rightarrow> int \<Rightarrow> safety_supervisor" where
  "markActiveEnded sv now =
     (case active_ended_ms sv of
        None \<Rightarrow> sv\<lparr>active_ended_ms := Some (elapsedMs sv now)\<rparr>
      | Some _ \<Rightarrow> sv)"

definition durationCheck :: "duration_boundary \<Rightarrow> int \<Rightarrow> int \<Rightarrow> utc_millis \<Rightarrow> duration_check" where
  "durationCheck b limitMs observedMs checkedAt =
     \<lparr>boundary = b, declared_limit = int_text limitMs @ '' ms'', observed_text = int_text observedMs @ '' ms'',
      check_result = (if limitMs < observedMs then Breached else WithinLimits), checked_at = checkedAt\<rparr>"

definition supervisor_checks :: "safety_supervisor \<Rightarrow> int \<Rightarrow> int \<Rightarrow> js_throw + duration_check \<times> duration_check" where
  "supervisor_checks sv now wall =
     (let elapsed = elapsedMs sv now
      in case formatUtcMillis wall of
           Inl e \<Rightarrow> Inl e
         | Inr checkedAt \<Rightarrow>
             (let active = (case active_ended_ms sv of None \<Rightarrow> elapsed | Some ms \<Rightarrow> ms)
              in Inr (durationCheck ACTIVE_TIME (active_ms (sup_limits sv)) active checkedAt,
                      durationCheck TOTAL_TIME (total_ms (sup_limits sv)) elapsed checkedAt)))"

subsection \<open>Lemmas on amounts\<close>

lemma parse_append_zeros [simp]: "parse_nat (s @ replicate m CHR ''0'') = parse_nat s * 10 ^ m"
proof (induction m)
  case (Suc m)
  have "s @ replicate (Suc m) CHR ''0'' = (s @ replicate m CHR ''0'') @ [CHR ''0'']"
    by (simp add: replicate_append_same)
  then show ?case using Suc by (simp only: parse_nat_snoc) (simp add: digit_value_def)
qed simp

lemma digit_not_dot: "is_digit c \<Longrightarrow> c \<noteq> CHR ''.''"
  by (auto simp: is_digit_def)

lemma strip_trailing_zeros_split: "\<exists>m. s = strip_trailing_zeros s @ replicate m CHR ''0''"
proof -
  have "rev s = takeWhile (\<lambda>c. c = CHR ''0'') (rev s) @ dropWhile (\<lambda>c. c = CHR ''0'') (rev s)" by simp
  moreover have "takeWhile (\<lambda>c. c = CHR ''0'') (rev s) = replicate (length (takeWhile (\<lambda>c. c = CHR ''0'') (rev s))) CHR ''0''"
    by (rule replicate_eqI) (auto dest: set_takeWhileD)
  ultimately have "s = strip_trailing_zeros s @ rev (replicate (length (takeWhile (\<lambda>c. c = CHR ''0'') (rev s))) CHR ''0'')"
    unfolding strip_trailing_zeros_def by (metis rev_append rev_rev_ident)
  then show ?thesis by auto
qed

lemma padEnd_strip: "padEnd (length s) (strip_trailing_zeros s) = s"
proof -
  obtain m where m: "s = strip_trailing_zeros s @ replicate m CHR ''0''" using strip_trailing_zeros_split by blast
  then have "length s - length (strip_trailing_zeros s) = m" by (metis add_diff_cancel_left' length_append length_replicate)
  with m show ?thesis by (simp add: padEnd_def)
qed

lemma int_text_digits: "0 \<le> x \<Longrightarrow> list_all is_digit (int_text x)"
  using nat_text_digits by (simp add: int_text_def)

lemma split_dot_digits:
  assumes "list_all is_digit w"
  shows "split_dot w = (w, None)" and "split_dot (w @ CHR ''.'' # f) = (w, Some f)"
proof -
  have "\<And>x. x \<in> set w \<Longrightarrow> x \<noteq> CHR ''.''" using assms digit_not_dot by (auto simp: list_all_iff)
  then have "takeWhile (\<lambda>c. c \<noteq> CHR ''.'') w = w" "dropWhile (\<lambda>c. c \<noteq> CHR ''.'') w = []"
    "takeWhile (\<lambda>c. c \<noteq> CHR ''.'') (w @ CHR ''.'' # f) = w"
    "dropWhile (\<lambda>c. c \<noteq> CHR ''.'') (w @ CHR ''.'' # f) = CHR ''.'' # f"
    by (auto simp: takeWhile_eq_all_conv dropWhile_eq_Nil_conv takeWhile_append2 dropWhile_append2)
  then show "split_dot w = (w, None)" "split_dot (w @ CHR ''.'' # f) = (w, Some f)"
    by (simp_all add: split_dot_def Let_def)
qed

text \<open>Reading a rendered amount: the integral digits, then at most twelve fraction digits.\<close>

lemma scaledUsd_render:
  assumes "0 \<le> x" and "list_all is_digit f" and "f \<noteq> []" and "length f \<le> USD_SCALE_DIGITS"
  shows "scaledUsd (int_text x @ ''.'' @ f) = Some (x * SCALE + int (parse_nat (padEnd USD_SCALE_DIGITS f)))"
  using assms int_text_digits [of x]
  by (simp add: scaledUsd_def MONEY_DECIMAL_PATTERN_def split_dot_digits int_text_def)

lemma scaledUsd_render_whole:
  assumes "0 \<le> x"
  shows "scaledUsd (int_text x) = Some (x * SCALE)"
proof -
  have "parse_nat (padEnd USD_SCALE_DIGITS '''') = 0"
    using parse_append_zeros [of "''''" USD_SCALE_DIGITS] by (simp add: padEnd_def)
  then show ?thesis
    using assms int_text_digits [of x]
    by (simp add: scaledUsd_def MONEY_DECIMAL_PATTERN_def split_dot_digits int_text_def)
qed

lemma SCALE_facts: "SCALE = 10 ^ Suc 11" "USD_SCALE_DIGITS = Suc 11" "0 < SCALE" "SCALE = 100 * SCALE_PER_CENT"
  "0 < SCALE_PER_CENT" "SCALE_PER_CENT = 10 ^ 10"
  by (simp_all add: SCALE_def USD_SCALE_DIGITS_def SCALE_PER_CENT_def)

lemma scaledUsd_exactUsd:
  assumes x: "0 \<le> x"
  shows "scaledUsd (exactUsd x) = Some x"
proof -
  define f where "f = padStart USD_SCALE_DIGITS (int_text (x mod SCALE))"
  have m: "0 \<le> x mod SCALE" "x mod SCALE < 10 ^ Suc 11"
    using pos_mod_sign [OF SCALE_facts(3), of x] pos_mod_bound [OF SCALE_facts(3), of x] by (simp_all only: SCALE_facts(1))
  have f: "length f = USD_SCALE_DIGITS" "list_all is_digit f" "int (parse_nat f) = x mod SCALE"
    using padStart_text [OF m] by (simp_all add: f_def SCALE_facts(2))
  obtain k where k: "f = strip_trailing_zeros f @ replicate k CHR ''0''" using strip_trailing_zeros_split by blast
  have fs: "length (strip_trailing_zeros f) \<le> USD_SCALE_DIGITS" "list_all is_digit (strip_trailing_zeros f)"
    using f(1,2) by (metis k le_add1 length_append, metis k list_all_append)
  have pad: "padEnd USD_SCALE_DIGITS (strip_trailing_zeros f) = f" using padEnd_strip [of f] f(1) by simp
  have e: "exactUsd x = (if strip_trailing_zeros f = '''' then int_text (x div SCALE)
      else int_text (x div SCALE) @ ''.'' @ strip_trailing_zeros f)"
    using x SCALE_facts(3) by (simp add: exactUsd_def f_def Let_def)
  have d: "0 \<le> x div SCALE" using x SCALE_facts(3) by (simp add: pos_imp_zdiv_nonneg_iff)
  show ?thesis
  proof (cases "strip_trailing_zeros f = ''''")
    case True
    then have "parse_nat f = 0" using k parse_append_zeros [of "''''" k] by simp
    then have "x mod SCALE = 0" using f(3) by simp
    then show ?thesis using True e scaledUsd_render_whole [OF d] by (simp add: mult.commute) (metis add.right_neutral mult_div_mod_eq)
  next
    case False
    then show ?thesis
      using e scaledUsd_render [OF d fs(2) _ fs(1)] pad f(3) by (simp add: mult.commute)
  qed
qed

text \<open>The amount rounded up to whole cents, as a count of cents.\<close>

definition cents_up :: "int \<Rightarrow> int" where
  "cents_up x = (x + SCALE_PER_CENT - 1) div SCALE_PER_CENT"

lemma scaledUsd_centsCeiling:
  assumes x: "0 \<le> x"
  shows "scaledUsd (centsCeiling x) = Some (cents_up x * SCALE_PER_CENT)"
proof -
  define c where "c = cents_up x"
  have c: "0 \<le> c" using x SCALE_facts(5) by (simp add: c_def cents_up_def pos_imp_zdiv_nonneg_iff)
  define f where "f = padStart 2 (int_text (c mod 100))"
  have "c mod 100 < 10 ^ Suc 1" by simp
  from padStart_text [OF _ this] have f: "length f = 2" "list_all is_digit f" "int (parse_nat f) = c mod 100"
    by (simp_all add: f_def numeral_2_eq_2)
  have e: "centsCeiling x = int_text (c div 100) @ ''.'' @ f"
    using x c SCALE_facts(5) by (simp add: centsCeiling_def c_def [unfolded cents_up_def, symmetric] f_def Let_def)
  have "f \<noteq> []" "length f \<le> USD_SCALE_DIGITS" using f(1) by (auto simp: USD_SCALE_DIGITS_def)
  from scaledUsd_render [OF _ f(2) this] c
  have "scaledUsd (centsCeiling x) = Some (c div 100 * SCALE + int (parse_nat (padEnd USD_SCALE_DIGITS f)))"
    by (simp add: e)
  also have "int (parse_nat (padEnd USD_SCALE_DIGITS f)) = c mod 100 * SCALE_PER_CENT"
    using f(1,3) by (simp add: padEnd_def USD_SCALE_DIGITS_def SCALE_facts(6))
  also have "c div 100 * SCALE + c mod 100 * SCALE_PER_CENT = c * SCALE_PER_CENT"
    unfolding SCALE_facts(4) by (metis distrib_right div_mult_mod_eq mult.assoc)
  finally show ?thesis by (simp add: c_def)
qed

lemma cents_up_bounds: "x \<le> cents_up x * SCALE_PER_CENT \<and> cents_up x * SCALE_PER_CENT < x + SCALE_PER_CENT"
proof -
  have "(x + SCALE_PER_CENT - 1) div SCALE_PER_CENT * SCALE_PER_CENT + (x + SCALE_PER_CENT - 1) mod SCALE_PER_CENT
      = x + SCALE_PER_CENT - 1" by simp
  moreover have "0 \<le> (x + SCALE_PER_CENT - 1) mod SCALE_PER_CENT" "(x + SCALE_PER_CENT - 1) mod SCALE_PER_CENT < SCALE_PER_CENT"
    using SCALE_facts(5) by simp_all
  ultimately show ?thesis unfolding cents_up_def by linarith
qed

subsection \<open>Lemmas on the estimate and the supervisor\<close>

lemma scaledUsd_nonneg: "scaledUsd s = Some v \<Longrightarrow> 0 \<le> v"
  using SCALE_facts(3) by (auto simp: scaledUsd_def Let_def split: if_splits prod.splits)

lemma is_nonneg_safe_value: "is_nonneg_safe q \<Longrightarrow> 0 \<le> int_of_number q"
  by (auto simp: is_nonneg_safe_def elim!: isSafeIntegerE)

lemma priceLine_nonneg: "priceLine meter q prices = Inr (line, v) \<Longrightarrow> 0 \<le> v"
  by (auto simp: priceLine_def Let_def is_nonneg_safe_value scaledUsd_nonneg
      split: list.splits option.splits if_splits)

text \<open>The exact cost of one planned usage, in units of \<open>10\<^sup>-\<^sup>1\<^sup>2\<close> USD.\<close>

definition line_cost :: "price_ceiling list \<Rightarrow> planned_usage \<Rightarrow> int" where
  "line_cost prices u = (case priceLine (usage_meter u) (quantity u) prices of Inl _ \<Rightarrow> 0 | Inr (_, v) \<Rightarrow> v)"

definition line_reasons :: "price_ceiling list \<Rightarrow> planned_usage \<Rightarrow> structured_reason list" where
  "line_reasons prices u = (case priceLine (usage_meter u) (quantity u) prices of Inl r \<Rightarrow> [r] | Inr _ \<Rightarrow> [])"

lemma price_lines_sum:
  "price_lines us prices ls rs acc =
     (ls @ List.map_filter (\<lambda>u. case priceLine (usage_meter u) (quantity u) prices of Inl _ \<Rightarrow> None | Inr (l, _) \<Rightarrow> Some l) us,
      rs @ concat (map (line_reasons prices) us), acc + sum_list (map (line_cost prices) us))"
  by (induction us arbitrary: ls rs acc)
    (auto simp: line_reasons_def line_cost_def List.map_filter_def split: sum.splits)

lemma line_cost_nonneg: "0 \<le> line_cost prices u"
  by (auto simp: line_cost_def priceLine_nonneg split: sum.splits)

lemma estimate_total_nonneg: "0 \<le> sum_list (map (line_cost prices) us)"
  by (rule sum_list_nonneg) (auto simp: line_cost_nonneg)

lemma elapsedMs_mono: "now \<le> later \<Longrightarrow> elapsedMs sv now \<le> elapsedMs sv later"
  by (auto simp: elapsedMs_def Let_def zdiv_mono1 pos_imp_zdiv_nonneg_iff)

lemma elapsedMs_mark [simp]: "elapsedMs (markActiveEnded sv t) now = elapsedMs sv now"
  by (simp add: elapsedMs_def markActiveEnded_def split: option.splits)

subsection \<open>Properties\<close>


text \<open>
  C18: rendering an amount and reading it back loses nothing, and the rendering is a money decimal
  the reader accepts; a negative amount is outside the renderer's domain.
\<close>

theorem exactUsd_roundtrip: "scaledUsd (exactUsd (\<bar>x\<bar>)) = Some \<bar>x\<bar>"
  using scaledUsd_exactUsd [of "\<bar>x\<bar>"] by simp

text \<open>
  C19: once the active deadline is reached or active work has ended, no later question lets a new
  trial start, and the ACTIVE_TIME check from then on reports the duration frozen first, however
  often the end is marked again, so cleanup time never counts against the active maximum.
\<close>

theorem supervisor_freezes:
  assumes "t \<le> t'" and "t' \<le> t''"
  shows "(\<not> mayStartTrial sv t \<longrightarrow> \<not> mayStartTrial sv t'')
    \<and> \<not> mayStartTrial (markActiveEnded sv t) t''
    \<and> markActiveEnded (markActiveEnded sv t) t' = markActiveEnded sv t
    \<and> (\<forall>a b. supervisor_checks (markActiveEnded sv t) t'' wall = Inr (a, b) \<longrightarrow>
         check_result a =
           (if active_ms (sup_limits sv) < (case active_ended_ms sv of None \<Rightarrow> elapsedMs sv t | Some ms \<Rightarrow> ms)
            then Breached else WithinLimits))"
proof -
  have "elapsedMs sv t \<le> elapsedMs sv t''" using assms by (intro elapsedMs_mono) simp
  then show ?thesis
    by (auto simp: mayStartTrial_def activeDeadlineReached_def supervisor_checks_def durationCheck_def
        markActiveEnded_def Let_def split: option.splits sum.splits)
qed

theorem supervisor_freezes_witness:
  "\<not> mayStartTrial (markActiveEnded \<lparr>sup_limits = RUN_SAFETY, started_ns = 0, active_ended_ms = None\<rparr> 5) 9"
  using supervisor_freezes [of 5 6 9 "\<lparr>sup_limits = RUN_SAFETY, started_ns = 0, active_ended_ms = None\<rparr>"] by simp

lemma parse_padEnd: "parse_nat (padEnd n s) = parse_nat s * 10 ^ (n - length s)"
  by (simp add: padEnd_def)

lemma committed_prices:
  "scaledUsd ''0.0000002'' = Some 200000"
  "scaledUsd ''0.0000166667'' = Some 16666700"
  "scaledUsd ''0.000008'' = Some 8000000"
  "scaledUsd ''0.000000625'' = Some 625000"
  "scaledUsd ''0.000000125'' = Some 125000"
  "scaledUsd ''0.0000005'' = Some 500000"
  "scaledUsd ''0.0000004'' = Some 400000"
  "scaledUsd ''0.0005'' = Some 500000000"
  "scaledUsd ''5.00'' = Some 5000000000000"
  "scaledUsd ''1.00'' = Some 1000000000000"
  by (simp_all add: scaledUsd_def MONEY_DECIMAL_PATTERN_def split_dot_def is_digit_def parse_padEnd
      USD_SCALE_DIGITS_def SCALE_def)
    (simp_all add: parse_nat_def digit_value_def)

lemma rat_is_int_numerals [simp]: "rat_is_int (numeral n)" "rat_is_int 0" "rat_is_int 1"
  using rat_is_int_of_int [of "numeral n"] rat_is_int_of_int [of 0] rat_is_int_of_int [of 1] by simp_all

lemma log_ceilings: "\<lceil>9 / 5 :: rat\<rceil> = 2" "\<lceil>27 / 2 :: rat\<rceil> = 14"
  by (rule ceiling_unique; simp)+

text \<open>The plan admission prices for an execution kind: its active maximum, polled every 250 ms.\<close>

definition admission_plan :: "execution_kind \<Rightarrow> variant_id option \<Rightarrow> resource_plan" where
  "admission_plan kind variant = planExecutionResources
     \<lparr>plan_kind = kind, plan_variant = variant, plan_active_ms = active_ms (safetyLimitsFor kind),
      treatment_poll_interval_ms = 250\<rparr>"

lemmas estimate_evaluation =
  estimateAttributableCost_def price_lines_sum line_cost_def line_reasons_def List.map_filter_def
  priceLine_def PRICE_CEILINGS_def committed_prices admission_plan_def planExecutionResources_def
  deployedVariants_def RUN_SAFETY_def PROBE_SAFETY_def VALIDATION_SAFETY_def ceil_div_def
  is_nonneg_safe_def MAX_SAFE_INTEGER_def JsInt_def estimateWithinCeiling_def scaledUsd_centsCeiling
  cents_up_def SCALE_facts(6) Let_def log_ceilings


end
