(* ===== verification/Refund_Call.thy ===== *)
theory Refund_Call
  imports Item_Store
begin

text \<open>
  The refund provider's judgement of one received call: the hand-written guard of
  \<^verbatim>\<open>provider_refund_call\<close> (\<^verbatim>\<open>refund-call-shape.ts\<close>, \<^verbatim>\<open>execution-identity-fields.ts\<close>) and the
  ordered acceptance checks (\<^verbatim>\<open>acceptance.ts\<close>).

  A problem that the source words in a message is the name of the property it is about, so the
  order in which problems are found is kept. The frozen JSON Schema of the call
  (\<^verbatim>\<open>provider_refund_call.schema.json\<close>) is written out as a second, independent predicate, and
  the guard is shown to accept exactly what it accepts.
\<close>

subsection \<open>Vocabularies\<close>

datatype provider_caller_id = ConventionalCaller | DurableCaller | ProbeCaller

fun caller_text :: "provider_caller_id \<Rightarrow> string" where
  "caller_text ConventionalCaller = ''conventional''"
| "caller_text DurableCaller = ''durable''"
| "caller_text ProbeCaller = ''probe''"

definition PROVIDER_CALLER_IDS :: "provider_caller_id list" where
  "PROVIDER_CALLER_IDS = [ConventionalCaller, DurableCaller, ProbeCaller]"

datatype provider_rejection_reason =
  AUTHORIZATION_FAILED | SCHEMA_INVALID | EXECUTION_IDENTITY_MISMATCH | IDENTITY_STRUCTURE_INVALID
| PAYMENT_NOT_FOUND | AMOUNT_INVALID | CURRENCY_MISMATCH

text \<open>\<^verbatim>\<open>/^\S(.*\S)?$/u\<close>: no white space at either edge and no line break inside.\<close>

definition is_js_space :: "char \<Rightarrow> bool" where
  "is_js_space c \<longleftrightarrow> of_char c \<in> {9, 10, 11, 12, 13, 32, 160 :: nat}"

definition is_line_break :: "char \<Rightarrow> bool" where
  "is_line_break c \<longleftrightarrow> of_char c \<in> {10, 13 :: nat}"

definition NONEMPTY_TRIMMED_PATTERN :: "string \<Rightarrow> bool" where
  "NONEMPTY_TRIMMED_PATTERN s \<longleftrightarrow>
     s \<noteq> [] \<and> \<not> is_js_space (hd s) \<and> \<not> is_js_space (last s) \<and> list_all (\<lambda>c. \<not> is_line_break c) s"

definition CURRENCY_PATTERN :: "string \<Rightarrow> bool" where
  "CURRENCY_PATTERN s \<longleftrightarrow> length s = 3 \<and> list_all (\<lambda>c. c \<in> set ''ABCDEFGHIJKLMNOPQRSTUVWXYZ'') s"

text \<open>A test of a member that is false of an absent one.\<close>

definition member_is :: "(json \<Rightarrow> bool) \<Rightarrow> json option \<Rightarrow> bool" where
  "member_is P v \<longleftrightarrow> (case v of None \<Rightarrow> False | Some j \<Rightarrow> P j)"

definition is_string :: "json \<Rightarrow> bool" where
  "is_string j \<longleftrightarrow> (case j of JString _ \<Rightarrow> True | _ \<Rightarrow> False)"

definition is_number :: "json \<Rightarrow> bool" where
  "is_number j \<longleftrightarrow> (case j of JNumber _ \<Rightarrow> True | _ \<Rightarrow> False)"

definition string_is :: "(string \<Rightarrow> bool) \<Rightarrow> json \<Rightarrow> bool" where
  "string_is P j \<longleftrightarrow> (case j of JString s \<Rightarrow> P s | _ \<Rightarrow> False)"

definition number_member :: "json_object \<Rightarrow> string \<Rightarrow> js_number" where
  "number_member item member = (case own_member item member of Some (JNumber n) \<Rightarrow> n | _ \<Rightarrow> NaN)"

subsection \<open>Execution identity fields\<close>

definition EXECUTION_IDENTITY_FIELDS :: "(string \<times> execution_kind) list" where
  "EXECUTION_IDENTITY_FIELDS =
     [(''run_id'', RUN), (''variant_validation_id'', VARIANT_VALIDATION),
      (''transport_probe_id'', TRANSPORT_PROBE)]"

fun executionIdentityOf :: "execution_kind \<Rightarrow> uuid4 \<Rightarrow> execution_identity" where
  "executionIdentityOf RUN i = RunIdentity i"
| "executionIdentityOf VARIANT_VALIDATION i = ValidationIdentity i"
| "executionIdentityOf TRANSPORT_PROBE i = ProbeIdentity i"

definition parseExecutionIdentityFields :: "json_object \<Rightarrow> string + execution_identity" where
  "parseExecutionIdentityFields payload =
     (case filter (\<lambda>(fld, _). own_member payload fld \<noteq> None) EXECUTION_IDENTITY_FIELDS of
        [(fld, kind)] \<Rightarrow>
          if member_is isUuid4 (own_member payload fld)
          then Inr (executionIdentityOf kind (text_member payload fld)) else Inl fld
      | _ \<Rightarrow> Inl ''execution identity fields'')"

definition sameExecution :: "execution_identity \<Rightarrow> execution_identity \<Rightarrow> bool" where
  "sameExecution a b \<longleftrightarrow> execution_kind_of a = execution_kind_of b \<and> executionIdOf a = executionIdOf b"

lemma sameExecution_eq: "sameExecution a b \<longleftrightarrow> a = b"
  by (cases a; cases b) (auto simp: sameExecution_def)

subsection \<open>The shape of a call\<close>

definition REFUND_CALL_PROPERTIES :: "string list" where
  "REFUND_CALL_PROPERTIES =
     [''schema_version'', ''record_type'', ''caller_id'', ''run_id'', ''variant_validation_id'',
      ''transport_probe_id'', ''execution_manifest_sha256'', ''trial_id'', ''trial_manifest_sha256'',
      ''attempt_id'', ''provider_request_id'', ''refund_request_id'', ''payment_id'', ''amount_minor'',
      ''currency'']"

definition STRING_FIELDS :: "string list" where
  "STRING_FIELDS = [''attempt_id'', ''provider_request_id'', ''refund_request_id'', ''payment_id'']"

record call_trial =
  ct_trial_id :: uuid4
  ct_manifest :: sha256_hex

record refund_call_shape =
  sh_caller :: provider_caller_id
  sh_execution :: execution_identity
  sh_manifest :: sha256_hex
  sh_trial :: "call_trial option"
  sh_attempt_id :: string
  sh_provider_request_id :: string
  sh_refund_request_id :: string
  sh_payment_id :: string
  sh_amount_minor :: js_number
  sh_currency :: string

definition envelopeProblem :: "json_object \<Rightarrow> string option" where
  "envelopeProblem raw =
     (case List.find (\<lambda>key. key \<notin> set REFUND_CALL_PROPERTIES) (map fst raw) of
        Some unknown \<Rightarrow> Some unknown
      | None \<Rightarrow>
          if \<not> scalar_matches (own_member raw ''schema_version'') (SNumber (JsInt 1)) then Some ''schema_version''
          else if own_member raw ''record_type'' \<noteq> Some (JString ''provider_refund_call'') then Some ''record_type''
          else if \<not> member_is (is_text_of caller_text PROVIDER_CALLER_IDS) (own_member raw ''caller_id'')
               then Some ''caller_id''
          else if \<not> member_is isSha256Hex (own_member raw ''execution_manifest_sha256'')
               then Some ''execution_manifest_sha256''
          else None)"

definition businessFieldProblem :: "json_object \<Rightarrow> string option" where
  "businessFieldProblem raw =
     (case List.find (\<lambda>fld. \<not> member_is is_string (own_member raw fld)) STRING_FIELDS of
        Some missing \<Rightarrow> Some missing
      | None \<Rightarrow>
          if \<not> member_is is_number (own_member raw ''amount_minor'') then Some ''amount_minor''
          else if \<not> member_is (string_is CURRENCY_PATTERN) (own_member raw ''currency'') then Some ''currency''
          else None)"

definition probeBranch :: "json_object \<Rightarrow> string + call_trial option" where
  "probeBranch raw =
     (if own_member raw ''caller_id'' \<noteq> Some (JString ''probe'') then Inl ''caller_id''
      else (case List.find (\<lambda>fld. own_member raw fld \<noteq> None) [''trial_id'', ''trial_manifest_sha256''] of
              Some trialField \<Rightarrow> Inl trialField
            | None \<Rightarrow> Inr None))"

definition call_trialOf :: "json_object \<Rightarrow> execution_identity \<Rightarrow> string + call_trial option" where
  "call_trialOf raw execution =
     (if execution_kind_of execution = TRANSPORT_PROBE then probeBranch raw
      else if own_member raw ''caller_id'' = Some (JString ''probe'') then Inl ''caller_id''
      else if \<not> member_is isUuid4 (own_member raw ''trial_id'') then Inl ''trial_id''
      else if \<not> member_is isSha256Hex (own_member raw ''trial_manifest_sha256'') then Inl ''trial_manifest_sha256''
      else Inr (Some \<lparr>ct_trial_id = text_member raw ''trial_id'',
                       ct_manifest = text_member raw ''trial_manifest_sha256''\<rparr>))"

definition shapeOf :: "json_object \<Rightarrow> execution_identity \<Rightarrow> call_trial option \<Rightarrow> refund_call_shape" where
  "shapeOf raw execution trial =
     \<lparr>sh_caller = of_text caller_text PROVIDER_CALLER_IDS ProbeCaller (text_member raw ''caller_id''),
      sh_execution = execution,
      sh_manifest = text_member raw ''execution_manifest_sha256'',
      sh_trial = trial,
      sh_attempt_id = text_member raw ''attempt_id'',
      sh_provider_request_id = text_member raw ''provider_request_id'',
      sh_refund_request_id = text_member raw ''refund_request_id'',
      sh_payment_id = text_member raw ''payment_id'',
      sh_amount_minor = number_member raw ''amount_minor'',
      sh_currency = text_member raw ''currency''\<rparr>"

fun guardRefundCallShape :: "json \<Rightarrow> string + refund_call_shape" where
  "guardRefundCallShape (JObject raw) =
     (case envelopeProblem raw of
        Some problem \<Rightarrow> Inl problem
      | None \<Rightarrow>
          (case businessFieldProblem raw of
             Some problem \<Rightarrow> Inl problem
           | None \<Rightarrow>
               (case parseExecutionIdentityFields raw of
                  Inl problem \<Rightarrow> Inl problem
                | Inr execution \<Rightarrow>
                    (case call_trialOf raw execution of
                       Inl problem \<Rightarrow> Inl problem
                     | Inr trial \<Rightarrow> Inr (shapeOf raw execution trial)))))"
| "guardRefundCallShape _ = Inl ''call''"

definition identityStructureViolation :: "refund_call_shape \<Rightarrow> string option" where
  "identityStructureViolation shape =
     (if \<not> UUID4_PATTERN (sh_attempt_id shape) then Some ''attempt_id''
      else if \<not> UUID4_PATTERN (sh_provider_request_id shape) then Some ''provider_request_id''
      else if \<not> NONEMPTY_TRIMMED_PATTERN (sh_refund_request_id shape) then Some ''refund_request_id''
      else if \<not> NONEMPTY_TRIMMED_PATTERN (sh_payment_id shape) then Some ''payment_id''
      else None)"

definition amountViolation :: "refund_call_shape \<Rightarrow> string option" where
  "amountViolation shape =
     (if isSafeInteger (sh_amount_minor shape) \<and> \<not> js_less (sh_amount_minor shape) (JsInt 1)
      then None else Some ''amount_minor'')"

subsection \<open>Acceptance\<close>

record provider_config_view =
  cv_manifest :: sha256_hex
  cv_registered_caller :: provider_caller_id
  cv_scenario :: scenario
  cv_payment_id :: string
  cv_trial :: "call_trial option"

record payment_view =
  pv_payment_id :: string
  pv_currency :: string

record acceptance_context =
  ac_deployment :: execution_identity
  ac_configuration :: provider_config_view
  ac_payment :: "payment_view option"

record accepted_call =
  acc_caller :: provider_caller_id
  acc_attempt_id :: uuid4
  acc_provider_request_id :: uuid4
  acc_refund_request_id :: string
  acc_payment_id :: string
  acc_amount_minor :: js_number
  acc_currency :: string

text \<open>A decision: the first failed check, or the accepted call.\<close>

type_synonym acceptance_decision = "provider_rejection_reason + accepted_call"

definition executionOrDigestMismatch :: "refund_call_shape \<Rightarrow> execution_identity \<Rightarrow> sha256_hex \<Rightarrow> bool" where
  "executionOrDigestMismatch shape active digest \<longleftrightarrow>
     \<not> sameExecution (sh_execution shape) active \<or> sh_manifest shape \<noteq> digest"

definition trialMismatch :: "call_trial option \<Rightarrow> call_trial option \<Rightarrow> bool" where
  "trialMismatch call configured \<longleftrightarrow>
     \<not> (map_option ct_trial_id call = map_option ct_trial_id configured
        \<and> map_option ct_manifest call = map_option ct_manifest configured)"

definition executionMismatch :: "refund_call_shape \<Rightarrow> acceptance_context \<Rightarrow> bool" where
  "executionMismatch shape ctx \<longleftrightarrow>
     executionOrDigestMismatch shape (ac_deployment ctx) (cv_manifest (ac_configuration ctx))
     \<or> trialMismatch (sh_trial shape) (cv_trial (ac_configuration ctx))"

definition acceptedCallOf :: "refund_call_shape \<Rightarrow> accepted_call" where
  "acceptedCallOf shape =
     \<lparr>acc_caller = sh_caller shape, acc_attempt_id = sh_attempt_id shape,
      acc_provider_request_id = sh_provider_request_id shape,
      acc_refund_request_id = sh_refund_request_id shape, acc_payment_id = sh_payment_id shape,
      acc_amount_minor = sh_amount_minor shape, acc_currency = sh_currency shape\<rparr>"

definition judgeShape :: "refund_call_shape \<Rightarrow> acceptance_context \<Rightarrow> acceptance_decision" where
  "judgeShape shape ctx =
     (if executionMismatch shape ctx then Inl EXECUTION_IDENTITY_MISMATCH
      else if identityStructureViolation shape \<noteq> None then Inl IDENTITY_STRUCTURE_INVALID
      else (case ac_payment ctx of
              None \<Rightarrow> Inl PAYMENT_NOT_FOUND
            | Some payment \<Rightarrow>
                if pv_payment_id payment \<noteq> sh_payment_id shape then Inl PAYMENT_NOT_FOUND
                else if amountViolation shape \<noteq> None then Inl AMOUNT_INVALID
                else if sh_currency shape \<noteq> pv_currency payment then Inl CURRENCY_MISMATCH
                else Inr (acceptedCallOf shape)))"

definition raw_member :: "json \<Rightarrow> string \<Rightarrow> json option" where
  "raw_member raw name = (case raw of JObject obj \<Rightarrow> own_member obj name | _ \<Rightarrow> None)"

definition evaluateAcceptance :: "json \<Rightarrow> acceptance_context \<Rightarrow> acceptance_decision" where
  "evaluateAcceptance raw ctx =
     (if raw_member raw ''caller_id'' \<noteq> Some (JString (caller_text (cv_registered_caller (ac_configuration ctx))))
      then Inl AUTHORIZATION_FAILED
      else (case guardRefundCallShape raw of
              Inl _ \<Rightarrow> Inl SCHEMA_INVALID
            | Inr shape \<Rightarrow> judgeShape shape ctx))"

text \<open>Both branches of the check after the schema reject for the execution identity.\<close>

definition judgeUnattributedCall :: "json \<Rightarrow> provider_rejection_reason" where
  "judgeUnattributedCall raw =
     (case guardRefundCallShape raw of
        Inl _ \<Rightarrow> SCHEMA_INVALID
      | Inr shape \<Rightarrow> EXECUTION_IDENTITY_MISMATCH)"

subsection \<open>The JSON Schema of a call\<close>

text \<open>
  \<^verbatim>\<open>provider_refund_call.schema.json\<close>, keyword by keyword: \<^verbatim>\<open>properties\<close> constrains a member that is
  present, \<^verbatim>\<open>required\<close> demands presence, \<^verbatim>\<open>oneOf\<close> exactly one branch, \<^verbatim>\<open>if/then/else\<close> selects by the
  transport-probe identity, and \<^verbatim>\<open>additionalProperties: false\<close> closes the object.
\<close>

definition schema_member :: "json_object \<Rightarrow> string \<Rightarrow> (json \<Rightarrow> bool) \<Rightarrow> bool" where
  "schema_member obj name P \<longleftrightarrow> (case own_member obj name of None \<Rightarrow> True | Some v \<Rightarrow> P v)"

definition schema_amount :: "json \<Rightarrow> bool" where
  "schema_amount v \<longleftrightarrow>
     (case v of JNumber (Num q) \<Rightarrow> rat_is_int q \<and> 1 \<le> q \<and> q \<le> 9007199254740991 | _ \<Rightarrow> False)"

definition CALL_PROPERTY_SCHEMAS :: "(string \<times> (json \<Rightarrow> bool)) list" where
  "CALL_PROPERTY_SCHEMAS =
     [(''schema_version'', \<lambda>v. v = JNumber (JsInt 1)),
      (''record_type'', \<lambda>v. v = JString ''provider_refund_call''),
      (''caller_id'', \<lambda>v. v \<in> {JString ''conventional'', JString ''durable'', JString ''probe''}),
      (''run_id'', isUuid4), (''variant_validation_id'', isUuid4), (''transport_probe_id'', isUuid4),
      (''execution_manifest_sha256'', isSha256Hex), (''trial_id'', isUuid4),
      (''trial_manifest_sha256'', isSha256Hex), (''attempt_id'', isUuid4),
      (''provider_request_id'', isUuid4), (''refund_request_id'', string_is NONEMPTY_TRIMMED_PATTERN),
      (''payment_id'', string_is NONEMPTY_TRIMMED_PATTERN), (''amount_minor'', schema_amount),
      (''currency'', string_is CURRENCY_PATTERN)]"

definition CALL_REQUIRED :: "string list" where
  "CALL_REQUIRED =
     [''schema_version'', ''record_type'', ''caller_id'', ''execution_manifest_sha256'', ''attempt_id'',
      ''provider_request_id'', ''refund_request_id'', ''payment_id'', ''amount_minor'', ''currency'']"

definition schema_branch :: "json_object \<Rightarrow> string \<Rightarrow> bool" where
  "schema_branch obj name \<longleftrightarrow> schema_member obj name isUuid4 \<and> own_member obj name \<noteq> None"

fun refund_call_schema :: "json \<Rightarrow> bool" where
  "refund_call_schema (JObject obj) \<longleftrightarrow>
     list_all (\<lambda>(name, P). schema_member obj name P) CALL_PROPERTY_SCHEMAS
     \<and> list_all (\<lambda>name. own_member obj name \<noteq> None) CALL_REQUIRED
     \<and> length (filter (schema_branch obj) [''run_id'', ''variant_validation_id'', ''transport_probe_id'']) = 1
     \<and> (if schema_branch obj ''transport_probe_id''
        then schema_member obj ''caller_id'' (\<lambda>v. v = JString ''probe'')
             \<and> schema_member obj ''trial_id'' (\<lambda>_. False)
             \<and> schema_member obj ''trial_manifest_sha256'' (\<lambda>_. False)
        else schema_member obj ''caller_id'' (\<lambda>v. v \<in> {JString ''conventional'', JString ''durable''})
             \<and> schema_member obj ''trial_id'' isUuid4 \<and> schema_member obj ''trial_manifest_sha256'' isSha256Hex
             \<and> own_member obj ''trial_id'' \<noteq> None \<and> own_member obj ''trial_manifest_sha256'' \<noteq> None)
     \<and> list_all (\<lambda>name. name \<in> set (map fst CALL_PROPERTY_SCHEMAS)) (map fst obj)"
| "refund_call_schema _ \<longleftrightarrow> False"

subsection \<open>The guard accepts exactly the schema\<close>

lemma member_is_simps [simp]: "member_is P None = False" "member_is P (Some v) = P v"
  by (simp_all add: member_is_def)

lemma schema_member_required:
  "schema_member obj name P \<and> own_member obj name \<noteq> None \<longleftrightarrow> member_is P (own_member obj name)"
  by (cases "own_member obj name") (auto simp: schema_member_def)

lemma schema_branch_eq: "schema_branch obj name \<longleftrightarrow> member_is isUuid4 (own_member obj name)"
  unfolding schema_branch_def by (rule schema_member_required)

lemma caller_texts: "is_text_of caller_text PROVIDER_CALLER_IDS v \<longleftrightarrow>
    v \<in> {JString ''conventional'', JString ''durable'', JString ''probe''}"
  by (cases v) (auto simp: is_text_of_def PROVIDER_CALLER_IDS_def)

lemma schema_amount_eq:
  "schema_amount v \<longleftrightarrow> is_positive_safe_number v"
proof -
  have "(1 \<le> q \<and> q \<le> 9007199254740991) \<longleftrightarrow> \<bar>q\<bar> \<le> of_int MAX_SAFE_INTEGER \<and> \<not> q < 1" for q :: rat
    by (auto simp: MAX_SAFE_INTEGER_def)
  then show ?thesis
    by (cases v) (auto simp: schema_amount_def is_positive_safe_number_def JsInt_def split: js_number.splits)
qed

lemma envelopeProblem_None:
  "envelopeProblem raw = None \<longleftrightarrow>
     list_all (\<lambda>name. name \<in> set REFUND_CALL_PROPERTIES) (map fst raw)
     \<and> own_member raw ''schema_version'' = Some (JNumber (JsInt 1))
     \<and> own_member raw ''record_type'' = Some (JString ''provider_refund_call'')
     \<and> member_is (is_text_of caller_text PROVIDER_CALLER_IDS) (own_member raw ''caller_id'')
     \<and> member_is isSha256Hex (own_member raw ''execution_manifest_sha256'')"
proof (cases "List.find (\<lambda>key. key \<notin> set REFUND_CALL_PROPERTIES) (map fst raw)")
  case None
  then have "list_all (\<lambda>name. name \<in> set REFUND_CALL_PROPERTIES) (map fst raw)"
    by (simp only: find_None_all list_all_iff) blast
  with None show ?thesis by (simp add: envelopeProblem_def)
next
  case (Some x)
  then have "\<not> list_all (\<lambda>name. name \<in> set REFUND_CALL_PROPERTIES) (map fst raw)"
    using find_Some_mem [OF Some] by (auto simp only: list_all_iff)
  with Some show ?thesis by (simp add: envelopeProblem_def)
qed

lemma businessFieldProblem_None:
  "businessFieldProblem raw = None \<longleftrightarrow>
     member_is is_string (own_member raw ''attempt_id'') \<and> member_is is_string (own_member raw ''provider_request_id'')
     \<and> member_is is_string (own_member raw ''refund_request_id'') \<and> member_is is_string (own_member raw ''payment_id'')
     \<and> member_is is_number (own_member raw ''amount_minor'')
     \<and> member_is (string_is CURRENCY_PATTERN) (own_member raw ''currency'')"
  by (simp add: businessFieldProblem_def STRING_FIELDS_def)

lemma parseExecutionIdentityFields_Inr:
  "parseExecutionIdentityFields raw = Inr execution \<longleftrightarrow>
     (case (own_member raw ''run_id'', own_member raw ''variant_validation_id'', own_member raw ''transport_probe_id'') of
        (Some (JString i), None, None) \<Rightarrow> UUID4_PATTERN i \<and> execution = RunIdentity i
      | (None, Some (JString i), None) \<Rightarrow> UUID4_PATTERN i \<and> execution = ValidationIdentity i
      | (None, None, Some (JString i)) \<Rightarrow> UUID4_PATTERN i \<and> execution = ProbeIdentity i
      | _ \<Rightarrow> False)"
  by (auto simp: parseExecutionIdentityFields_def EXECUTION_IDENTITY_FIELDS_def text_member_def
      split: option.splits json.splits)

lemma call_trialOf_Inr:
  "(\<exists>trial. call_trialOf raw execution = Inr trial) \<longleftrightarrow>
     (if execution_kind_of execution = TRANSPORT_PROBE
      then own_member raw ''caller_id'' = Some (JString ''probe'') \<and> own_member raw ''trial_id'' = None
           \<and> own_member raw ''trial_manifest_sha256'' = None
      else own_member raw ''caller_id'' \<noteq> Some (JString ''probe'') \<and> member_is isUuid4 (own_member raw ''trial_id'')
           \<and> member_is isSha256Hex (own_member raw ''trial_manifest_sha256''))"
  by (auto simp: call_trialOf_def probeBranch_def)

lemma guard_Inr_iff:
  "guardRefundCallShape (JObject raw) = Inr shape \<longleftrightarrow>
     envelopeProblem raw = None \<and> businessFieldProblem raw = None
     \<and> (\<exists>execution trial. parseExecutionIdentityFields raw = Inr execution
          \<and> call_trialOf raw execution = Inr trial \<and> shape = shapeOf raw execution trial)"
  by (auto split: option.splits sum.splits)

text \<open>What the later checks ask of the shape is what they would ask of the members.\<close>

lemma identity_ok_iff:
  assumes "businessFieldProblem raw = None"
  shows "identityStructureViolation (shapeOf raw execution trial) = None \<longleftrightarrow>
    member_is isUuid4 (own_member raw ''attempt_id'') \<and> member_is isUuid4 (own_member raw ''provider_request_id'')
    \<and> member_is (string_is NONEMPTY_TRIMMED_PATTERN) (own_member raw ''refund_request_id'')
    \<and> member_is (string_is NONEMPTY_TRIMMED_PATTERN) (own_member raw ''payment_id'')"
proof -
  have str: "member_is is_string v \<Longrightarrow> \<exists>s. v = Some (JString s)" for v
    by (cases v) (auto simp: is_string_def split: json.splits)
  from assms obtain a b c d where "own_member raw ''attempt_id'' = Some (JString a)"
    "own_member raw ''provider_request_id'' = Some (JString b)"
    "own_member raw ''refund_request_id'' = Some (JString c)" "own_member raw ''payment_id'' = Some (JString d)"
    unfolding businessFieldProblem_None using str by meson
  then show ?thesis
    by (simp add: identityStructureViolation_def shapeOf_def text_member_def string_is_def)
qed

lemma amount_ok_iff:
  assumes "businessFieldProblem raw = None"
  shows "amountViolation (shapeOf raw execution trial) = None \<longleftrightarrow>
    member_is schema_amount (own_member raw ''amount_minor'')"
proof -
  from assms obtain n where "own_member raw ''amount_minor'' = Some (JNumber n)"
    unfolding businessFieldProblem_None
    by (cases "own_member raw ''amount_minor''") (auto simp: is_number_def split: json.splits)
  then show ?thesis
    by (simp add: amountViolation_def shapeOf_def number_member_def schema_amount_eq is_positive_safe_number_def)
qed

lemma property_names: "map fst CALL_PROPERTY_SCHEMAS = REFUND_CALL_PROPERTIES"
  by (simp add: CALL_PROPERTY_SCHEMAS_def REFUND_CALL_PROPERTIES_def)

lemma schema_members:
  "list_all (\<lambda>(name, P). schema_member raw name P) CALL_PROPERTY_SCHEMAS
   \<and> list_all (\<lambda>name. own_member raw name \<noteq> None) CALL_REQUIRED \<longleftrightarrow>
     own_member raw ''schema_version'' = Some (JNumber (JsInt 1))
     \<and> own_member raw ''record_type'' = Some (JString ''provider_refund_call'')
     \<and> member_is (is_text_of caller_text PROVIDER_CALLER_IDS) (own_member raw ''caller_id'')
     \<and> member_is isSha256Hex (own_member raw ''execution_manifest_sha256'')
     \<and> member_is isUuid4 (own_member raw ''attempt_id'') \<and> member_is isUuid4 (own_member raw ''provider_request_id'')
     \<and> member_is (string_is NONEMPTY_TRIMMED_PATTERN) (own_member raw ''refund_request_id'')
     \<and> member_is (string_is NONEMPTY_TRIMMED_PATTERN) (own_member raw ''payment_id'')
     \<and> member_is schema_amount (own_member raw ''amount_minor'')
     \<and> member_is (string_is CURRENCY_PATTERN) (own_member raw ''currency'')
     \<and> schema_member raw ''run_id'' isUuid4 \<and> schema_member raw ''variant_validation_id'' isUuid4
     \<and> schema_member raw ''transport_probe_id'' isUuid4 \<and> schema_member raw ''trial_id'' isUuid4
     \<and> schema_member raw ''trial_manifest_sha256'' isSha256Hex"
proof -
  have eq: "member_is (\<lambda>v. v = x) m \<longleftrightarrow> m = Some x" for x m by (cases m) auto
  have callers: "is_text_of caller_text PROVIDER_CALLER_IDS =
      (\<lambda>v. v \<in> {JString ''conventional'', JString ''durable'', JString ''probe''})"
    by (rule ext) (rule caller_texts)
  show ?thesis
    unfolding CALL_PROPERTY_SCHEMAS_def CALL_REQUIRED_def list.pred_inject case_prod_conv callers
    unfolding eq [symmetric] schema_member_required [symmetric]
    by (intro iffI conjI list.pred_inject(1); elim conjE; assumption)
qed

lemma schema_identity:
  assumes "schema_member raw ''run_id'' isUuid4" and "schema_member raw ''variant_validation_id'' isUuid4"
    and "schema_member raw ''transport_probe_id'' isUuid4"
    and "member_is (is_text_of caller_text PROVIDER_CALLER_IDS) (own_member raw ''caller_id'')"
  shows "length (filter (schema_branch raw) [''run_id'', ''variant_validation_id'', ''transport_probe_id'']) = 1
     \<and> (if schema_branch raw ''transport_probe_id''
        then schema_member raw ''caller_id'' (\<lambda>v. v = JString ''probe'')
             \<and> schema_member raw ''trial_id'' (\<lambda>_. False)
             \<and> schema_member raw ''trial_manifest_sha256'' (\<lambda>_. False)
        else schema_member raw ''caller_id'' (\<lambda>v. v \<in> {JString ''conventional'', JString ''durable''})
             \<and> schema_member raw ''trial_id'' isUuid4 \<and> schema_member raw ''trial_manifest_sha256'' isSha256Hex
             \<and> own_member raw ''trial_id'' \<noteq> None \<and> own_member raw ''trial_manifest_sha256'' \<noteq> None) \<longleftrightarrow>
    (\<exists>execution. parseExecutionIdentityFields raw = Inr execution \<and> (\<exists>trial. call_trialOf raw execution = Inr trial))"
proof -
  from assms(4) obtain c where c: "own_member raw ''caller_id'' = Some (JString c)" "c \<in> {''conventional'', ''durable'', ''probe''}"
    by (cases "own_member raw ''caller_id''") (auto simp: caller_texts)
  have opt: "schema_member raw name isUuid4 \<longleftrightarrow> own_member raw name = None
      \<or> (\<exists>i. own_member raw name = Some (JString i) \<and> UUID4_PATTERN i)" for name
    by (cases "own_member raw name") (auto simp: schema_member_def isUuid4_text)
  have shape: "(if schema_branch raw ''transport_probe_id''
        then schema_member raw ''caller_id'' (\<lambda>v. v = JString ''probe'')
             \<and> schema_member raw ''trial_id'' (\<lambda>_. False)
             \<and> schema_member raw ''trial_manifest_sha256'' (\<lambda>_. False)
        else schema_member raw ''caller_id'' (\<lambda>v. v \<in> {JString ''conventional'', JString ''durable''})
             \<and> schema_member raw ''trial_id'' isUuid4 \<and> schema_member raw ''trial_manifest_sha256'' isSha256Hex
             \<and> own_member raw ''trial_id'' \<noteq> None \<and> own_member raw ''trial_manifest_sha256'' \<noteq> None) \<longleftrightarrow>
      (if member_is isUuid4 (own_member raw ''transport_probe_id'')
       then c = ''probe'' \<and> own_member raw ''trial_id'' = None \<and> own_member raw ''trial_manifest_sha256'' = None
       else c \<noteq> ''probe'' \<and> member_is isUuid4 (own_member raw ''trial_id'')
            \<and> member_is isSha256Hex (own_member raw ''trial_manifest_sha256''))"
    using c by (cases "own_member raw ''trial_id''"; cases "own_member raw ''trial_manifest_sha256''")
      (auto simp: schema_branch_eq schema_member_def)
  show ?thesis
    unfolding shape call_trialOf_Inr parseExecutionIdentityFields_Inr c(1)
    using assms(1-3) [unfolded opt] by (elim disjE exE conjE; simp add: schema_branch_eq)
qed

lemma schema_unfold:
  "refund_call_schema (JObject raw) \<longleftrightarrow>
     list_all (\<lambda>name. name \<in> set REFUND_CALL_PROPERTIES) (map fst raw)
     \<and> own_member raw ''schema_version'' = Some (JNumber (JsInt 1))
     \<and> own_member raw ''record_type'' = Some (JString ''provider_refund_call'')
     \<and> member_is (is_text_of caller_text PROVIDER_CALLER_IDS) (own_member raw ''caller_id'')
     \<and> member_is isSha256Hex (own_member raw ''execution_manifest_sha256'')
     \<and> member_is isUuid4 (own_member raw ''attempt_id'') \<and> member_is isUuid4 (own_member raw ''provider_request_id'')
     \<and> member_is (string_is NONEMPTY_TRIMMED_PATTERN) (own_member raw ''refund_request_id'')
     \<and> member_is (string_is NONEMPTY_TRIMMED_PATTERN) (own_member raw ''payment_id'')
     \<and> member_is schema_amount (own_member raw ''amount_minor'')
     \<and> member_is (string_is CURRENCY_PATTERN) (own_member raw ''currency'')
     \<and> (\<exists>execution. parseExecutionIdentityFields raw = Inr execution \<and> (\<exists>trial. call_trialOf raw execution = Inr trial))"
proof (cases "\<exists>execution. parseExecutionIdentityFields raw = Inr execution \<and> (\<exists>trial. call_trialOf raw execution = Inr trial)")
  case True
  then obtain execution trial where ok: "parseExecutionIdentityFields raw = Inr execution" "call_trialOf raw execution = Inr trial"
    by blast
  have "schema_member raw ''run_id'' isUuid4 \<and> schema_member raw ''variant_validation_id'' isUuid4
     \<and> schema_member raw ''transport_probe_id'' isUuid4"
    using ok(1) unfolding parseExecutionIdentityFields_Inr
    by (auto simp: schema_member_def split: option.splits json.splits)
  moreover have "schema_member raw ''trial_id'' isUuid4 \<and> schema_member raw ''trial_manifest_sha256'' isSha256Hex"
    using call_trialOf_Inr [of raw execution] ok(2)
    by (cases "own_member raw ''trial_id''"; cases "own_member raw ''trial_manifest_sha256''")
      (auto simp: schema_member_def split: if_splits)
  ultimately show ?thesis
    using schema_members [of raw] schema_identity [of raw] True
    unfolding refund_call_schema.simps property_names by blast
next
  case False
  then show ?thesis
    using schema_members [of raw] schema_identity [of raw]
    unfolding refund_call_schema.simps property_names by blast
qed

lemma guard_accepts_schema:
  "refund_call_schema (JObject raw) \<longleftrightarrow>
     (\<exists>shape. guardRefundCallShape (JObject raw) = Inr shape
        \<and> identityStructureViolation shape = None \<and> amountViolation shape = None)"
  (is "?schema \<longleftrightarrow> ?guard")
proof
  have texts: "member_is isUuid4 v \<Longrightarrow> member_is is_string v" "member_is (string_is P) v \<Longrightarrow> member_is is_string v"
    "member_is schema_amount v \<Longrightarrow> member_is is_number v" for v P
    by (cases v; auto simp: is_string_def string_is_def is_number_def schema_amount_def isUuid4_text split: json.splits)+
  assume ?schema
  note facts = this [unfolded schema_unfold]
  have env: "envelopeProblem raw = None" using facts by (simp add: envelopeProblem_None)
  have bus: "businessFieldProblem raw = None" using facts texts unfolding businessFieldProblem_None by blast
  from facts obtain execution trial where
    "parseExecutionIdentityFields raw = Inr execution" "call_trialOf raw execution = Inr trial" by blast
  with env bus have "guardRefundCallShape (JObject raw) = Inr (shapeOf raw execution trial)" by simp
  moreover have "identityStructureViolation (shapeOf raw execution trial) = None"
    using facts unfolding identity_ok_iff [OF bus] by blast
  moreover have "amountViolation (shapeOf raw execution trial) = None"
    using facts unfolding amount_ok_iff [OF bus] by blast
  ultimately show ?guard by blast
next
  assume ?guard
  then obtain execution trial where ok: "envelopeProblem raw = None" "businessFieldProblem raw = None"
    "parseExecutionIdentityFields raw = Inr execution" "call_trialOf raw execution = Inr trial"
    and checks: "identityStructureViolation (shapeOf raw execution trial) = None"
      "amountViolation (shapeOf raw execution trial) = None"
    unfolding guard_Inr_iff by blast
  show ?schema
    using ok(1) checks(1) [unfolded identity_ok_iff [OF ok(2)]] checks(2) [unfolded amount_ok_iff [OF ok(2)]]
      ok(2) [unfolded businessFieldProblem_None] ok(3,4)
    unfolding schema_unfold envelopeProblem_None by blast
qed

lemma guard_schema:
  "refund_call_schema raw \<longleftrightarrow>
     (\<exists>shape. guardRefundCallShape raw = Inr shape
        \<and> identityStructureViolation shape = None \<and> amountViolation shape = None)"
proof (cases raw)
  case (JObject obj)
  then show ?thesis by (simp only: guard_accepts_schema)
qed simp_all

text \<open>
  C22: the provider's three hand-written checks of a call (structure, identities, amount) accept
  together exactly the calls the frozen JSON Schema accepts.
\<close>

theorem refund_call_guard_matches_schema:
  "refund_call_schema raw \<longleftrightarrow>
     (\<exists>shape. guardRefundCallShape raw = Inr shape
        \<and> identityStructureViolation shape = None \<and> amountViolation shape = None)"
  by (rule guard_schema)

text \<open>
  C23: a call is accepted exactly when its caller is the registered one, the JSON Schema holds of
  it, its execution identity and manifest are the deployment's, its trial is the configured one,
  and its payment exists in the partition with the same identity and currency; the accepted call
  carries the fields of the received one. In particular neither the amount nor the refund identity
  is compared with anything the provider knows.
\<close>

theorem evaluateAcceptance_iff:
  "evaluateAcceptance raw ctx = Inr call \<longleftrightarrow>
     (\<exists>obj execution trial payment. raw = JObject obj
        \<and> own_member obj ''caller_id'' = Some (JString (caller_text (cv_registered_caller (ac_configuration ctx))))
        \<and> refund_call_schema raw
        \<and> parseExecutionIdentityFields obj = Inr execution \<and> execution = ac_deployment ctx
        \<and> own_member obj ''execution_manifest_sha256'' = Some (JString (cv_manifest (ac_configuration ctx)))
        \<and> call_trialOf obj execution = Inr trial \<and> trial = cv_trial (ac_configuration ctx)
        \<and> ac_payment ctx = Some payment
        \<and> own_member obj ''payment_id'' = Some (JString (pv_payment_id payment))
        \<and> own_member obj ''currency'' = Some (JString (pv_currency payment))
        \<and> call = acceptedCallOf (shapeOf obj execution trial))"
proof -
  have trial: "trialMismatch t u \<longleftrightarrow> t \<noteq> u" for t u :: "call_trial option"
    by (cases t; cases u) (auto simp: trialMismatch_def intro: call_trial.equality)
  have texts: "own_member obj ''execution_manifest_sha256'' = Some (JString (text_member obj ''execution_manifest_sha256''))"
    "own_member obj ''payment_id'' = Some (JString (text_member obj ''payment_id''))"
    "own_member obj ''currency'' = Some (JString (text_member obj ''currency''))"
    if "envelopeProblem obj = None" "businessFieldProblem obj = None" for obj
    using that unfolding envelopeProblem_None businessFieldProblem_None text_member_def
    by (auto simp: member_is_def is_string_def string_is_def isSha256Hex_text split: option.splits json.splits)
  show ?thesis
  proof (cases raw)
    case (JObject obj)
    show ?thesis
    proof (cases "guardRefundCallShape raw")
      case (Inl problem)
      then have "\<not> refund_call_schema raw" by (simp add: guard_schema del: guardRefundCallShape.simps)
      with Inl show ?thesis by (simp add: evaluateAcceptance_def)
    next
      case (Inr shape)
      with JObject obtain execution trial0 where s: "envelopeProblem obj = None" "businessFieldProblem obj = None"
        "parseExecutionIdentityFields obj = Inr execution" "call_trialOf obj execution = Inr trial0"
        "shape = shapeOf obj execution trial0" by (simp only: guard_Inr_iff) blast
      have schema: "refund_call_schema raw \<longleftrightarrow> identityStructureViolation shape = None \<and> amountViolation shape = None"
        using Inr by (simp add: guard_schema del: guardRefundCallShape.simps)
      have judged: "judgeShape shape ctx = Inr call \<longleftrightarrow>
          execution = ac_deployment ctx \<and> sh_manifest shape = cv_manifest (ac_configuration ctx)
          \<and> trial0 = cv_trial (ac_configuration ctx) \<and> refund_call_schema raw
          \<and> (\<exists>payment. ac_payment ctx = Some payment \<and> pv_payment_id payment = sh_payment_id shape
               \<and> pv_currency payment = sh_currency shape) \<and> call = acceptedCallOf shape"
        unfolding schema
        by (auto simp: judgeShape_def executionMismatch_def executionOrDigestMismatch_def sameExecution_eq trial
            s(5) shapeOf_def split: option.splits)
      have fields: "sh_manifest shape = text_member obj ''execution_manifest_sha256''"
        "sh_payment_id shape = text_member obj ''payment_id''" "sh_currency shape = text_member obj ''currency''"
        by (simp_all add: s(5) shapeOf_def)
      show ?thesis
        using judged [unfolded fields] texts [OF s(1,2)] s(3-5) JObject
        by (auto simp: evaluateAcceptance_def raw_member_def Inr [unfolded JObject]
            simp del: guardRefundCallShape.simps refund_call_schema.simps)
    qed
  qed (simp_all add: evaluateAcceptance_def raw_member_def)
qed

end
