(* ===== verification/Scripted_World.thy ===== *)
theory Scripted_World
  imports Item_Store
begin

text \<open>
  The world the environments of the components are interpreted on: tables, the calls that are
  still to come with what surrounds each of them (the transactions other writers complete before
  it, and how the call itself fails, if it does), clocks and a source of identifiers. Every
  function of the world is executable, so a witness runs the components on a concrete script.
\<close>

record world_call =
  wc_foreign :: "write_action list list"
  wc_fault :: "scripted_fault option"
  wc_read_error :: "string option"
  wc_throw :: "(js_throw \<times> bool) option"

definition quiet_call :: world_call where
  "quiet_call = \<lparr>wc_foreign = [], wc_fault = None, wc_read_error = None, wc_throw = None\<rparr>"

record world =
  wd_tables :: tables
  wd_calls :: "world_call list"
  wd_now :: int
  wd_ticks :: "nat list"
  wd_wall :: "int list"
  wd_ids :: "nat \<Rightarrow> uuid4"
  wd_drawn :: nat
  wd_slept :: "int list"

definition foreign_transactions :: "write_action list list \<Rightarrow> tables \<Rightarrow> tables" where
  "foreign_transactions ts db = foldl (\<lambda>d as. snd (store_transact None as d)) db ts"

definition next_world_call :: "world \<Rightarrow> world_call \<times> world" where
  "next_world_call w =
     (let c = (case wd_calls w of [] \<Rightarrow> quiet_call | c # _ \<Rightarrow> c)
      in (c, w\<lparr>wd_calls := tl (wd_calls w), wd_tables := foreign_transactions (wc_foreign c) (wd_tables w)\<rparr>))"

definition world_write :: "write_action \<Rightarrow> (world, write_outcome) io" where
  "world_write a = State (\<lambda>w.
     let (c, w1) = next_world_call w; db = wd_tables w1
     in case wc_throw c of
          Some (err, applied) \<Rightarrow>
            (Inl err, w1\<lparr>wd_tables := (if applied then snd (store_write None a db) else db)\<rparr>)
        | None \<Rightarrow>
            (let (outcome, db') = store_write (wc_fault c) a db in (Inr outcome, w1\<lparr>wd_tables := db'\<rparr>)))"

definition world_transact :: "write_action list \<Rightarrow> uuid4 \<Rightarrow> (world, write_outcome) io" where
  "world_transact as token = State (\<lambda>w.
     let (c, w1) = next_world_call w; db = wd_tables w1
     in case wc_throw c of
          Some (err, applied) \<Rightarrow>
            (Inl err, w1\<lparr>wd_tables := (if applied then snd (store_transact None as db) else db)\<rparr>)
        | None \<Rightarrow>
            (let (outcome, db') = store_transact (wc_fault c) as db in (Inr outcome, w1\<lparr>wd_tables := db'\<rparr>)))"

definition world_get :: "table_role \<Rightarrow> item_key \<Rightarrow> (world, string + stored_item option) io" where
  "world_get t k = State (\<lambda>w.
     let (c, w1) = next_world_call w
     in case wc_throw c of
          Some (err, _) \<Rightarrow> (Inl err, w1)
        | None \<Rightarrow>
            (case wc_read_error c of
               Some code \<Rightarrow> (Inr (Inl code), w1)
             | None \<Rightarrow> (Inr (Inr (wd_tables w1 t k)), w1)))"

definition world_store :: "world durable_item_store" where
  "world_store = \<lparr>item_write = world_write, item_transact = world_transact, item_get = world_get\<rparr>"

definition world_monotonic :: "(world, int) io" where
  "world_monotonic = State (\<lambda>w.
     let now = wd_now w + (case wd_ticks w of [] \<Rightarrow> 0 | d # _ \<Rightarrow> int d)
     in (Inr now, w\<lparr>wd_now := now, wd_ticks := tl (wd_ticks w)\<rparr>))"

definition world_clock :: "(world, int) io" where
  "world_clock = State (\<lambda>w.
     (Inr (case wd_wall w of [] \<Rightarrow> 0 | ms # _ \<Rightarrow> ms), w\<lparr>wd_wall := tl (wd_wall w)\<rparr>))"

definition world_uuid :: "(world, uuid4) io" where
  "world_uuid = State (\<lambda>w. (Inr (wd_ids w (wd_drawn w)), w\<lparr>wd_drawn := Suc (wd_drawn w)\<rparr>))"

definition world_sleep :: "int \<Rightarrow> (world, unit) io" where
  "world_sleep ms = State (\<lambda>w.
     (Inr (), w\<lparr>wd_now := wd_now w + ms * 1000000, wd_slept := wd_slept w @ [ms]\<rparr>))"

subsection \<open>The others\<close>

text \<open>The transactions of the others satisfy \<open>allowed\<close>; each of them may have any outcome.\<close>

definition foreign_move :: "(write_action list \<Rightarrow> bool) \<Rightarrow> tables \<Rightarrow> tables \<Rightarrow> bool" where
  "foreign_move allowed db db' \<longleftrightarrow> (\<exists>as f. allowed as \<and> db' = snd (store_transact f as db))"

definition script_allows :: "(write_action list \<Rightarrow> bool) \<Rightarrow> world \<Rightarrow> bool" where
  "script_allows allowed w \<longleftrightarrow> (\<forall>c\<in>set (wd_calls w). \<forall>as\<in>set (wc_foreign c). allowed as)"

lemma foreign_transactions_move:
  "list_all allowed ts \<Longrightarrow> (foreign_move allowed)\<^sup>*\<^sup>* db (foreign_transactions ts db)"
proof (induction ts rule: rev_induct)
  case (snoc as ts)
  then have "foreign_move allowed (foreign_transactions ts db) (foreign_transactions (ts @ [as]) db)"
    by (auto simp: foreign_move_def foreign_transactions_def)
  with snoc show ?case by (simp add: rtranclp.rtrancl_into_rtrancl)
qed (simp add: foreign_transactions_def)

lemma next_world_call_allowed:
  assumes "script_allows allowed w" and "next_world_call w = (c, w1)"
  shows "script_allows allowed w1 \<and> (foreign_move allowed)\<^sup>*\<^sup>* (wd_tables w) (wd_tables w1)"
proof -
  have "list_all allowed (wc_foreign c)"
    using assms by (cases "wd_calls w")
      (auto simp: script_allows_def next_world_call_def quiet_call_def Let_def list_all_iff)
  then have "(foreign_move allowed)\<^sup>*\<^sup>* (wd_tables w) (wd_tables w1)"
    using assms(2) foreign_transactions_move by (auto simp: next_world_call_def Let_def)
  moreover have "script_allows allowed w1"
    using assms by (cases "wd_calls w") (auto simp: script_allows_def next_world_call_def Let_def)
  ultimately show ?thesis by simp
qed

lemma script_allows_tables [simp]: "script_allows allowed (w\<lparr>wd_tables := db\<rparr>) = script_allows allowed w"
  by (simp add: script_allows_def)

interpretation scripted_store: store_environment
    world_store wd_tables "script_allows allowed" "(foreign_move allowed)\<^sup>*\<^sup>*"
  for allowed
proof unfold_locales
  fix w a r w'
  assume ok: "script_allows allowed w" and run: "run_state (item_write world_store a) w = (r, w')"
  obtain c w1 where nc: "next_world_call w = (c, w1)" by fastforce
  note w1 = next_world_call_allowed [OF ok nc]
  obtain oc db where sw: "store_write None a (wd_tables w1) = (oc, db)" by fastforce
  show "script_allows allowed w' \<and> (\<exists>db. (foreign_move allowed)\<^sup>*\<^sup>* (wd_tables w) db \<and>
     (case r of Inl _ \<Rightarrow> wd_tables w' = db \<or> action_guard a db \<and> wd_tables w' = action_effect a db
      | Inr outcome \<Rightarrow> \<exists>f. store_write f a db = (outcome, wd_tables w')))"
    using run nc w1 single_write.state_after [OF sw] sw
    by (auto simp: world_store_def world_write_def Let_def split: option.splits prod.splits if_splits
        intro!: exI [of _ "wd_tables w1"])
next
  fix w as token r w'
  assume ok: "script_allows allowed w" and run: "run_state (item_transact world_store as token) w = (r, w')"
  obtain c w1 where nc: "next_world_call w = (c, w1)" by fastforce
  note w1 = next_world_call_allowed [OF ok nc]
  obtain oc db where sw: "store_transact None as (wd_tables w1) = (oc, db)" by fastforce
  show "script_allows allowed w' \<and> (\<exists>db. (foreign_move allowed)\<^sup>*\<^sup>* (wd_tables w) db \<and>
     (case r of Inl _ \<Rightarrow> wd_tables w' = db \<or> transact_guard as db \<and> wd_tables w' = transact_effect as db
      | Inr outcome \<Rightarrow> \<exists>f. store_transact f as db = (outcome, wd_tables w')))"
    using run nc w1 transaction.state_after [OF sw] sw
    by (auto simp: world_store_def world_transact_def Let_def split: option.splits prod.splits if_splits
        intro!: exI [of _ "wd_tables w1"])
next
  fix w t k r w'
  assume ok: "script_allows allowed w" and run: "run_state (item_get world_store t k) w = (r, w')"
  obtain c w1 where nc: "next_world_call w = (c, w1)" by fastforce
  with next_world_call_allowed [OF ok nc] run
  show "script_allows allowed w' \<and> (foreign_move allowed)\<^sup>*\<^sup>* (wd_tables w) (wd_tables w') \<and> (\<forall>v. r = Inr (Inr v) \<longrightarrow> v = wd_tables w' t k)"
    by (auto simp: world_store_def world_get_def split: option.splits)
qed

lemma world_clocks_allowed:
  "run_state world_monotonic w = (r, w') \<Longrightarrow> wd_tables w' = wd_tables w \<and> wd_calls w' = wd_calls w"
  "run_state world_clock w = (r, w') \<Longrightarrow> wd_tables w' = wd_tables w \<and> wd_calls w' = wd_calls w"
  "run_state world_uuid w = (d, w') \<Longrightarrow> wd_tables w' = wd_tables w \<and> wd_calls w' = wd_calls w"
  "run_state (world_sleep ms) w = (u, w') \<Longrightarrow> wd_tables w' = wd_tables w \<and> wd_calls w' = wd_calls w"
  by (auto simp: world_monotonic_def world_clock_def world_uuid_def world_sleep_def Let_def)

end
