(* ===== verification/Event_Journal.thy ===== *)
theory Event_Journal
  imports Scripted_World "HOL-Library.List_Lexorder" "HOL-Library.Char_ord"
begin

text \<open>
  The \<^verbatim>\<open>event-journal/\<close> module: the scope and item key of a journal event, the event builder with
  the envelope it owns, the reading of a store outcome for one entry, and the writer of one source
  instance (dense sequence, identical retries, reservations for caller-owned transactions, and
  the stop after an ambiguous append).

  An event is the JSON object the builder returns; the record-specific fields come from its
  callers. The \<^verbatim>\<open>detail\<close> of a stop is not modelled.
\<close>

subsection \<open>Scopes and keys (\<^verbatim>\<open>journal-scope.ts\<close>)\<close>

datatype journal_partition =
    TrialPartition uuid4 sha256_hex
  | ProbePartition
  | CanaryPartition
  | WarmupPartition
  | ProviderPartition
  | ExecutionPartition

record journal_scope =
  js_execution :: execution_identity
  js_manifest :: sha256_hex
  js_partition :: journal_partition

definition SEQUENCE_DIGITS :: nat where
  "SEQUENCE_DIGITS = 12"

definition MAX_SOURCE_SEQUENCE :: int where
  "MAX_SOURCE_SEQUENCE = 999999999999"

fun partition_suffix :: "journal_partition \<Rightarrow> string" where
  "partition_suffix (TrialPartition trial_id _) = trial_id"
| "partition_suffix ProbePartition = ''probe''"
| "partition_suffix CanaryPartition = ''canary''"
| "partition_suffix WarmupPartition = ''warmup''"
| "partition_suffix ProviderPartition = ''provider''"
| "partition_suffix ExecutionPartition = ''execution''"

definition journalPartitionKey :: "journal_scope \<Rightarrow> string" where
  "journalPartitionKey scope =
     executionIdOf (js_execution scope) @ ''#'' @ partition_suffix (js_partition scope)"

definition isSourceSequence :: "int \<Rightarrow> bool" where
  "isSourceSequence sequence \<longleftrightarrow> 1 \<le> sequence \<and> sequence \<le> MAX_SOURCE_SEQUENCE"

definition assertSourceSequence :: "int \<Rightarrow> js_throw + unit" where
  "assertSourceSequence sequence = (if isSourceSequence sequence then Inr () else Inl RangeError)"

definition journal_sort_key :: "string \<Rightarrow> uuid4 \<Rightarrow> int \<Rightarrow> string" where
  "journal_sort_key source instance_id sequence =
     source @ ''#'' @ instance_id @ ''#'' @ padStart SEQUENCE_DIGITS (int_text sequence)"

definition journalItemKey :: "journal_scope \<Rightarrow> string \<Rightarrow> uuid4 \<Rightarrow> int \<Rightarrow> js_throw + item_key" where
  "journalItemKey scope source instance_id sequence =
     (case assertSourceSequence sequence of
        Inl e \<Rightarrow> Inl e
      | Inr _ \<Rightarrow>
          Inr \<lparr>pk = journalPartitionKey scope, sk = journal_sort_key source instance_id sequence\<rparr>)"

subsection \<open>The envelope (\<^verbatim>\<open>envelope.ts\<close>, \<^verbatim>\<open>journal-event.ts\<close>)\<close>

fun executionIdentityFields :: "execution_identity \<Rightarrow> json_object" where
  "executionIdentityFields (RunIdentity i) = [(''run_id'', JString i)]"
| "executionIdentityFields (ProbeIdentity i) = [(''transport_probe_id'', JString i)]"
| "executionIdentityFields (ValidationIdentity i) = [(''variant_validation_id'', JString i)]"

text \<open>\<^verbatim>\<open>[...new Set(ids)].sort()\<close>; \<open>None\<close> for a causal root.\<close>

definition causationIds :: "uuid4 list \<Rightarrow> uuid4 list option" where
  "causationIds ids = (if ids = [] then None else Some (sort (remdups ids)))"

fun canonical_from :: "string option \<Rightarrow> json list \<Rightarrow> bool" where
  "canonical_from previous [] \<longleftrightarrow> previous \<noteq> None"
| "canonical_from previous (JString i # rest) \<longleftrightarrow>
     (case previous of None \<Rightarrow> True | Some p \<Rightarrow> \<not> i \<le> p) \<and> canonical_from (Some i) rest"
| "canonical_from previous (_ # rest) \<longleftrightarrow> False"

definition isCanonicalCausation :: "json list \<Rightarrow> bool" where
  "isCanonicalCausation ids = canonical_from None ids"

definition ENVELOPE_FIELDS :: "string list" where
  "ENVELOPE_FIELDS =
     [''schema_version'', ''record_type'', ''event_id'', ''run_id'', ''variant_validation_id'',
      ''transport_probe_id'', ''execution_manifest_sha256'', ''trial_id'', ''trial_manifest_sha256'',
      ''occurred_at'', ''source'', ''source_instance_id'', ''source_sequence'', ''causation_event_ids'']"

record envelope_input =
  ei_scope :: journal_scope
  ei_source :: string
  ei_instance :: uuid4
  ei_sequence :: int
  ei_event_id :: uuid4
  ei_occurred_at :: utc_millis
  ei_causation :: "uuid4 list"

definition recordSpecificFields :: "json_object \<Rightarrow> json_object" where
  "recordSpecificFields body = filter (\<lambda>(name, _). name \<notin> set ENVELOPE_FIELDS) body"

fun trial_fields :: "journal_partition \<Rightarrow> json_object" where
  "trial_fields (TrialPartition trial_id digest) =
     [(''trial_id'', JString trial_id), (''trial_manifest_sha256'', JString digest)]"
| "trial_fields _ = []"

definition envelope_members :: "string \<Rightarrow> envelope_input \<Rightarrow> json_object" where
  "envelope_members type inp =
     [(''schema_version'', JNumber (JsInt 1)), (''record_type'', JString type),
      (''event_id'', JString (ei_event_id inp))]
     @ executionIdentityFields (js_execution (ei_scope inp))
     @ [(''execution_manifest_sha256'', JString (js_manifest (ei_scope inp)))]
     @ trial_fields (js_partition (ei_scope inp))
     @ [(''occurred_at'', JString (ei_occurred_at inp)), (''source'', JString (ei_source inp)),
        (''source_instance_id'', JString (ei_instance inp)),
        (''source_sequence'', JNumber (JsInt (ei_sequence inp)))]
     @ (case causationIds (ei_causation inp) of
          None \<Rightarrow> []
        | Some ids \<Rightarrow> [(''causation_event_ids'', JArray (map JString ids))])"

definition buildJournalEvent :: "string \<Rightarrow> json_object \<Rightarrow> envelope_input \<Rightarrow> js_throw + json_object" where
  "buildJournalEvent type body inp =
     (case assertSourceSequence (ei_sequence inp) of
        Inl e \<Rightarrow> Inl e
      | Inr _ \<Rightarrow> Inr (obj_merge (recordSpecificFields body) (envelope_members type inp)))"

subsection \<open>Entries (\<^verbatim>\<open>journal-entry.ts\<close>)\<close>

record journal_entry =
  je_key :: item_key
  je_event :: json_object
  je_item :: stored_item

definition toJournalEntry :: "item_key \<Rightarrow> json_object \<Rightarrow> journal_entry" where
  "toJournalEntry key event =
     \<lparr>je_key = key, je_event = event, je_item = obj_merge event (key_members key)\<rparr>"

definition journalPutAction :: "table_role \<Rightarrow> journal_entry \<Rightarrow> write_action" where
  "journalPutAction table entry = Put table (je_key entry) (je_item entry) (Some ItemAbsent)"

text \<open>
  Canonical form: members sorted by name at every level. The canonical text determines the form,
  and the form the text, so comparing forms is comparing texts; a non-finite number has none.
\<close>

primrec canonical_form :: "json \<Rightarrow> json" where
  "canonical_form JNull = JNull"
| "canonical_form (JBool b) = JBool b"
| "canonical_form (JNumber n) = JNumber n"
| "canonical_form (JString s) = JString s"
| "canonical_form (JArray xs) = JArray (map canonical_form xs)"
| "canonical_form (JObject ms) = JObject (sort_key fst (map (map_prod id canonical_form) ms))"

fun representable :: "json \<Rightarrow> bool" where
  "representable (JNumber (Num _)) \<longleftrightarrow> True"
| "representable (JNumber _) \<longleftrightarrow> False"
| "representable (JArray xs) \<longleftrightarrow> (\<forall>x\<in>set xs. representable x)"
| "representable (JObject ms) \<longleftrightarrow> (\<forall>m\<in>set ms. representable (snd m))"
| "representable _ \<longleftrightarrow> True"

definition structurallyEqual :: "json \<Rightarrow> json \<Rightarrow> js_throw + bool" where
  "structurallyEqual a b =
     (if representable a \<and> representable b then Inr (canonical_form a = canonical_form b) else Inl TypeError)"

definition isSameStoredEntry :: "stored_item \<Rightarrow> journal_entry \<Rightarrow> js_throw + bool" where
  "isSameStoredEntry existing entry = structurallyEqual (JObject existing) (JObject (je_item entry))"

subsection \<open>Outcomes (\<^verbatim>\<open>journal-append-port.ts\<close>)\<close>

datatype journal_stop_reason =
  AMBIGUOUS_APPEND | DEFINITIVE_RETRIES_EXHAUSTED | SEQUENCE_CONFLICT | INSTANCE_ALREADY_STOPPED

datatype append_result = Appended json_object | AppendStopped journal_stop_reason

datatype confirm_result =
  Confirmed json_object | ConfirmStopped journal_stop_reason | NotApplied json_object write_outcome

datatype prepare_result = Prepared journal_entry | PrepareStopped journal_stop_reason

datatype journal_outcome_class = OutcomeApplied | OutcomeNotApplied | OutcomeAmbiguous | OutcomeConflict

definition classifyConditionFailure ::
  "nat \<Rightarrow> stored_item option \<Rightarrow> journal_entry \<Rightarrow> nat \<Rightarrow> js_throw + journal_outcome_class" where
  "classifyConditionFailure failedActionIndex existing entry journalActionIndex =
     (if failedActionIndex \<noteq> journalActionIndex then Inr OutcomeNotApplied
      else (case existing of
              None \<Rightarrow> Inr OutcomeConflict
            | Some item \<Rightarrow>
                (case isSameStoredEntry item entry of
                   Inl e \<Rightarrow> Inl e
                 | Inr same \<Rightarrow> Inr (if same then OutcomeApplied else OutcomeConflict))))"

fun classifyJournalOutcome ::
  "write_outcome \<Rightarrow> journal_entry \<Rightarrow> nat \<Rightarrow> js_throw + journal_outcome_class" where
  "classifyJournalOutcome Applied entry index = Inr OutcomeApplied"
| "classifyJournalOutcome (Ambiguous _) entry index = Inr OutcomeAmbiguous"
| "classifyJournalOutcome (DefinitiveFailure _) entry index = Inr OutcomeNotApplied"
| "classifyJournalOutcome (ConditionFailed failed existing) entry index =
     classifyConditionFailure failed existing entry index"

subsection \<open>The writer of one source instance (\<^verbatim>\<open>journal-writer.ts\<close>)\<close>

text \<open>
  The private members of the writer. Appends are serialized by the promise chain: an append runs
  to its end before the next one starts, and \<open>jw_in_flight\<close> counts those that have not settled.
\<close>

record journal_writer =
  jw_next :: int
  jw_stopped :: "journal_stop_reason option"
  jw_reservation :: "journal_entry option"
  jw_retryable :: "journal_entry option"
  jw_in_flight :: nat

record 'w journal_writer_deps =
  jd_port :: "journal_entry \<Rightarrow> ('w, write_outcome) io"
  jd_source :: string
  jd_instance :: uuid4
  jd_scope :: journal_scope
  jd_clock :: "('w, int) io"
  jd_ids :: "('w, uuid4) io"
  jd_max_retries :: nat

definition new_journal_writer :: journal_writer where
  "new_journal_writer =
     \<lparr>jw_next = 1, jw_stopped = None, jw_reservation = None, jw_retryable = None, jw_in_flight = 0\<rparr>"

text \<open>The check of the constructor.\<close>

definition checked_retries :: "js_number \<Rightarrow> js_throw + nat" where
  "checked_retries n = (if is_nonneg_safe n then Inr (nat (int_of_number n)) else Inl RangeError)"

definition createDurableJournalPort ::
  "'w durable_item_store \<Rightarrow> table_role \<Rightarrow> journal_entry \<Rightarrow> ('w, write_outcome) io" where
  "createDurableJournalPort store table entry = item_write store (journalPutAction table entry)"

definition nextEntry ::
  "'w journal_writer_deps \<Rightarrow> string \<Rightarrow> json_object \<Rightarrow> uuid4 list \<Rightarrow> (journal_writer \<times> 'w, journal_entry) io" where
  "nextEntry deps type body causation =
     io_bind io_get (\<lambda>jw.
     io_bind (io_put (jw\<lparr>jw_retryable := None\<rparr>)) (\<lambda>_.
     io_bind (io_lift (jd_ids deps)) (\<lambda>event_id.
     io_bind (io_lift (jd_clock deps)) (\<lambda>ms.
     io_bind (io_of (formatUtcMillis ms)) (\<lambda>occurred_at.
     io_bind (io_of (buildJournalEvent type body
        \<lparr>ei_scope = jd_scope deps, ei_source = jd_source deps, ei_instance = jd_instance deps,
         ei_sequence = jw_next jw, ei_event_id = event_id, ei_occurred_at = occurred_at,
         ei_causation = causation\<rparr>)) (\<lambda>event.
     io_bind (io_of (journalItemKey (jd_scope deps) (jd_source deps) (jd_instance deps) (jw_next jw))) (\<lambda>key.
     io_return (toJournalEntry key event))))))))"

definition journal_write ::
  "'w journal_writer_deps \<Rightarrow> journal_entry \<Rightarrow> (journal_writer \<times> 'w, journal_outcome_class) io" where
  "journal_write deps entry =
     io_catch (io_bind (io_lift (jd_port deps entry)) (\<lambda>outcome. io_of (classifyJournalOutcome outcome entry 0)))
       (\<lambda>_. io_return OutcomeAmbiguous)"

definition journal_stop :: "journal_stop_reason \<Rightarrow> (journal_writer \<times> 'w, append_result) io" where
  "journal_stop reason =
     io_bind io_get (\<lambda>jw.
     io_bind (io_put (jw\<lparr>jw_stopped := Some reason\<rparr>)) (\<lambda>_. io_return (AppendStopped reason)))"

definition journal_settle ::
  "journal_outcome_class \<Rightarrow> journal_entry \<Rightarrow> (journal_writer \<times> 'w, append_result) io" where
  "journal_settle verdict entry =
     (if verdict = OutcomeAmbiguous then journal_stop AMBIGUOUS_APPEND
      else if verdict = OutcomeConflict then journal_stop SEQUENCE_CONFLICT
      else io_bind io_get (\<lambda>jw.
           io_bind (io_put (jw\<lparr>jw_next := jw_next jw + 1\<rparr>)) (\<lambda>_. io_return (Appended (je_event entry)))))"

fun retry_write ::
  "'w journal_writer_deps \<Rightarrow> journal_entry \<Rightarrow> nat \<Rightarrow> journal_outcome_class
   \<Rightarrow> (journal_writer \<times> 'w, journal_outcome_class) io" where
  "retry_write deps entry 0 verdict = io_return verdict"
| "retry_write deps entry (Suc retries) verdict =
     (if verdict = OutcomeNotApplied
      then io_bind (journal_write deps entry) (retry_write deps entry retries)
      else io_return verdict)"

definition appendInOrder ::
  "'w journal_writer_deps \<Rightarrow> string \<Rightarrow> json_object \<Rightarrow> uuid4 list \<Rightarrow> (journal_writer \<times> 'w, append_result) io" where
  "appendInOrder deps type body causation =
     io_bind io_get (\<lambda>jw.
     if jw_stopped jw \<noteq> None then io_return (AppendStopped INSTANCE_ALREADY_STOPPED)
     else if jw_reservation jw \<noteq> None then io_throw ErrorThrown
     else io_bind (nextEntry deps type body causation) (\<lambda>entry.
          io_bind (journal_write deps entry) (\<lambda>first.
          io_bind (retry_write deps entry (jd_max_retries deps) first) (\<lambda>last_verdict.
          if last_verdict \<noteq> OutcomeNotApplied then journal_settle last_verdict entry
          else journal_stop DEFINITIVE_RETRIES_EXHAUSTED))))"

text \<open>\<^verbatim>\<open>promise.finally\<close> on the object.\<close>

definition io_finally :: "('s \<times> 'w, 'a) io \<Rightarrow> ('s \<Rightarrow> 's) \<Rightarrow> ('s \<times> 'w, 'a) io" where
  "io_finally m f = State (\<lambda>p. case run_state m p of (r, s, w) \<Rightarrow> (r, f s, w))"

definition journal_append ::
  "'w journal_writer_deps \<Rightarrow> string \<Rightarrow> json_object \<Rightarrow> uuid4 list \<Rightarrow> (journal_writer \<times> 'w, append_result) io" where
  "journal_append deps type body causation =
     io_bind io_get (\<lambda>jw.
     io_bind (io_put (jw\<lparr>jw_in_flight := jw_in_flight jw + 1\<rparr>)) (\<lambda>_.
     io_finally (appendInOrder deps type body causation) (\<lambda>jw'. jw'\<lparr>jw_in_flight := jw_in_flight jw' - 1\<rparr>)))"

definition assertIdle :: "journal_writer \<Rightarrow> js_throw + unit" where
  "assertIdle jw = (if jw_reservation jw \<noteq> None \<or> jw_in_flight jw > 0 then Inl ErrorThrown else Inr ())"

definition journal_reserve :: "journal_entry \<Rightarrow> (journal_writer \<times> 'w, prepare_result) io" where
  "journal_reserve put =
     io_bind io_get (\<lambda>jw.
     io_bind (io_put (jw\<lparr>jw_reservation := Some put, jw_retryable := None\<rparr>)) (\<lambda>_. io_return (Prepared put)))"

definition journal_prepare ::
  "'w journal_writer_deps \<Rightarrow> string \<Rightarrow> json_object \<Rightarrow> uuid4 list \<Rightarrow> (journal_writer \<times> 'w, prepare_result) io" where
  "journal_prepare deps type body causation =
     io_bind io_get (\<lambda>jw.
     if jw_stopped jw \<noteq> None then io_return (PrepareStopped INSTANCE_ALREADY_STOPPED)
     else io_bind (io_of (assertIdle jw)) (\<lambda>_.
          io_bind (nextEntry deps type body causation) journal_reserve))"

definition journal_prepareRetry :: "journal_entry \<Rightarrow> (journal_writer \<times> 'w, prepare_result) io" where
  "journal_prepareRetry put =
     io_bind io_get (\<lambda>jw.
     if jw_stopped jw \<noteq> None then io_return (PrepareStopped INSTANCE_ALREADY_STOPPED)
     else io_bind (io_of (assertIdle jw)) (\<lambda>_.
          if jw_retryable jw \<noteq> Some put then io_throw ErrorThrown else journal_reserve put))"

definition journal_confirm ::
  "journal_entry \<Rightarrow> write_outcome \<Rightarrow> nat \<Rightarrow> (journal_writer \<times> 'w, confirm_result) io" where
  "journal_confirm prepared outcome journalActionIndex =
     io_bind io_get (\<lambda>jw.
     if jw_reservation jw \<noteq> Some prepared then io_throw ErrorThrown
     else io_bind (io_put (jw\<lparr>jw_reservation := None\<rparr>)) (\<lambda>_.
          io_bind (io_of (classifyJournalOutcome outcome prepared journalActionIndex)) (\<lambda>verdict.
          if verdict = OutcomeNotApplied
          then io_bind io_get (\<lambda>jw'.
               io_bind (io_put (jw'\<lparr>jw_retryable := Some prepared\<rparr>)) (\<lambda>_.
               io_return (NotApplied (je_event prepared) outcome)))
          else io_bind (journal_settle verdict prepared) (\<lambda>r.
               io_return (case r of Appended ev \<Rightarrow> Confirmed ev | AppendStopped reason \<Rightarrow> ConfirmStopped reason)))))"

definition isStopped :: "journal_writer \<Rightarrow> bool" where
  "isStopped jw \<longleftrightarrow> jw_stopped jw \<noteq> None"

lemma run_io_finally [simp]:
  "run_state (io_finally m f) p =
     (fst (run_state m p), f (fst (snd (run_state m p))), snd (snd (run_state m p)))"
  by (simp add: io_finally_def split: prod.splits)

text \<open>
  How a caller-owned transaction uses the writer (the protocol of \<^verbatim>\<open>prepare\<close> and \<^verbatim>\<open>confirm\<close>): reserve
  the put, submit it between the caller's own actions, which may depend on it, and confirm with
  its index.
\<close>

definition journal_transact ::
  "'w journal_writer_deps \<Rightarrow> 'w durable_item_store \<Rightarrow> table_role \<Rightarrow> string \<Rightarrow> json_object \<Rightarrow> uuid4 list
   \<Rightarrow> write_action list \<Rightarrow> (journal_entry \<Rightarrow> write_action list) \<Rightarrow> uuid4 \<Rightarrow> (journal_writer \<times> 'w, confirm_result) io" where
  "journal_transact deps store table type body causation before after token =
     io_bind (journal_prepare deps type body causation) (\<lambda>prepared.
     case prepared of
       PrepareStopped reason \<Rightarrow> io_return (ConfirmStopped reason)
     | Prepared put \<Rightarrow>
         io_bind (io_lift (item_transact store (before @ journalPutAction table put # after put) token)) (\<lambda>outcome.
         journal_confirm put outcome (length before)))"

text \<open>A use of the writer, and a sequence of uses whose thrown errors the caller survives.\<close>

datatype journal_op =
    AppendOp string json_object "uuid4 list"
  | TransactOp string json_object "uuid4 list" "write_action list" "write_action list" uuid4

fun run_op ::
  "'w journal_writer_deps \<Rightarrow> 'w durable_item_store \<Rightarrow> table_role \<Rightarrow> journal_op \<Rightarrow> (journal_writer \<times> 'w, json_object list) io" where
  "run_op deps store table (AppendOp type body causation) =
     io_bind (journal_append deps type body causation) (\<lambda>r.
     io_return (case r of Appended ev \<Rightarrow> [ev] | AppendStopped _ \<Rightarrow> []))"
| "run_op deps store table (TransactOp type body causation before after token) =
     io_bind (journal_transact deps store table type body causation before (\<lambda>_. after) token) (\<lambda>r.
     io_return (case r of Confirmed ev \<Rightarrow> [ev] | _ \<Rightarrow> []))"

fun run_ops ::
  "'w journal_writer_deps \<Rightarrow> 'w durable_item_store \<Rightarrow> table_role \<Rightarrow> journal_op list \<Rightarrow> (journal_writer \<times> 'w, json_object list) io" where
  "run_ops deps store table [] = io_return []"
| "run_ops deps store table (op # ops) =
     io_bind (io_catch (run_op deps store table op) (\<lambda>_. io_return [])) (\<lambda>evs.
     io_bind (run_ops deps store table ops) (\<lambda>rest. io_return (evs @ rest)))"

subsection \<open>Keys and events\<close>

lemma sequence_text:
  assumes "isSourceSequence n"
  shows "int (parse_nat (padStart SEQUENCE_DIGITS (int_text n))) = n"
    and "length (padStart SEQUENCE_DIGITS (int_text n)) = SEQUENCE_DIGITS"
proof -
  define k :: nat where "k = 11"
  then have k: "SEQUENCE_DIGITS = Suc k" "(10::int) ^ Suc k = 1000000000000"
    by (simp_all add: SEQUENCE_DIGITS_def)
  have n: "0 \<le> n" "n < 10 ^ Suc k"
    using assms unfolding k(2) by (simp_all add: isSourceSequence_def MAX_SOURCE_SEQUENCE_def)
  show "int (parse_nat (padStart SEQUENCE_DIGITS (int_text n))) = n"
    and "length (padStart SEQUENCE_DIGITS (int_text n)) = SEQUENCE_DIGITS"
    unfolding k(1) using padStart_text [OF n] by simp_all
qed

lemma journal_sort_key_inject [simp]:
  "isSourceSequence m \<Longrightarrow> isSourceSequence n \<Longrightarrow>
   journal_sort_key s i m = journal_sort_key s i n \<longleftrightarrow> m = n"
  unfolding journal_sort_key_def same_append_eq by (metis sequence_text(1))

lemma event_own_member:
  assumes "buildJournalEvent type body inp = Inr ev"
  shows "own_member ev name =
    (case map_of (rev (envelope_members type inp)) name of
       Some v \<Rightarrow> Some v
     | None \<Rightarrow> if name \<in> set ENVELOPE_FIELDS then None else own_member body name)"
proof -
  have "own_member (recordSpecificFields body) name =
      (if name \<in> set ENVELOPE_FIELDS then None else own_member body name)"
    by (induction body) (auto simp: recordSpecificFields_def)
  then show ?thesis
    using assms
    by (auto simp: buildJournalEvent_def map_of_obj_merge map_add_def split: sum.splits option.splits)
qed

text \<open>A record-specific field survives the envelope; the identity and the type are the envelope's.\<close>

lemma identity_fields_other [simp]:
  "name \<notin> {''run_id'', ''transport_probe_id'', ''variant_validation_id''} \<Longrightarrow>
   map_of (rev (executionIdentityFields x)) name = None"
  by (cases x) auto

lemma trial_fields_other [simp]:
  "name \<notin> {''trial_id'', ''trial_manifest_sha256''} \<Longrightarrow> map_of (rev (trial_fields p)) name = None"
  by (cases p) auto

lemma envelope_lookup:
  "map_of (rev (envelope_members type inp)) =
     map_of (rev [(''schema_version'', JNumber (JsInt 1)), (''record_type'', JString type),
        (''event_id'', JString (ei_event_id inp))])
     ++ map_of (rev (executionIdentityFields (js_execution (ei_scope inp))))
     ++ map_of (rev [(''execution_manifest_sha256'', JString (js_manifest (ei_scope inp)))])
     ++ map_of (rev (trial_fields (js_partition (ei_scope inp))))
     ++ map_of (rev [(''occurred_at'', JString (ei_occurred_at inp)), (''source'', JString (ei_source inp)),
        (''source_instance_id'', JString (ei_instance inp)),
        (''source_sequence'', JNumber (JsInt (ei_sequence inp)))])
     ++ map_of (rev (case causationIds (ei_causation inp) of
          None \<Rightarrow> [] | Some ids \<Rightarrow> [(''causation_event_ids'', JArray (map JString ids))]))"
  unfolding envelope_members_def rev_append map_of_append map_add_assoc by (rule refl)

lemma event_body_member:
  assumes "buildJournalEvent type body inp = Inr ev" and "name \<notin> set ENVELOPE_FIELDS"
  shows "own_member ev name = own_member body name"
proof -
  have "map_of (rev (envelope_members type inp)) name = None"
    unfolding envelope_lookup using assms(2)
    by (simp add: ENVELOPE_FIELDS_def map_add_def split: option.splits)
  with assms event_own_member [OF assms(1), of name] show ?thesis by simp
qed

lemma event_envelope:
  assumes "buildJournalEvent type body inp = Inr ev"
  shows "own_member ev ''event_id'' = Some (JString (ei_event_id inp))"
    and "own_member ev ''record_type'' = Some (JString type)"
    and "own_member ev ''source_sequence'' = Some (JNumber (JsInt (ei_sequence inp)))"
    and "own_member ev ''causation_event_ids'' =
      map_option (\<lambda>ids. JArray (map JString ids)) (causationIds (ei_causation inp))"
  unfolding event_own_member [OF assms] envelope_lookup
  by (simp_all add: ENVELOPE_FIELDS_def map_add_def split: option.splits)

lemma causationIds_single [simp]: "causationIds [i] = Some [i]"
  by (simp add: causationIds_def)

lemma set_causationIds: "causationIds ids = Some cs \<Longrightarrow> set cs = set ids"
  by (auto simp: causationIds_def split: if_splits)

subsection \<open>One instance among other writers\<close>

text \<open>
  The writer's environment: it reaches its table only through the store, and the others never
  write under this instance's own keys (an instance id is drawn fresh, and the sort key names it).
\<close>

definition own_key :: "'w journal_writer_deps \<Rightarrow> int \<Rightarrow> item_key" where
  "own_key deps n =
     \<lparr>pk = journalPartitionKey (jd_scope deps), sk = journal_sort_key (jd_source deps) (jd_instance deps) n\<rparr>"

lemma own_key_inject [simp]:
  "isSourceSequence m \<Longrightarrow> isSourceSequence n \<Longrightarrow> own_key deps m = own_key deps n \<longleftrightarrow> m = n"
  by (simp add: own_key_def)

text \<open>
  The evidence of an instance that reported the entries \<open>es\<close>: they lie in its first slots, in
  order, nothing lies beyond the next slot, and the next slot is free while the writer may use it.
\<close>

definition instance_evidence :: "journal_entry list \<Rightarrow> journal_writer \<Rightarrow> (int \<Rightarrow> stored_item option) \<Rightarrow> bool" where
  "instance_evidence es jw slots \<longleftrightarrow>
     jw_next jw = int (length es) + 1
     \<and> (\<forall>i<length es. isSourceSequence (int i + 1) \<and> slots (int i + 1) = Some (je_item (es ! i)))
     \<and> (\<forall>n. isSourceSequence n \<longrightarrow> jw_next jw < n \<longrightarrow> slots n = None)
     \<and> (jw_stopped jw = None \<longrightarrow> jw_reservation jw = None \<longrightarrow> isSourceSequence (jw_next jw) \<longrightarrow> slots (jw_next jw) = None)
     \<and> jw_stopped jw \<noteq> Some SEQUENCE_CONFLICT"

lemma evidence_update [simp]:
  "instance_evidence es (jw\<lparr>jw_retryable := put\<rparr>) slots = instance_evidence es jw slots"
  "instance_evidence es (jw\<lparr>jw_in_flight := n\<rparr>) slots = instance_evidence es jw slots"
  by (simp_all add: instance_evidence_def)

lemma evidence_fields:
  "instance_evidence es jw slots \<Longrightarrow> jw_next jw' = jw_next jw \<Longrightarrow> jw_stopped jw' = jw_stopped jw \<Longrightarrow>
   jw_reservation jw' = jw_reservation jw \<Longrightarrow> instance_evidence es jw' slots"
  by (auto simp: instance_evidence_def)

text \<open>The entry the writer makes of an event at a sequence.\<close>

definition entry_for ::
  "'w journal_writer_deps \<Rightarrow> string \<Rightarrow> json_object \<Rightarrow> uuid4 list \<Rightarrow> int \<Rightarrow> journal_entry \<Rightarrow> bool" where
  "entry_for deps type body causation n e \<longleftrightarrow>
     isSourceSequence n \<and> je_key e = own_key deps n
     \<and> je_item e = obj_merge (je_event e) (key_members (je_key e))
     \<and> (\<exists>inp. buildJournalEvent type body inp = Inr (je_event e) \<and> ei_sequence inp = n \<and> ei_causation inp = causation)"

text \<open>The class of an outcome when the put itself cannot fail its condition.\<close>

fun plain_class :: "write_outcome \<Rightarrow> journal_outcome_class" where
  "plain_class Applied = OutcomeApplied"
| "plain_class (Ambiguous _) = OutcomeAmbiguous"
| "plain_class _ = OutcomeNotApplied"

text \<open>Actions and uses of the writer that leave the slots of the instance alone.\<close>

definition leaves_slots :: "'w journal_writer_deps \<Rightarrow> table_role \<Rightarrow> write_action \<Rightarrow> bool" where
  "leaves_slots deps table a \<longleftrightarrow>
     action_table a \<noteq> table \<or> (\<forall>n. isSourceSequence n \<longrightarrow> action_key a \<noteq> own_key deps n)"

fun op_leaves_slots :: "'w journal_writer_deps \<Rightarrow> table_role \<Rightarrow> journal_op \<Rightarrow> bool" where
  "op_leaves_slots deps table (AppendOp _ _ _) \<longleftrightarrow> True"
| "op_leaves_slots deps table (TransactOp _ _ _ before after _) \<longleftrightarrow>
     list_all (leaves_slots deps table) before \<and> list_all (leaves_slots deps table) after"

locale journal_environment = store_environment store view sane rely
  for store :: "'w durable_item_store" and view :: "'w \<Rightarrow> tables" and sane :: "'w \<Rightarrow> bool"
    and rely :: "tables \<Rightarrow> tables \<Rightarrow> bool" +
  fixes deps :: "'w journal_writer_deps" and table :: table_role
  assumes durable_port: "jd_port deps = createDurableJournalPort store table"
    and clock_law: "sane w \<Longrightarrow> run_state (jd_clock deps) w = (now, w') \<Longrightarrow> sane w' \<and> rely (view w) (view w')"
    and ids_law: "sane w \<Longrightarrow> run_state (jd_ids deps) w = (drawn, w') \<Longrightarrow> sane w' \<and> rely (view w) (view w')"
    and own_slots: "rely db db' \<Longrightarrow> isSourceSequence n \<Longrightarrow> db' table (own_key deps n) = db table (own_key deps n)"
begin

definition slots_of :: "tables \<Rightarrow> int \<Rightarrow> stored_item option" where
  "slots_of db = (\<lambda>n. if isSourceSequence n then db table (own_key deps n) else None)"

abbreviation slot :: "'w \<Rightarrow> int \<Rightarrow> stored_item option" where
  "slot w \<equiv> slots_of (view w)"

definition evidence :: "journal_entry list \<Rightarrow> journal_writer \<Rightarrow> 'w \<Rightarrow> bool" where
  "evidence es jw w \<longleftrightarrow> sane w \<and> instance_evidence es jw (slot w)"

lemma slots_rely: "rely db db' \<Longrightarrow> slots_of db' = slots_of db"
  using own_slots by (auto simp: slots_of_def fun_eq_iff)

lemma slots_set_item:
  "isSourceSequence n \<Longrightarrow> slots_of (set_item table (own_key deps n) i db) = (slots_of db)(n \<mapsto> i)"
  by (auto simp: slots_of_def set_item_def fun_eq_iff)

lemma nextEntry_law:
  assumes "evidence es jw w" and "run_state (nextEntry deps type body causation) (jw, w) = (r, (jw', w'))"
  shows "evidence es jw' w' \<and> jw' = jw\<lparr>jw_retryable := None\<rparr>
    \<and> (\<forall>e. r = Inr e \<longrightarrow> entry_for deps type body causation (jw_next jw) e)"
proof -
  obtain ri w1 where i: "run_state (jd_ids deps) w = (ri, w1)" by fastforce
  obtain rc w2 where c: "run_state (jd_clock deps) w1 = (rc, w2)" by fastforce
  have "sane w" using assms(1) by (simp add: evidence_def)
  note w1 = ids_law [OF this i]
  note w2 = clock_law [OF w1 [THEN conjunct1] c]
  have "slot w1 = slot w" "slot w2 = slot w" using slots_rely w1 w2 by metis+
  then have ev: "evidence es (jw\<lparr>jw_retryable := None\<rparr>) w1" "evidence es (jw\<lparr>jw_retryable := None\<rparr>) w2"
    using assms(1) w1 w2 by (simp_all add: evidence_def)
  show ?thesis
    using assms(2) i c ev
    by (auto simp: nextEntry_def toJournalEntry_def journalItemKey_def assertSourceSequence_def own_key_def
        entry_for_def split: sum.splits if_splits)
qed

text \<open>One put into a free slot: it fills the slot, leaves everything as it was, or either.\<close>

definition put_meaning ::
  "journal_entry \<Rightarrow> int \<Rightarrow> (int \<Rightarrow> stored_item option) \<Rightarrow> journal_outcome_class \<Rightarrow> (int \<Rightarrow> stored_item option) \<Rightarrow> bool" where
  "put_meaning e n slots verdict slots' \<longleftrightarrow>
     (case verdict of
        OutcomeApplied \<Rightarrow> slots' = slots(n \<mapsto> je_item e)
      | OutcomeNotApplied \<Rightarrow> slots' = slots
      | OutcomeAmbiguous \<Rightarrow> slots' = slots \<or> slots' = slots(n \<mapsto> je_item e)
      | OutcomeConflict \<Rightarrow> False)"

lemma put_free_slot:
  assumes "slots_of db n = None" and "isSourceSequence n" and "je_key e = own_key deps n"
  shows "action_guard (journalPutAction table e) db"
    and "slots_of (action_effect (journalPutAction table e) db) = (slots_of db)(n \<mapsto> je_item e)"
  using assms by (simp_all add: journalPutAction_def action_guard_def action_effect_def slots_set_item)
    (simp add: slots_of_def)

lemma journal_write_law:
  assumes "sane w" and "slot w n = None" and "isSourceSequence n" and "je_key e = own_key deps n"
    and "run_state (journal_write deps e) (jw, w) = (r, (jw', w'))"
  shows "jw' = jw \<and> sane w' \<and> (\<exists>verdict. r = Inr verdict \<and> put_meaning e n (slot w) verdict (slot w'))"
proof -
  let ?a = "journalPutAction table e"
  obtain r0 w1 where run: "run_state (item_write store ?a) w = (r0, w1)" by fastforce
  from write_law [OF assms(1) run] obtain db where sane: "sane w1" and db: "rely (view w) db"
    and law: "case r0 of Inr outcome \<Rightarrow> (\<exists>f. store_write f ?a db = (outcome, view w1))
          | Inl _ \<Rightarrow> view w1 = db \<or> (action_guard ?a db \<and> view w1 = action_effect ?a db)" by blast
  have slots: "slots_of db = slot w" using slots_rely db by blast
  with assms(2) have free: "slots_of db n = None" by simp
  note put = put_free_slot [OF free assms(3,4)]
  have w: "w' = w1" "jw' = jw"
    using assms(5) run by (auto simp: journal_write_def durable_port createDurableJournalPort_def split: sum.splits)
  show ?thesis
  proof (cases r0)
    case (Inl x)
    with assms(5) run have "r = Inr OutcomeAmbiguous"
      by (auto simp: journal_write_def durable_port createDurableJournalPort_def)
    with Inl law put slots sane w show ?thesis by (auto simp: put_meaning_def)
  next
    case (Inr outcome)
    with law obtain f where f: "store_write f ?a db = (outcome, view w1)" by auto
    have cond: "outcome \<noteq> ConditionFailed k x" for k x
      using f put(1) by (auto simp: store_write_cases execute_single split: option.splits scripted_fault.splits sum.splits)
    with assms(5) run Inr have r: "r = classifyJournalOutcome outcome e 0"
      by (cases outcome) (auto simp: journal_write_def durable_port createDurableJournalPort_def)
    show ?thesis
    proof (cases outcome)
      case Applied
      with f put slots sane w r show ?thesis
        using single_write.applied [of f ?a db] by (auto simp: put_meaning_def)
    next
      case (Ambiguous c)
      with f put slots sane w r show ?thesis
        using single_write.ambiguous [of f ?a db] by (auto simp: put_meaning_def)
    next
      case (DefinitiveFailure c)
      with f put slots sane w r show ?thesis
        using single_write.definitive [of f ?a db] by (auto simp: put_meaning_def)
    next
      case (ConditionFailed k x)
      with cond show ?thesis by blast
    qed
  qed
qed

lemma retry_write_law:
  assumes "sane w" and "isSourceSequence n" and "je_key e = own_key deps n"
    and "put_meaning e n slots verdict (slot w)" and "slots n = None"
    and "run_state (retry_write deps e k verdict) (jw, w) = (r, (jw', w'))"
  shows "jw' = jw \<and> sane w' \<and> (\<exists>verdict'. r = Inr verdict' \<and> put_meaning e n slots verdict' (slot w'))"
  using assms
proof (induction k arbitrary: verdict w)
  case (Suc k)
  show ?case
  proof (cases "verdict = OutcomeNotApplied")
    case True
    with Suc.prems have same: "slot w = slots" by (simp add: put_meaning_def)
    obtain r1 jw1 w1 where first: "run_state (journal_write deps e) (jw, w) = (r1, (jw1, w1))"
      by (metis prod_cases3)
    from journal_write_law [OF Suc.prems(1) _ Suc.prems(2,3) first] Suc.prems(5) same obtain v
      where v: "jw1 = jw" "sane w1" "r1 = Inr v" "put_meaning e n slots v (slot w1)" by auto
    with Suc.IH [OF v(2) Suc.prems(2,3) v(4) Suc.prems(5)] Suc.prems(6) True first show ?thesis by simp
  next
    case False
    with Suc.prems show ?thesis by auto
  qed
qed auto

text \<open>
  What an operation of the writer may do to the evidence: nothing, or add exactly the entry it
  reports.
\<close>

lemma evidence_append:
  assumes "instance_evidence es jw slots" and "jw_stopped jw = None" and "jw_reservation jw = None"
    and "isSourceSequence (jw_next jw)" and "put_meaning e (jw_next jw) slots verdict slots'"
  shows "verdict = OutcomeApplied \<Longrightarrow> instance_evidence (es @ [e]) (jw\<lparr>jw_next := jw_next jw + 1\<rparr>) slots'"
    and "verdict = OutcomeNotApplied \<Longrightarrow> instance_evidence es jw slots'"
    and "verdict = OutcomeNotApplied \<Longrightarrow> instance_evidence es (jw\<lparr>jw_stopped := Some DEFINITIVE_RETRIES_EXHAUSTED\<rparr>) slots'"
    and "verdict = OutcomeAmbiguous \<Longrightarrow> instance_evidence es (jw\<lparr>jw_stopped := Some AMBIGUOUS_APPEND\<rparr>) slots'"
    and "verdict \<noteq> OutcomeConflict"
  using assms by (auto simp: instance_evidence_def put_meaning_def nth_append less_Suc_eq)

lemma append_law:
  assumes "evidence es jw w" and "run_state (journal_append deps type body causation) (jw, w) = (r, (jw', w'))"
  shows "\<exists>es'. evidence es' jw' w' \<and> jw_reservation jw' = jw_reservation jw
    \<and> (case r of
         Inr (Appended ev) \<Rightarrow>
           (\<exists>e. es' = es @ [e] \<and> je_event e = ev \<and> entry_for deps type body causation (int (length es) + 1) e)
       | Inr (AppendStopped _) \<Rightarrow> es' = es \<and> jw_stopped jw' \<noteq> None
       | Inl _ \<Rightarrow> es' = es)"
proof -
  let ?jw = "jw\<lparr>jw_in_flight := jw_in_flight jw + 1\<rparr>"
  have ev0: "evidence es ?jw w" using assms(1) by (simp add: evidence_def)
  obtain r0 jw0 where run: "run_state (appendInOrder deps type body causation) (?jw, w) = (r0, (jw0, w'))"
    and fin: "r = r0" "jw' = jw0\<lparr>jw_in_flight := jw_in_flight jw0 - 1\<rparr>"
    using assms(2) by (cases "run_state (appendInOrder deps type body causation) (?jw, w)")
      (auto simp: journal_append_def)
  show ?thesis
  proof (cases "jw_stopped jw = None \<and> jw_reservation jw = None")
    case False
    with run assms(1) fin show ?thesis
      by (auto simp: appendInOrder_def evidence_def split: if_splits)
  next
    case True
    obtain r1 jw1 w1 where ne: "run_state (nextEntry deps type body causation) (?jw, w) = (r1, (jw1, w1))"
      by (metis prod_cases3)
    note law = nextEntry_law [OF ev0 ne]
    show ?thesis
    proof (cases r1)
      case (Inl x)
      with run True ne law fin show ?thesis by (auto simp: appendInOrder_def evidence_def)
    next
      case (Inr e)
      from law Inr have ef: "entry_for deps type body causation (jw_next jw) e"
        and ev1: "evidence es jw1 w1" and jw1: "jw1 = ?jw\<lparr>jw_retryable := None\<rparr>" by auto
      then have e: "je_key e = own_key deps (jw_next jw)" "isSourceSequence (jw_next jw)" by (auto simp: entry_for_def)
      from ev1 jw1 True e(2) have free: "slot w1 (jw_next jw) = None" and sane1: "sane w1"
        by (auto simp: evidence_def instance_evidence_def)
      obtain r2 jw2 w2 where wr: "run_state (journal_write deps e) (jw1, w1) = (r2, (jw2, w2))" by (metis prod_cases3)
      from journal_write_law [OF sane1 free e(2,1) wr] obtain v2 where
        v2: "jw2 = jw1" "sane w2" "r2 = Inr v2" "put_meaning e (jw_next jw) (slot w1) v2 (slot w2)" by blast
      obtain r3 jw3 w3 where rt: "run_state (retry_write deps e (jd_max_retries deps) v2) (jw1, w2) = (r3, (jw3, w3))"
        by (metis prod_cases3)
      from retry_write_law [OF v2(2) e(2,1) v2(4) free rt] obtain v3 where
        v3: "jw3 = jw1" "sane w3" "r3 = Inr v3" "put_meaning e (jw_next jw) (slot w1) v3 (slot w3)" by blast
      have w': "w' = w3"
        using run True ne Inr wr v2 rt v3
        by (auto simp: appendInOrder_def journal_settle_def journal_stop_def jw1 split: if_splits)
      have ie: "instance_evidence es jw1 (slot w1)" "jw_stopped jw1 = None" "jw_reservation jw1 = None"
        "jw_next jw1 = jw_next jw" "jw_next jw = int (length es) + 1"
        using ev1 True unfolding jw1 by (auto simp: evidence_def instance_evidence_def)
      note add = evidence_append [OF ie(1-3), unfolded ie(4), OF e(2) v3(4)]
      have out: "(r0, jw0) = (if v3 = OutcomeNotApplied then
            (Inr (AppendStopped DEFINITIVE_RETRIES_EXHAUSTED), jw1\<lparr>jw_stopped := Some DEFINITIVE_RETRIES_EXHAUSTED\<rparr>)
          else if v3 = OutcomeAmbiguous then
            (Inr (AppendStopped AMBIGUOUS_APPEND), jw1\<lparr>jw_stopped := Some AMBIGUOUS_APPEND\<rparr>)
          else (Inr (Appended (je_event e)), jw1\<lparr>jw_next := jw_next jw1 + 1\<rparr>))"
        using run True ne Inr wr v2 rt v3 add(5)
        by (auto simp: appendInOrder_def journal_settle_def journal_stop_def jw1 split: if_splits)
      show ?thesis
      proof (cases "v3 = OutcomeApplied")
        case True
        with out add(1) v3 w' fin ie ef jw1 show ?thesis
          by (intro exI [of _ "es @ [e]"]) (auto simp: evidence_def elim: evidence_fields)
      next
        case False
        with out add(3-5) v3 w' fin ie jw1 show ?thesis
          by (intro exI [of _ es], cases v3) (auto simp: evidence_def elim: evidence_fields)
      qed
    qed
  qed
qed

lemma slots_commits_other:
  "list_all (leaves_slots deps table) as \<Longrightarrow> slots_of (apply_commits (concat (map (action_commits db) as)) d) = slots_of d"
proof (induction as arbitrary: d)
  case (Cons a as)
  have "slots_of (apply_commits (action_commits db a) d) = slots_of d"
    using Cons.prems
    by (auto simp: apply_commits_def set_item_def slots_of_def leaves_slots_def fun_eq_iff
        split: sum.splits option.splits)
  with Cons show ?case by (simp add: apply_commits_def)
qed (simp add: apply_commits_def)

lemma slots_transact:
  assumes "list_all (leaves_slots deps table) before" and "list_all (leaves_slots deps table) after"
    and "isSourceSequence n" and "je_key e = own_key deps n"
  shows "slots_of (transact_effect (before @ journalPutAction table e # after) db) = (slots_of db)(n \<mapsto> je_item e)"
proof -
  have split: "apply_commits (xs @ ys) d = apply_commits ys (apply_commits xs d)" for xs ys d
    by (simp add: apply_commits_def)
  have "apply_commits (action_commits db (journalPutAction table e)) d = set_item table (own_key deps n) (je_item e) d" for d
    using assms(4) by (simp add: apply_commits_def journalPutAction_def)
  with assms show ?thesis
    by (simp add: transact_effect_def split slots_commits_other slots_set_item)
qed

lemma transact_put_law:
  assumes "sane w" and "slot w n = None" and "isSourceSequence n" and "je_key e = own_key deps n"
    and "list_all (leaves_slots deps table) before" and "list_all (leaves_slots deps table) after"
    and "run_state (item_transact store (before @ journalPutAction table e # after) token) w = (r, w')"
  shows "sane w' \<and> (case r of
      Inr outcome \<Rightarrow> classifyJournalOutcome outcome e (length before) = Inr (plain_class outcome)
        \<and> put_meaning e n (slot w) (plain_class outcome) (slot w')
    | Inl _ \<Rightarrow> slot w' = slot w \<or> slot w' = (slot w)(n \<mapsto> je_item e))"
proof -
  let ?as = "before @ journalPutAction table e # after"
  from transact_law [OF assms(1,7)] obtain db where sane: "sane w'" and db: "rely (view w) db"
    and law: "case r of Inr outcome \<Rightarrow> (\<exists>f. store_transact f ?as db = (outcome, view w'))
          | Inl _ \<Rightarrow> view w' = db \<or> (transact_guard ?as db \<and> view w' = transact_effect ?as db)" by blast
  have slots: "slots_of db = slot w" using slots_rely db by blast
  note eff = slots_transact [OF assms(5,6,3,4), of db, unfolded slots]
  show ?thesis
  proof (cases r)
    case (Inl x)
    with law slots eff sane show ?thesis by auto
  next
    case (Inr outcome)
    with law obtain f where f: "store_transact f ?as db = (outcome, view w')" by auto
    have "classifyJournalOutcome outcome e (length before) = Inr (plain_class outcome)
        \<and> put_meaning e n (slot w) (plain_class outcome) (slot w')"
    proof (cases outcome)
      case (ConditionFailed k x)
      note cf = store_transact_condition_failed [OF f [unfolded ConditionFailed]]
      have "action_guard (?as ! length before) db"
        using put_free_slot(1) [of db n e] assms(2-4) slots by (simp add: nth_append)
      with cf have "k \<noteq> length before" by metis
      with cf slots ConditionFailed show ?thesis
        by (auto simp: classifyConditionFailure_def put_meaning_def)
    qed (use f eff slots transaction.applied [of f ?as db] transaction.ambiguous [of f ?as db]
           transaction.definitive [of f ?as db] in \<open>auto simp: put_meaning_def\<close>)
    with Inr sane show ?thesis by simp
  qed
qed

lemma prepare_law:
  assumes "evidence es jw w" and "run_state (journal_prepare deps type body causation) (jw, w) = (r, (jw', w'))"
  shows "evidence es jw' w' \<and> (\<forall>put. r = Inr (Prepared put) \<longrightarrow>
      entry_for deps type body causation (int (length es) + 1) put
      \<and> jw' = jw\<lparr>jw_reservation := Some put, jw_retryable := None\<rparr> \<and> jw_stopped jw = None \<and> jw_reservation jw = None
      \<and> slot w' (int (length es) + 1) = None)
    \<and> (\<forall>reason. r = Inr (PrepareStopped reason) \<longrightarrow> jw_stopped jw' \<noteq> None)"
proof (cases "jw_stopped jw = None \<and> jw_reservation jw = None \<and> jw_in_flight jw = 0")
  case False
  with assms show ?thesis by (auto simp: journal_prepare_def assertIdle_def split: if_splits)
next
  case True
  obtain r1 jw1 w1 where ne: "run_state (nextEntry deps type body causation) (jw, w) = (r1, (jw1, w1))"
    by (metis prod_cases3)
  note law = nextEntry_law [OF assms(1) ne]
  have nx: "jw_next jw = int (length es) + 1"
    using assms(1) by (simp add: evidence_def instance_evidence_def)
  show ?thesis
  proof (cases r1)
    case (Inl x)
    with assms True ne law show ?thesis by (auto simp: journal_prepare_def assertIdle_def)
  next
    case (Inr e)
    with law have e: "entry_for deps type body causation (int (length es) + 1) e" "evidence es jw1 w1"
      "jw1 = jw\<lparr>jw_retryable := None\<rparr>" using nx by auto
    then have "slot w1 (int (length es) + 1) = None" and "evidence es (jw1\<lparr>jw_reservation := Some e\<rparr>) w1"
      using True nx by (auto simp: evidence_def instance_evidence_def entry_for_def)
    with assms True ne Inr e show ?thesis
      by (auto simp: journal_prepare_def assertIdle_def journal_reserve_def evidence_def elim: evidence_fields)
  qed
qed

lemma confirm_law:
  assumes "instance_evidence es (jw\<lparr>jw_reservation := None\<rparr>) slots" and "sane w"
    and "jw_reservation jw = Some put" and "jw_stopped jw = None"
    and "entry_for deps type body causation (int (length es) + 1) put"
    and "classifyJournalOutcome outcome put k = Inr v" and "put_meaning put (int (length es) + 1) slots v (slot w)"
    and "run_state (journal_confirm put outcome k) (jw, w) = (r, (jw', w'))"
  shows "w' = w \<and> jw_reservation jw' = None \<and> (\<exists>es'. evidence es' jw' w \<and>
    (case r of
       Inr (Confirmed ev) \<Rightarrow> es' = es @ [put] \<and> je_event put = ev \<and> v = OutcomeApplied
     | Inr (ConfirmStopped reason) \<Rightarrow> es' = es \<and> jw_stopped jw' \<noteq> None \<and> reason = AMBIGUOUS_APPEND \<and> v = OutcomeAmbiguous
     | Inr (NotApplied ev oc) \<Rightarrow> es' = es \<and> oc = outcome \<and> v = OutcomeNotApplied \<and> jw_stopped jw' = None
     | Inl _ \<Rightarrow> False))"
proof -
  let ?jw = "jw\<lparr>jw_reservation := None\<rparr>"
  have nx: "jw_next ?jw = int (length es) + 1" "jw_stopped ?jw = None" "jw_reservation ?jw = None"
    using assms(1,4) by (auto simp: instance_evidence_def)
  have seq: "isSourceSequence (jw_next ?jw)" using assms(5) unfolding nx(1) by (simp add: entry_for_def)
  note add = evidence_append [OF assms(1) nx(2,3) seq assms(7) [folded nx(1)]]
  show ?thesis
  proof (cases v)
    case OutcomeApplied
    with add(1) assms(2-4,6,8) show ?thesis
      by (auto simp: journal_confirm_def journal_settle_def evidence_def)
  next
    case OutcomeNotApplied
    with add(2) assms(2-4,6,8) show ?thesis by (auto simp: journal_confirm_def evidence_def)
  next
    case OutcomeAmbiguous
    with add(4) assms(2-4,6,8) show ?thesis
      by (auto simp: journal_confirm_def journal_settle_def journal_stop_def evidence_def)
  next
    case OutcomeConflict
    with add(5) show ?thesis by simp
  qed
qed

lemma evidence_reserved:
  assumes "evidence es jw w" and "jw_reservation jw = Some put" and "slot w' = slot w \<or> slot w' = (slot w)(int (length es) + 1 \<mapsto> x)"
    and "sane w'"
  shows "evidence es jw w'"
  using assms by (auto simp: evidence_def instance_evidence_def)

lemma journal_transact_law:
  assumes "evidence es jw w" and "list_all (leaves_slots deps table) before" and "\<And>put. list_all (leaves_slots deps table) (after put)"
    and "run_state (journal_transact deps store table type body causation before after token) (jw, w) = (r, (jw', w'))"
  shows "\<exists>es'. evidence es' jw' w'
    \<and> (case r of
         Inr (Confirmed ev) \<Rightarrow>
           (\<exists>e. es' = es @ [e] \<and> je_event e = ev \<and> entry_for deps type body causation (int (length es) + 1) e)
       | _ \<Rightarrow> es' = es)"
proof -
  obtain r1 jw1 w1 where p: "run_state (journal_prepare deps type body causation) (jw, w) = (r1, (jw1, w1))"
    by (metis prod_cases3)
  note law = prepare_law [OF assms(1) p]
  show ?thesis
  proof (cases "\<exists>put. r1 = Inr (Prepared put)")
    case False
    with assms(4) p law show ?thesis
      by (auto simp: journal_transact_def split: sum.splits prepare_result.splits)
  next
    case True
    then obtain put where put: "r1 = Inr (Prepared put)" ..
    with law have e: "entry_for deps type body causation (int (length es) + 1) put" and ev1: "evidence es jw1 w1"
      and jw1: "jw1 = jw\<lparr>jw_reservation := Some put, jw_retryable := None\<rparr>"
      and free: "slot w1 (int (length es) + 1) = None" and live: "jw_stopped jw = None" by auto
    from e have k: "isSourceSequence (int (length es) + 1)" "je_key put = own_key deps (int (length es) + 1)"
      by (auto simp: entry_for_def)
    have sane1: "sane w1" using ev1 by (simp add: evidence_def)
    obtain r2 w2 where t: "run_state (item_transact store (before @ journalPutAction table put # after put) token) w1 = (r2, w2)"
      by fastforce
    note tl = transact_put_law [OF sane1 free k assms(2) assms(3) [of put] t]
    show ?thesis
    proof (cases r2)
      case (Inl x)
      with tl jw1 ev1 have "evidence es jw1 w2" by (intro evidence_reserved [OF ev1, of put]) auto
      with assms(4) p put t Inl show ?thesis by (auto simp: journal_transact_def)
    next
      case (Inr outcome)
      with tl have v: "classifyJournalOutcome outcome put (length before) = Inr (plain_class outcome)"
        "put_meaning put (int (length es) + 1) (slot w1) (plain_class outcome) (slot w2)" and sane2: "sane w2" by auto
      have ie: "instance_evidence es (jw1\<lparr>jw_reservation := None\<rparr>) (slot w1)"
        using ev1 free live jw1 by (auto simp: evidence_def instance_evidence_def)
      obtain r3 jw3 w3 where c: "run_state (journal_confirm put outcome (length before)) (jw1, w2) = (r3, (jw3, w3))"
        by (metis prod_cases3)
      from confirm_law [OF ie sane2 _ _ e v c] jw1 live obtain es' where cl: "w3 = w2" "evidence es' jw3 w2"
        "case r3 of Inr (Confirmed ev) \<Rightarrow> es' = es @ [put] \<and> je_event put = ev \<and> plain_class outcome = OutcomeApplied
          | Inr (ConfirmStopped reason) \<Rightarrow> es' = es \<and> jw_stopped jw3 \<noteq> None \<and> reason = AMBIGUOUS_APPEND \<and> plain_class outcome = OutcomeAmbiguous
          | Inr (NotApplied ev oc) \<Rightarrow> es' = es \<and> oc = outcome \<and> plain_class outcome = OutcomeNotApplied \<and> jw_stopped jw3 = None
          | Inl _ \<Rightarrow> False" by auto
      have "r = r3 \<and> jw' = jw3 \<and> w' = w3"
        using assms(4) p put t Inr c by (simp add: journal_transact_def)
      with cl e show ?thesis by (intro exI [of _ es']) (auto split: sum.splits confirm_result.splits)
    qed
  qed
qed

definition reported :: "journal_entry list \<Rightarrow> bool" where
  "reported es \<longleftrightarrow> (\<forall>i<length es. \<exists>type body causation. entry_for deps type body causation (int i + 1) (es ! i))"

lemma reported_snoc:
  "reported es \<Longrightarrow> entry_for deps type body causation (int (length es) + 1) e \<Longrightarrow> reported (es @ [e])"
  by (auto simp: reported_def nth_append less_Suc_eq)

lemma run_op_law:
  assumes "evidence es jw w" and "reported es" and "op_leaves_slots deps table op"
    and "run_state (io_catch (run_op deps store table op) (\<lambda>_. io_return [])) (jw, w) = (r, (jw', w'))"
  shows "\<exists>new. evidence (es @ new) jw' w' \<and> reported (es @ new) \<and> r = Inr (map je_event new)"
proof (cases op)
  case (AppendOp type body causation)
  obtain r1 jw1 w1 where run: "run_state (journal_append deps type body causation) (jw, w) = (r1, (jw1, w1))"
    by (metis prod_cases3)
  from append_law [OF assms(1) run] obtain es' where es': "evidence es' jw1 w1"
    "case r1 of Inr (Appended ev) \<Rightarrow> (\<exists>e. es' = es @ [e] \<and> je_event e = ev \<and> entry_for deps type body causation (int (length es) + 1) e)
       | Inr (AppendStopped _) \<Rightarrow> es' = es \<and> jw_stopped jw1 \<noteq> None | Inl _ \<Rightarrow> es' = es" by blast
  have res: "jw' = jw1 \<and> w' = w1 \<and> r = Inr (case r1 of Inr (Appended ev) \<Rightarrow> [ev] | _ \<Rightarrow> [])"
    using assms(4) run AppendOp by (auto split: sum.splits append_result.splits)
  show ?thesis
  proof (cases "\<exists>ev. r1 = Inr (Appended ev)")
    case True
    with es' obtain e where "es' = es @ [e]" "r1 = Inr (Appended (je_event e))"
      "entry_for deps type body causation (int (length es) + 1) e" by auto
    with es'(1) res assms(2) show ?thesis by (intro exI [of _ "[e]"]) (auto intro: reported_snoc)
  next
    case False
    with es' res assms(2) show ?thesis
      by (intro exI [of _ "[]"]) (auto split: sum.splits append_result.splits)
  qed
next
  case (TransactOp type body causation before after token)
  obtain r1 jw1 w1 where run:
    "run_state (journal_transact deps store table type body causation before (\<lambda>_. after) token) (jw, w) = (r1, (jw1, w1))"
    by (metis prod_cases3)
  from journal_transact_law [OF assms(1) _ _ run] assms(3) TransactOp obtain es' where es': "evidence es' jw1 w1"
    "case r1 of Inr (Confirmed ev) \<Rightarrow> (\<exists>e. es' = es @ [e] \<and> je_event e = ev \<and> entry_for deps type body causation (int (length es) + 1) e)
       | _ \<Rightarrow> es' = es" by auto
  have res: "jw' = jw1 \<and> w' = w1 \<and> r = Inr (case r1 of Inr (Confirmed ev) \<Rightarrow> [ev] | _ \<Rightarrow> [])"
    using assms(4) run TransactOp by (auto split: sum.splits confirm_result.splits)
  show ?thesis
  proof (cases "\<exists>ev. r1 = Inr (Confirmed ev)")
    case True
    with es' obtain e where "es' = es @ [e]" "r1 = Inr (Confirmed (je_event e))"
      "entry_for deps type body causation (int (length es) + 1) e" by auto
    with es'(1) res assms(2) show ?thesis by (intro exI [of _ "[e]"]) (auto intro: reported_snoc)
  next
    case False
    with es' res assms(2) show ?thesis
      by (intro exI [of _ "[]"]) (auto split: sum.splits confirm_result.splits)
  qed
qed

lemma run_ops_law:
  assumes "evidence es jw w" and "reported es" and "list_all (op_leaves_slots deps table) ops"
    and "run_state (run_ops deps store table ops) (jw, w) = (r, (jw', w'))"
  shows "\<exists>new. evidence (es @ new) jw' w' \<and> reported (es @ new) \<and> r = Inr (map je_event new)"
  using assms
proof (induction ops arbitrary: es jw w r jw' w')
  case Nil
  then show ?case by (auto intro: exI [of _ "[]"])
next
  case (Cons op ops)
  obtain r1 jw1 w1 where run: "run_state (io_catch (run_op deps store table op) (\<lambda>_. io_return [])) (jw, w) = (r1, (jw1, w1))"
    by (metis prod_cases3)
  from run_op_law [OF Cons.prems(1,2) _ run] Cons.prems(3) obtain new where
    new: "evidence (es @ new) jw1 w1" "reported (es @ new)" "r1 = Inr (map je_event new)" by auto
  obtain r2 jw2 w2 where rest: "run_state (run_ops deps store table ops) (jw1, w1) = (r2, (jw2, w2))"
    by (metis prod_cases3)
  from Cons.IH [OF new(1,2) _ rest] Cons.prems(3) obtain more where
    more: "evidence ((es @ new) @ more) jw2 w2" "reported ((es @ new) @ more)" "r2 = Inr (map je_event more)" by auto
  with Cons.prems(4) run new rest have "r = Inr (map je_event (new @ more)) \<and> jw' = jw2 \<and> w' = w2"
    by (simp del: run_io_catch)
  with more show ?case by (intro exI [of _ "new @ more"]) simp
qed

end

subsection \<open>The scripted instance\<close>

definition world_journal :: "string \<Rightarrow> uuid4 \<Rightarrow> journal_scope \<Rightarrow> nat \<Rightarrow> table_role \<Rightarrow> world journal_writer_deps" where
  "world_journal source instance_id scope retries table =
     \<lparr>jd_port = createDurableJournalPort world_store table, jd_source = source, jd_instance = instance_id,
      jd_scope = scope, jd_clock = world_clock, jd_ids = world_uuid, jd_max_retries = retries\<rparr>"

lemma transact_other_key:
  assumes "list_all (\<lambda>a. action_table a \<noteq> t \<or> action_key a \<noteq> k) as"
  shows "snd (store_transact f as db) t k = db t k"
proof -
  have "apply_commits cs d t k = d t k"
    if "\<forall>c\<in>set cs. fst c \<noteq> t \<or> fst (snd c) \<noteq> k" for cs d
    using that by (induction cs arbitrary: d) (auto simp: apply_commits_def set_item_def split: prod.splits)
  moreover have "\<forall>c\<in>set (concat (map (action_commits db) as)). fst c \<noteq> t \<or> fst (snd c) \<noteq> k"
    using assms by (auto simp: list_all_iff split: sum.splits option.splits)
  ultimately have "transact_effect as db t k = db t k" by (simp add: transact_effect_def)
  moreover obtain r db' where "store_transact f as db = (r, db')" by fastforce
  ultimately show ?thesis using transaction.state_after [of f as db r db'] by auto
qed

interpretation scripted_journal: journal_environment
    world_store wd_tables "script_allows (list_all (leaves_slots (world_journal source instance_id scope retries table) table))"
    "(foreign_move (list_all (leaves_slots (world_journal source instance_id scope retries table) table)))\<^sup>*\<^sup>*"
    "world_journal source instance_id scope retries table" table
  for source instance_id scope retries table
proof unfold_locales
  fix db db' n
  assume seq: "isSourceSequence n" and "(foreign_move (list_all (leaves_slots (world_journal source instance_id scope retries table) table)))\<^sup>*\<^sup>* db db'"
  from this(2) show "db' table (own_key (world_journal source instance_id scope retries table) n) =
    db table (own_key (world_journal source instance_id scope retries table) n)"
  proof (induction rule: rtranclp_induct)
    case (step db1 db2)
    then obtain as f where as: "list_all (leaves_slots (world_journal source instance_id scope retries table) table) as"
      "db2 = snd (store_transact f as db1)" by (auto simp: foreign_move_def)
    from as(1) have "list_all (\<lambda>a. action_table a \<noteq> table
        \<or> action_key a \<noteq> own_key (world_journal source instance_id scope retries table) n) as"
      using seq by (auto simp: leaves_slots_def list_all_iff)
    from transact_other_key [OF this] step as(2) show ?case by simp
  qed simp
qed (auto simp: world_journal_def script_allows_def dest: world_clocks_allowed)

text \<open>
  C21: the evidence of a source instance is dense. Whatever a writer is asked to append, alone or
  inside its callers' transactions, and however its store calls fail, the events it reported are
  exactly the items in the first slots of its instance, in order, each with its own sequence
  number; nothing lies beyond the slot that follows them, and that slot stays empty unless the
  instance stopped or an unanswered transaction still holds it.
\<close>

theorem journal_is_dense:
  assumes "script_allows (list_all (leaves_slots deps table)) w"
    and "deps = world_journal source instance_id scope retries table"
    and "\<forall>n. wd_tables w table (own_key deps n) = None"
    and "list_all (op_leaves_slots deps table) ops"
    and "run_state (run_ops deps world_store table ops) (new_journal_writer, w) = (r, (jw, w'))"
  shows "\<exists>evs. r = Inr evs
    \<and> (\<forall>i<length evs. wd_tables w' table (own_key deps (int i + 1)) =
          Some (obj_merge (evs ! i) (key_members (own_key deps (int i + 1))))
        \<and> own_member (evs ! i) ''source_sequence'' = Some (JNumber (JsInt (int i + 1))))
    \<and> (\<forall>n. isSourceSequence n \<longrightarrow> int (length evs) + 1 < n \<longrightarrow> wd_tables w' table (own_key deps n) = None)
    \<and> (isSourceSequence (int (length evs) + 1) \<longrightarrow> \<not> isStopped jw \<longrightarrow> jw_reservation jw = None \<longrightarrow>
        wd_tables w' table (own_key deps (int (length evs) + 1)) = None)
    \<and> jw_stopped jw \<noteq> Some SEQUENCE_CONFLICT"
proof -
  note law = scripted_journal.run_ops_law [of source instance_id scope retries table "[]"]
  have "scripted_journal.evidence source instance_id scope retries table [] new_journal_writer w"
    using assms(1,3)
    by (simp add: scripted_journal.evidence_def instance_evidence_def scripted_journal.slots_of_def
        new_journal_writer_def assms(2))
  from law [OF this _ assms(4,5) [unfolded assms(2)]] obtain es where
    ev: "scripted_journal.evidence source instance_id scope retries table es jw w'"
    and rep: "scripted_journal.reported source instance_id scope retries table es" and r: "r = Inr (map je_event es)"
    by (auto simp: scripted_journal.reported_def)
  have "own_member (je_event (es ! i)) ''source_sequence'' = Some (JNumber (JsInt (int i + 1)))
      \<and> je_item (es ! i) = obj_merge (je_event (es ! i)) (key_members (own_key deps (int i + 1)))" if "i < length es" for i
    using rep that event_envelope(3) by (fastforce simp: scripted_journal.reported_def entry_for_def assms(2))
  with ev show ?thesis unfolding r
    by (intro exI [of _ "map je_event es"])
      (auto simp: scripted_journal.evidence_def instance_evidence_def scripted_journal.slots_of_def
        assms(2) isStopped_def split: if_splits)
qed

definition sample_scope :: journal_scope where
  "sample_scope = \<lparr>js_execution = RunIdentity ''run'', js_manifest = ''digest'', js_partition = ProbePartition\<rparr>"

definition sample_journal :: "world journal_writer_deps" where
  "sample_journal = world_journal ''refund_provider'' ''instance-1'' sample_scope 2 ExperimentJournalTable"

definition sample_ops :: "journal_op list" where
  "sample_ops =
     [AppendOp ''provider_call_received'' [(''caller_id'', JString ''probe'')] [],
      TransactOp ''provider_transaction_committed'' [] [''event-1'']
        [Put LedgerTable \<lparr>pk = ''run#probe'', sk = ''tx#1''\<rparr> [] (Some ItemAbsent)] [] ''token''] "

text \<open>The first append fails definitively once and is retried; the commit's answer is lost.\<close>

definition sample_journal_world :: world where
  "sample_journal_world =
     \<lparr>wd_tables = (\<lambda>_ _. None),
      wd_calls = [quiet_call\<lparr>wc_fault := Some (FaultDefinitive ''Throttled'')\<rparr>, quiet_call,
                  quiet_call\<lparr>wc_fault := Some (FaultAmbiguous ''Timeout'' True)\<rparr>],
      wd_now = 0, wd_ticks = [], wd_wall = [], wd_ids = (\<lambda>n. ''event-'' @ nat_text n), wd_drawn = 1,
      wd_slept = []\<rparr>"

theorem journal_is_dense_witness:
  "\<exists>evs jw w'. run_state (run_ops sample_journal world_store ExperimentJournalTable sample_ops)
       (new_journal_writer, sample_journal_world) = (Inr evs, (jw, w'))
     \<and> (\<forall>i<length evs. wd_tables w' ExperimentJournalTable (own_key sample_journal (int i + 1)) =
          Some (obj_merge (evs ! i) (key_members (own_key sample_journal (int i + 1)))))
     \<and> jw_stopped jw \<noteq> Some SEQUENCE_CONFLICT"
proof -
  obtain r jw w' where run: "run_state (run_ops sample_journal world_store ExperimentJournalTable sample_ops)
       (new_journal_writer, sample_journal_world) = (r, (jw, w'))" by (metis prod_cases3)
  have "script_allows (list_all (leaves_slots sample_journal ExperimentJournalTable)) sample_journal_world"
    by (simp add: script_allows_def sample_journal_world_def quiet_call_def)
  moreover have "\<forall>n. wd_tables sample_journal_world ExperimentJournalTable (own_key sample_journal n) = None"
    by (simp add: sample_journal_world_def)
  moreover have "list_all (op_leaves_slots sample_journal ExperimentJournalTable) sample_ops"
    by (simp add: sample_ops_def leaves_slots_def)
  ultimately show ?thesis
    using journal_is_dense [OF _ sample_journal_def _ _ run] run by auto
qed

end
