(* ===== verification/Treatment_Items.thy ===== *)
theory Treatment_Items
  imports Refund_Call Event_Journal
begin

text \<open>
  The control-table items of a partition as the refund provider (\<^verbatim>\<open>refund-provider/control-items.ts\<close>)
  and the treatment controller (\<^verbatim>\<open>treatment-controller/controller-control-items.ts\<close>) read them, and the
  partitions they serve. A decoder answers \<open>Inl\<close> with the member it refuses.
\<close>

subsection \<open>Vocabularies\<close>

datatype treatment_state =
  ARMED | COMMITTED_WAITING | TIMEOUT_SIGNALLED | TIMEOUT_OBSERVED | RESPONSE_RELEASED | SAFETY_RELEASED

fun state_text :: "treatment_state \<Rightarrow> string" where
  "state_text ARMED = ''ARMED''"
| "state_text COMMITTED_WAITING = ''COMMITTED_WAITING''"
| "state_text TIMEOUT_SIGNALLED = ''TIMEOUT_SIGNALLED''"
| "state_text TIMEOUT_OBSERVED = ''TIMEOUT_OBSERVED''"
| "state_text RESPONSE_RELEASED = ''RESPONSE_RELEASED''"
| "state_text SAFETY_RELEASED = ''SAFETY_RELEASED''"

definition TREATMENT_STATES :: "treatment_state list" where
  "TREATMENT_STATES =
     [ARMED, COMMITTED_WAITING, TIMEOUT_SIGNALLED, TIMEOUT_OBSERVED, RESPONSE_RELEASED, SAFETY_RELEASED]"

definition NONTERMINAL_TREATMENT_STATES :: "treatment_state list" where
  "NONTERMINAL_TREATMENT_STATES = [ARMED, COMMITTED_WAITING, TIMEOUT_SIGNALLED, TIMEOUT_OBSERVED]"

definition SIGNALLED_TREATMENT_STATES :: "treatment_state list" where
  "SIGNALLED_TREATMENT_STATES = [TIMEOUT_SIGNALLED, TIMEOUT_OBSERVED, RESPONSE_RELEASED]"

datatype safety_release_cause = SAFETY_DEADLINE | CLEANUP_REQUEST

fun cause_text :: "safety_release_cause \<Rightarrow> string" where
  "cause_text SAFETY_DEADLINE = ''SAFETY_DEADLINE''"
| "cause_text CLEANUP_REQUEST = ''CLEANUP_REQUEST''"

definition SAFETY_RELEASE_CAUSES :: "safety_release_cause list" where
  "SAFETY_RELEASE_CAUSES = [SAFETY_DEADLINE, CLEANUP_REQUEST]"

fun scenario_text :: "scenario \<Rightarrow> string" where
  "scenario_text CONTROL = ''CONTROL''"
| "scenario_text COMMIT_THEN_TIMEOUT = ''COMMIT_THEN_TIMEOUT''"

definition SCENARIOS :: "scenario list" where
  "SCENARIOS = [CONTROL, COMMIT_THEN_TIMEOUT]"

lemma state_text_inject [simp]: "state_text s = state_text t \<longleftrightarrow> s = t"
  by (cases s; cases t) auto

lemma cause_text_inject [simp]: "cause_text s = cause_text t \<longleftrightarrow> s = t"
  by (cases s; cases t) auto

lemma caller_text_inject [simp]: "caller_text s = caller_text t \<longleftrightarrow> s = t"
  by (cases s; cases t) auto

lemma of_text_state [simp]: "of_text state_text TREATMENT_STATES d (state_text s) = s"
  by (cases s) (auto simp: of_text_def TREATMENT_STATES_def)

lemma of_text_cause [simp]: "of_text cause_text SAFETY_RELEASE_CAUSES d (cause_text c) = c"
  by (cases c) (auto simp: of_text_def SAFETY_RELEASE_CAUSES_def)

lemma is_text_of_state: "is_text_of state_text TREATMENT_STATES v \<longleftrightarrow> (\<exists>s. v = JString (state_text s))"
proof -
  have "s \<in> set TREATMENT_STATES" for s by (cases s) (auto simp: TREATMENT_STATES_def)
  then show ?thesis by (cases v) (auto simp: is_text_of_def)
qed

lemma is_text_of_cause: "is_text_of cause_text SAFETY_RELEASE_CAUSES v \<longleftrightarrow> (\<exists>c. v = JString (cause_text c))"
proof -
  have "c \<in> set SAFETY_RELEASE_CAUSES" for c by (cases c) (auto simp: SAFETY_RELEASE_CAUSES_def)
  then show ?thesis by (cases v) (auto simp: is_text_of_def)
qed

subsection \<open>Sort keys and timing\<close>

definition CONFIG_SORT_KEY :: string where "CONFIG_SORT_KEY = ''config''"

definition TREATMENT_SORT_KEY :: string where "TREATMENT_SORT_KEY = ''treatment''"

definition PAYMENT_SORT_KEY_PREFIX :: string where "PAYMENT_SORT_KEY_PREFIX = ''payment#''"

definition EXECUTION_PARTITION_SUFFIX :: string where "EXECUTION_PARTITION_SUFFIX = ''execution''"

definition paymentSortKey :: "string \<Rightarrow> string" where
  "paymentSortKey paymentId = PAYMENT_SORT_KEY_PREFIX @ paymentId"

definition executionConfigPartition :: "execution_identity \<Rightarrow> string" where
  "executionConfigPartition deployment = executionIdOf deployment @ ''#'' @ EXECUTION_PARTITION_SUFFIX"

definition poll_interval_ms :: int where "poll_interval_ms = 250"

definition safety_release_ms :: int where "safety_release_ms = 15000"

subsection \<open>The treatment item\<close>

definition TREATMENT_ID_FIELDS :: "string list" where
  "TREATMENT_ID_FIELDS =
     [''targeted_attempt_id'', ''provider_request_id'', ''provider_call_id'', ''provider_commit_id'',
      ''provider_transaction_id'', ''commit_event_id'', ''signal_event_id'', ''signal_caller_event_id'',
      ''observed_event_id'', ''release_event_id'']"

text \<open>The identities an item has recorded, by field.\<close>

record treatment_item =
  ti_state :: treatment_state
  ti_version :: int
  ti_ids :: "string \<Rightarrow> uuid4 option"
  ti_cause :: "safety_release_cause option"

definition treatmentOf :: "treatment_state \<Rightarrow> int \<Rightarrow> stored_item \<Rightarrow> safety_release_cause option \<Rightarrow> treatment_item" where
  "treatmentOf state version item cause =
     \<lparr>ti_state = state, ti_version = version,
      ti_ids = (\<lambda>fld. if fld \<in> set TREATMENT_ID_FIELDS \<and> member_is isUuid4 (own_member item fld)
                      then Some (text_member item fld) else None),
      ti_cause = cause\<rparr>"

definition decodeTreatmentItem :: "stored_item \<Rightarrow> string + treatment_item" where
  "decodeTreatmentItem item =
     (if \<not> member_is (is_text_of state_text TREATMENT_STATES) (own_member item ''state'') then Inl ''state''
      else if \<not> member_is is_positive_safe_number (own_member item ''version'') then Inl ''version''
      else (case List.find (\<lambda>fld. own_member item fld \<noteq> None \<and> \<not> member_is isUuid4 (own_member item fld))
                   TREATMENT_ID_FIELDS of
              Some malformed \<Rightarrow> Inl malformed
            | None \<Rightarrow>
                (let cause = own_member item ''safety_release_cause''
                 in if cause \<noteq> None \<and> \<not> member_is (is_text_of cause_text SAFETY_RELEASE_CAUSES) cause
                    then Inl ''safety_release_cause''
                    else Inr (treatmentOf
                           (of_text state_text TREATMENT_STATES ARMED (text_member item ''state''))
                           (int_member item ''version'') item
                           (map_option (\<lambda>_. of_text cause_text SAFETY_RELEASE_CAUSES CLEANUP_REQUEST
                              (text_member item ''safety_release_cause'')) cause)))))"

subsection \<open>Configuration, payment and execution items of the provider\<close>

definition configScopeProblem :: "stored_item \<Rightarrow> uuid4 option \<Rightarrow> string option" where
  "configScopeProblem item partitionTrial =
     (case partitionTrial of
        None \<Rightarrow> List.find (\<lambda>fld. own_member item fld \<noteq> None) [''trial_id'', ''trial_manifest_sha256'']
      | Some trial \<Rightarrow>
          if own_member item ''trial_id'' \<noteq> Some (JString trial) then Some ''trial_id''
          else if \<not> member_is isSha256Hex (own_member item ''trial_manifest_sha256'')
               then Some ''trial_manifest_sha256''
          else None)"

definition configTimingProblem :: "stored_item \<Rightarrow> string option" where
  "configTimingProblem item =
     map_option fst (List.find (\<lambda>(fld, coded). own_member item fld \<noteq> Some (JNumber (JsInt coded)))
       [(''safety_release_ms'', safety_release_ms), (''treatment_poll_interval_ms'', poll_interval_ms)])"

definition config_trialOf :: "stored_item \<Rightarrow> uuid4 \<Rightarrow> call_trial" where
  "config_trialOf item partitionTrial =
     \<lparr>ct_trial_id = partitionTrial, ct_manifest = text_member item ''trial_manifest_sha256''\<rparr>"

definition decodeConfigItem :: "stored_item \<Rightarrow> uuid4 option \<Rightarrow> string + provider_config_view" where
  "decodeConfigItem item partitionTrial =
     (case (case configScopeProblem item partitionTrial of None \<Rightarrow> configTimingProblem item | p \<Rightarrow> p) of
        Some scope \<Rightarrow> Inl scope
      | None \<Rightarrow>
          if \<not> member_is isSha256Hex (own_member item ''execution_manifest_sha256'')
            then Inl ''execution_manifest_sha256''
          else if \<not> member_is (is_text_of caller_text PROVIDER_CALLER_IDS) (own_member item ''registered_caller_id'')
            then Inl ''registered_caller_id''
          else if \<not> member_is (is_text_of scenario_text SCENARIOS) (own_member item ''scenario'') then Inl ''scenario''
          else if \<not> member_is is_string (own_member item ''payment_id'') then Inl ''payment_id''
          else Inr \<lparr>cv_manifest = text_member item ''execution_manifest_sha256'',
                    cv_registered_caller =
                      of_text caller_text PROVIDER_CALLER_IDS ProbeCaller (text_member item ''registered_caller_id''),
                    cv_scenario = of_text scenario_text SCENARIOS CONTROL (text_member item ''scenario''),
                    cv_payment_id = text_member item ''payment_id'',
                    cv_trial = map_option (config_trialOf item) partitionTrial\<rparr>)"

definition decodeExecutionConfigItem :: "stored_item \<Rightarrow> execution_identity \<Rightarrow> string + sha256_hex" where
  "decodeExecutionConfigItem item deployment =
     (case parseExecutionIdentityFields item of
        Inl problem \<Rightarrow> Inl problem
      | Inr identity \<Rightarrow>
          if own_member item ''execution_kind'' \<noteq> Some (JString (kind_text (execution_kind_of identity)))
             \<or> \<not> sameExecution identity deployment then Inl ''execution_kind''
          else if \<not> member_is isSha256Hex (own_member item ''execution_manifest_sha256'')
            then Inl ''execution_manifest_sha256''
          else Inr (text_member item ''execution_manifest_sha256''))"

definition decodePaymentItem :: "stored_item \<Rightarrow> string + payment_view" where
  "decodePaymentItem item =
     (if \<not> member_is is_string (own_member item ''payment_id'')
         \<or> own_member item ''sk'' \<noteq> Some (JString (paymentSortKey (text_member item ''payment_id'')))
        then Inl ''payment_id''
      else if \<not> member_is is_string (own_member item ''currency'') then Inl ''currency''
      else Inr \<lparr>pv_payment_id = text_member item ''payment_id'', pv_currency = text_member item ''currency''\<rparr>)"

subsection \<open>The provider's partitions (\<^verbatim>\<open>provider-partition.ts\<close>)\<close>

record call_partition =
  cp_key :: string
  cp_trial_id :: "uuid4 option"

definition resolveCallPartition :: "execution_identity \<Rightarrow> json \<Rightarrow> call_partition option" where
  "resolveCallPartition deployment raw =
     (if execution_kind_of deployment = TRANSPORT_PROBE
      then Some \<lparr>cp_key = executionIdOf deployment @ ''#probe'', cp_trial_id = None\<rparr>
      else (case raw_member raw ''trial_id'' of
              Some (JString trialId) \<Rightarrow>
                if UUID4_PATTERN trialId
                then Some \<lparr>cp_key = executionIdOf deployment @ ''#'' @ trialId, cp_trial_id = Some trialId\<rparr>
                else None
            | _ \<Rightarrow> None))"

definition callJournalScope :: "execution_identity \<Rightarrow> provider_config_view \<Rightarrow> journal_scope" where
  "callJournalScope deployment config =
     \<lparr>js_execution = deployment, js_manifest = cv_manifest config,
      js_partition = (case cv_trial config of
        None \<Rightarrow> ProbePartition
      | Some trial \<Rightarrow> TrialPartition (ct_trial_id trial) (ct_manifest trial))\<rparr>"

definition warmupJournalScope :: "execution_identity \<Rightarrow> sha256_hex \<Rightarrow> journal_scope" where
  "warmupJournalScope deployment manifest =
     \<lparr>js_execution = deployment, js_manifest = manifest, js_partition = WarmupPartition\<rparr>"

definition unattributedJournalScope :: "execution_identity \<Rightarrow> sha256_hex \<Rightarrow> journal_scope" where
  "unattributedJournalScope deployment manifest =
     \<lparr>js_execution = deployment, js_manifest = manifest, js_partition = ProviderPartition\<rparr>"

subsection \<open>The controller's partitions and items\<close>

datatype controller_partition = TrialKey string uuid4 | ProbeKey string | CanaryKey string

fun controller_key :: "controller_partition \<Rightarrow> string" where
  "controller_key (TrialKey k _) = k"
| "controller_key (ProbeKey k) = k"
| "controller_key (CanaryKey k) = k"

definition strip_prefix :: "string \<Rightarrow> string \<Rightarrow> string option" where
  "strip_prefix prefix s =
     (if take (length prefix) s = prefix then Some (drop (length prefix) s) else None)"

definition resolveControllerPartition :: "execution_identity \<Rightarrow> json option \<Rightarrow> controller_partition option" where
  "resolveControllerPartition deployment key =
     (case key of
        Some (JString k) \<Rightarrow>
          (case strip_prefix (executionIdOf deployment @ ''#'') k of
             None \<Rightarrow> None
           | Some suffix \<Rightarrow>
               if suffix = ''canary'' then Some (CanaryKey k)
               else if execution_kind_of deployment = TRANSPORT_PROBE
                 then (if suffix = ''probe'' then Some (ProbeKey k) else None)
               else if UUID4_PATTERN suffix then Some (TrialKey k suffix) else None)
      | _ \<Rightarrow> None)"

record controller_config_view =
  kv_manifest :: sha256_hex
  kv_registered_caller :: provider_caller_id
  kv_scenario :: scenario
  kv_trial :: "call_trial option"

record treatment_commit =
  tc_targeted_attempt_id :: uuid4
  tc_provider_commit_id :: uuid4
  tc_commit_event_id :: uuid4

datatype controller_treatment =
    CtArmed
  | CtCommittedWaiting treatment_commit
  | CtSignalled treatment_state treatment_commit uuid4
  | CtSafetyReleased

fun ct_state :: "controller_treatment \<Rightarrow> treatment_state" where
  "ct_state CtArmed = ARMED"
| "ct_state (CtCommittedWaiting _) = COMMITTED_WAITING"
| "ct_state (CtSignalled s _ _) = s"
| "ct_state CtSafetyReleased = SAFETY_RELEASED"

definition requiredId :: "stored_item \<Rightarrow> string \<Rightarrow> string + uuid4" where
  "requiredId item fld =
     (if member_is isUuid4 (own_member item fld) then Inr (text_member item fld) else Inl fld)"

definition treatmentCommit :: "stored_item \<Rightarrow> string + treatment_commit" where
  "treatmentCommit item =
     (case requiredId item ''targeted_attempt_id'' of
        Inl e \<Rightarrow> Inl e
      | Inr targeted \<Rightarrow>
          (case requiredId item ''provider_commit_id'' of
             Inl e \<Rightarrow> Inl e
           | Inr commitId \<Rightarrow>
               (case requiredId item ''commit_event_id'' of
                  Inl e \<Rightarrow> Inl e
                | Inr commitEvent \<Rightarrow>
                    Inr \<lparr>tc_targeted_attempt_id = targeted, tc_provider_commit_id = commitId,
                         tc_commit_event_id = commitEvent\<rparr>)))"

definition decodeControllerTreatment :: "stored_item \<Rightarrow> string + controller_treatment" where
  "decodeControllerTreatment item =
     (if \<not> member_is (is_text_of state_text TREATMENT_STATES) (own_member item ''state'') then Inl ''state''
      else if \<not> member_is is_positive_safe_number (own_member item ''version'') then Inl ''version''
      else (let state = of_text state_text TREATMENT_STATES ARMED (text_member item ''state'')
            in if state = ARMED then Inr CtArmed
               else if state = SAFETY_RELEASED then Inr CtSafetyReleased
               else (case treatmentCommit item of
                       Inl e \<Rightarrow> Inl e
                     | Inr commit \<Rightarrow>
                         if state = COMMITTED_WAITING then Inr (CtCommittedWaiting commit)
                         else (case requiredId item ''signal_caller_event_id'' of
                                 Inl e \<Rightarrow> Inl e
                               | Inr signal \<Rightarrow> Inr (CtSignalled state commit signal)))))"

definition configuredTrial :: "stored_item \<Rightarrow> uuid4 \<Rightarrow> string + call_trial" where
  "configuredTrial item partitionTrial =
     (if own_member item ''trial_id'' \<noteq> Some (JString partitionTrial) then Inl ''trial_id''
      else if \<not> member_is isSha256Hex (own_member item ''trial_manifest_sha256'') then Inl ''trial_manifest_sha256''
      else Inr \<lparr>ct_trial_id = partitionTrial, ct_manifest = text_member item ''trial_manifest_sha256''\<rparr>)"

definition decodeControllerConfig :: "stored_item \<Rightarrow> uuid4 option \<Rightarrow> string + controller_config_view" where
  "decodeControllerConfig item partitionTrial =
     (if \<not> member_is isSha256Hex (own_member item ''execution_manifest_sha256'')
        then Inl ''execution_manifest_sha256''
      else if \<not> member_is (is_text_of caller_text PROVIDER_CALLER_IDS) (own_member item ''registered_caller_id'')
        then Inl ''registered_caller_id''
      else if \<not> member_is (is_text_of scenario_text SCENARIOS) (own_member item ''scenario'') then Inl ''scenario''
      else (let view = \<lparr>kv_manifest = text_member item ''execution_manifest_sha256'',
                        kv_registered_caller =
                          of_text caller_text PROVIDER_CALLER_IDS ProbeCaller (text_member item ''registered_caller_id''),
                        kv_scenario = of_text scenario_text SCENARIOS CONTROL (text_member item ''scenario''),
                        kv_trial = None\<rparr>
            in case partitionTrial of
                 None \<Rightarrow>
                   (case List.find (\<lambda>fld. own_member item fld \<noteq> None) [''trial_id'', ''trial_manifest_sha256''] of
                      None \<Rightarrow> Inr view
                    | Some trialField \<Rightarrow> Inl trialField)
               | Some trial \<Rightarrow>
                   (case configuredTrial item trial of
                      Inl e \<Rightarrow> Inl e
                    | Inr t \<Rightarrow> Inr (view\<lparr>kv_trial := Some t\<rparr>))))"

subsection \<open>Versioned updates of a treatment item\<close>

abbreviation treatment_slot :: "string \<Rightarrow> item_key" where
  "treatment_slot part \<equiv> \<lparr>pk = part, sk = TREATMENT_SORT_KEY\<rparr>"

lemma versioned_update:
  assumes "applyUpdate (Some item) k sets [(''version'', n)] = Some item'"
    and "name \<notin> {''version'', ''pk'', ''sk''}"
  shows "own_member item' name = (map_of item ++ map_of (rev sets)) name"
  using assms
  by (auto simp: applyUpdate_def map_of_obj_merge key_members_def map_add_def
      split: option.splits json.splits js_number.splits if_splits)

lemma bumped_version:
  assumes "applyUpdate (Some item) k sets [(''version'', n)] = Some item'"
    and "own_member item ''version'' = Some (JNumber (JsInt v))"
  shows "own_member item' ''version'' = Some (JNumber (JsInt (v + n))) \<and> \<bar>v + n\<bar> \<le> MAX_SAFE_INTEGER"
  using assms
  by (auto simp: applyUpdate_def map_of_obj_merge key_members_def map_add_def JsInt_def
      isSafeInteger_JsInt [unfolded JsInt_def, of "v + n", simplified]
      split: if_splits)

end
