(* ===== verification/Refund_Provider.thy ===== *)
theory Refund_Provider
  imports Treatment_Items
begin

text \<open>
  The controlled refund provider (\<^verbatim>\<open>refund-provider/\<close>): the commit plan and its execution, the
  treatment barrier of the targeted call, the handler of one call, the rejection of a call that
  names no configured trial, and the warm-up.

  The handler is a computation over the journal writer of the invocation and the world. The
  diagnostic log sink and the free-text details of events and faults are not modelled; the digest
  of the request bytes is a parameter (\<^verbatim>\<open>sha256Hex\<close> is Node's).
\<close>

subsection \<open>The commit plan (\<^verbatim>\<open>commit-plan.ts\<close>)\<close>

definition LEDGER_SORT_KEY_PREFIX :: string where "LEDGER_SORT_KEY_PREFIX = ''tx#''"

record commit_identities =
  cid_commit_id :: uuid4
  cid_transaction_id :: uuid4

record commit_ids = commit_identities +
  cid_commit_event_id :: uuid4

datatype commit_kind = Targeted | Untargeted

definition COMMIT_JOURNAL_ACTION_INDEX :: nat where "COMMIT_JOURNAL_ACTION_INDEX = 1"

record commit_plan =
  pl_kind :: commit_kind
  pl_ids :: commit_ids
  pl_call_id :: uuid4
  pl_requested_at :: utc_millis
  pl_actions :: "write_action list"
  pl_treatment_index :: "nat option"

record commit_plan_input =
  in_kind :: commit_kind
  in_partition :: string
  in_call :: accepted_call
  in_call_id :: uuid4
  in_identities :: commit_identities
  in_requested_at :: utc_millis
  in_commit_event :: journal_entry

definition event_id_of :: "json_object \<Rightarrow> uuid4" where
  "event_id_of event = text_member event ''event_id''"

definition call_members :: "accepted_call \<Rightarrow> json_object" where
  "call_members call =
     [(''attempt_id'', JString (acc_attempt_id call)),
      (''provider_request_id'', JString (acc_provider_request_id call)),
      (''refund_request_id'', JString (acc_refund_request_id call)),
      (''payment_id'', JString (acc_payment_id call)),
      (''amount_minor'', JNumber (acc_amount_minor call)),
      (''currency'', JString (acc_currency call))]"

definition commitEventBody ::
  "accepted_call \<Rightarrow> uuid4 \<Rightarrow> commit_identities \<Rightarrow> bool \<Rightarrow> utc_millis \<Rightarrow> json_object" where
  "commitEventBody call providerCallId identities targeted requestedAt =
     [(''provider_commit_id'', JString (cid_commit_id identities)),
      (''provider_transaction_id'', JString (cid_transaction_id identities)),
      (''provider_call_id'', JString providerCallId)]
     @ call_members call
     @ [(''targeted'', JBool targeted), (''commit_requested_at'', JString requestedAt)]"

definition ledgerSortKey :: "uuid4 \<Rightarrow> string" where
  "ledgerSortKey providerTransactionId = LEDGER_SORT_KEY_PREFIX @ providerTransactionId"

definition ledgerTransactionOf :: "commit_plan_input \<Rightarrow> json_object" where
  "ledgerTransactionOf inp =
     [(''provider_transaction_id'', JString (cid_transaction_id (in_identities inp))),
      (''provider_commit_id'', JString (cid_commit_id (in_identities inp))),
      (''provider_call_id'', JString (in_call_id inp))]
     @ call_members (in_call inp)
     @ [(''status'', JString ''SUCCEEDED''), (''commit_requested_at'', JString (in_requested_at inp))]"

definition ledger_key :: "string \<Rightarrow> uuid4 \<Rightarrow> item_key" where
  "ledger_key part tx = \<lparr>pk = part, sk = ledgerSortKey tx\<rparr>"

definition treatment_key :: "string \<Rightarrow> item_key" where
  "treatment_key part = \<lparr>pk = part, sk = TREATMENT_SORT_KEY\<rparr>"

definition ledger_put :: "commit_plan_input \<Rightarrow> write_action" where
  "ledger_put inp =
     (let key = ledger_key (in_partition inp) (cid_transaction_id (in_identities inp))
      in Put LedgerTable key (obj_merge (key_members key) (ledgerTransactionOf inp)) (Some ItemAbsent))"

definition consumeTreatment :: "commit_plan_input \<Rightarrow> commit_ids \<Rightarrow> write_action" where
  "consumeTreatment inp ids =
     Update ControlTable (treatment_key (in_partition inp))
       [(''state'', JString (state_text COMMITTED_WAITING)),
        (''targeted_attempt_id'', JString (acc_attempt_id (in_call inp))),
        (''provider_request_id'', JString (acc_provider_request_id (in_call inp))),
        (''provider_call_id'', JString (in_call_id inp)),
        (''provider_commit_id'', JString (cid_commit_id ids)),
        (''provider_transaction_id'', JString (cid_transaction_id ids)),
        (''commit_event_id'', JString (cid_commit_event_id ids))]
       [(''version'', 1)]
       (AttributeEquals ''state'' (SString (state_text ARMED)))"

definition planCommit :: "commit_plan_input \<Rightarrow> commit_plan" where
  "planCommit inp =
     (let ids = \<lparr>cid_commit_id = cid_commit_id (in_identities inp),
                 cid_transaction_id = cid_transaction_id (in_identities inp),
                 cid_commit_event_id = event_id_of (je_event (in_commit_event inp))\<rparr>;
          shared = [ledger_put inp, journalPutAction ExperimentJournalTable (in_commit_event inp)]
      in if in_kind inp = Untargeted
         then \<lparr>pl_kind = in_kind inp, pl_ids = ids, pl_call_id = in_call_id inp,
               pl_requested_at = in_requested_at inp, pl_actions = shared, pl_treatment_index = None\<rparr>
         else \<lparr>pl_kind = in_kind inp, pl_ids = ids, pl_call_id = in_call_id inp,
               pl_requested_at = in_requested_at inp, pl_actions = shared @ [consumeTreatment inp ids],
               pl_treatment_index = Some (length shared)\<rparr>)"

definition commitToken :: "commit_plan \<Rightarrow> uuid4" where
  "commitToken plan = cid_commit_id (pl_ids plan)"

subsection \<open>The state port (\<^verbatim>\<open>provider-state-port.ts\<close>)\<close>

definition TRANSITION_JOURNAL_ACTION_INDEX :: nat where "TRANSITION_JOURNAL_ACTION_INDEX = 1"

definition UNDECODABLE_ITEM :: string where "UNDECODABLE_ITEM = ''UndecodableItem''"

definition readControl ::
  "'w durable_item_store \<Rightarrow> string \<Rightarrow> string \<Rightarrow> (stored_item \<Rightarrow> string + 'a) \<Rightarrow> ('w, string + 'a option) io" where
  "readControl store part sortKey decode =
     io_bind (item_get store ControlTable \<lparr>pk = part, sk = sortKey\<rparr>) (\<lambda>read.
     io_return (case read of
       Inl code \<Rightarrow> Inl code
     | Inr None \<Rightarrow> Inr None
     | Inr (Some item) \<Rightarrow> (case decode item of Inl _ \<Rightarrow> Inl UNDECODABLE_ITEM | Inr v \<Rightarrow> Inr (Some v))))"

definition loadTrialConfiguration ::
  "'w durable_item_store \<Rightarrow> call_partition \<Rightarrow> ('w, string + provider_config_view option) io" where
  "loadTrialConfiguration store part =
     readControl store (cp_key part) CONFIG_SORT_KEY (\<lambda>item. decodeConfigItem item (cp_trial_id part))"

definition loadExecutionConfiguration ::
  "'w durable_item_store \<Rightarrow> execution_identity \<Rightarrow> ('w, string + sha256_hex option) io" where
  "loadExecutionConfiguration store deployment =
     readControl store (executionConfigPartition deployment) CONFIG_SORT_KEY
       (\<lambda>item. decodeExecutionConfigItem item deployment)"

definition loadPayment ::
  "'w durable_item_store \<Rightarrow> string \<Rightarrow> string \<Rightarrow> ('w, string + payment_view option) io" where
  "loadPayment store part paymentId = readControl store part (paymentSortKey paymentId) decodePaymentItem"

definition loadTreatment :: "'w durable_item_store \<Rightarrow> string \<Rightarrow> ('w, string + treatment_item option) io" where
  "loadTreatment store part = readControl store part TREATMENT_SORT_KEY decodeTreatmentItem"

record treatment_transition =
  tt_partition :: string
  tt_from :: treatment_state
  tt_to :: treatment_state
  tt_set :: json_object
  tt_event :: journal_entry
  tt_token :: uuid4

definition transition_update :: "treatment_transition \<Rightarrow> write_action" where
  "transition_update t =
     Update ControlTable (treatment_key (tt_partition t))
       (tt_set t @ [(''state'', JString (state_text (tt_to t)))]) [(''version'', 1)]
       (AttributeEquals ''state'' (SString (state_text (tt_from t))))"

definition state_commit :: "'w durable_item_store \<Rightarrow> commit_plan \<Rightarrow> ('w, write_outcome) io" where
  "state_commit store plan = item_transact store (pl_actions plan) (commitToken plan)"

definition state_transition :: "'w durable_item_store \<Rightarrow> treatment_transition \<Rightarrow> ('w, write_outcome) io" where
  "state_transition store t =
     item_transact store [transition_update t, journalPutAction ExperimentJournalTable (tt_event t)] (tt_token t)"

subsection \<open>Executing the commit (\<^verbatim>\<open>commit-execution.ts\<close>)\<close>

record 'w provider_deps =
  pd_deployment :: execution_identity
  pd_store :: "'w durable_item_store"
  pd_ids :: "('w, uuid4) io"
  pd_wall :: "('w, int) io"
  pd_monotonic :: "('w, int) io"
  pd_sleep :: "int \<Rightarrow> ('w, unit) io"
  pd_digest :: "json \<Rightarrow> string"

record commit_request =
  rq_partition :: string
  rq_call :: accepted_call
  rq_call_id :: uuid4
  rq_accepted_event_id :: uuid4
  rq_kind :: commit_kind

record committed_plan =
  cm_plan :: commit_plan
  cm_ack_ns :: int
  cm_ack_wall :: int

record confirmed_commit =
  cf_plan :: commit_plan
  cf_ack_ns :: int
  cf_confirmed_event_id :: uuid4

definition drawCommitIdentities :: "'w provider_deps \<Rightarrow> (journal_writer \<times> 'w, commit_identities) io" where
  "drawCommitIdentities deps =
     io_bind (io_lift (pd_ids deps)) (\<lambda>commit_id.
     io_bind (io_lift (pd_ids deps)) (\<lambda>transaction_id.
     io_return \<lparr>cid_commit_id = commit_id, cid_transaction_id = transaction_id\<rparr>))"

definition bool_targeted :: "commit_kind \<Rightarrow> bool" where
  "bool_targeted kind \<longleftrightarrow> kind = Targeted"

definition commit_failure_code :: "write_outcome \<Rightarrow> string" where
  "commit_failure_code outcome =
     (case outcome of DefinitiveFailure code \<Rightarrow> code | _ \<Rightarrow> ''TransactionConditionFailed'')"

definition recordCommitFailure ::
  "'w journal_writer_deps \<Rightarrow> commit_request \<Rightarrow> commit_plan \<Rightarrow> write_outcome \<Rightarrow> (journal_writer \<times> 'w, 'a) io" where
  "recordCommitFailure jd request plan outcome =
     io_bind (journal_append jd ''provider_commit_failed''
       [(''provider_commit_id'', JString (cid_commit_id (pl_ids plan))),
        (''provider_transaction_id'', JString (cid_transaction_id (pl_ids plan))),
        (''provider_call_id'', JString (rq_call_id request)),
        (''targeted'', JBool (bool_targeted (pl_kind plan))),
        (''error_code'', JString (commit_failure_code outcome))]
       [rq_accepted_event_id request]) (\<lambda>failed.
     case failed of
       AppendStopped _ \<Rightarrow> io_throw (ProviderFault PROVIDER_JOURNAL_STOPPED BeforeCommit (rq_call_id request))
     | Appended _ \<Rightarrow> io_throw (ProviderFault COMMIT_FAILED BeforeCommit (rq_call_id request)))"

text \<open>
  One plan: committed, or \<open>None\<close> when the treatment is no longer armed and the call must be planned
  again untargeted. \<open>judge_commit\<close> is its end, once the put is confirmed.
\<close>

definition judge_commit ::
  "'w journal_writer_deps \<Rightarrow> commit_request \<Rightarrow> committed_plan \<Rightarrow> write_outcome \<Rightarrow> confirm_result
   \<Rightarrow> (journal_writer \<times> 'w, committed_plan option) io" where
  "judge_commit jd request attempt outcome confirmed =
     (case confirmed of
        Confirmed _ \<Rightarrow> io_return (Some attempt)
      | ConfirmStopped reason \<Rightarrow>
          io_throw (ProviderFault
            (if reason = AMBIGUOUS_APPEND then COMMIT_AMBIGUOUS else PROVIDER_JOURNAL_STOPPED)
            CommitUnknown (rq_call_id request))
      | NotApplied _ _ \<Rightarrow>
          (case outcome of
             ConditionFailed failed _ \<Rightarrow>
               if Some failed = pl_treatment_index (cm_plan attempt) then io_return None
               else recordCommitFailure jd request (cm_plan attempt) outcome
           | _ \<Rightarrow> recordCommitFailure jd request (cm_plan attempt) outcome))"

definition attemptPlan ::
  "'w provider_deps \<Rightarrow> 'w journal_writer_deps \<Rightarrow> commit_request \<Rightarrow> commit_kind
   \<Rightarrow> (journal_writer \<times> 'w, committed_plan option) io" where
  "attemptPlan deps jd request kind =
     io_bind (drawCommitIdentities deps) (\<lambda>identities.
     io_bind (io_lift (pd_wall deps)) (\<lambda>ms.
     io_bind (io_of (formatUtcMillis ms)) (\<lambda>requestedAt.
     io_bind (journal_prepare jd ''provider_transaction_committed''
        (commitEventBody (rq_call request) (rq_call_id request) identities (bool_targeted kind) requestedAt)
        [rq_accepted_event_id request]) (\<lambda>prepared.
     case prepared of
       PrepareStopped _ \<Rightarrow> io_throw (ProviderFault PROVIDER_JOURNAL_STOPPED BeforeCommit (rq_call_id request))
     | Prepared put \<Rightarrow>
        (let plan = planCommit \<lparr>in_kind = kind, in_partition = rq_partition request, in_call = rq_call request,
              in_call_id = rq_call_id request, in_identities = identities, in_requested_at = requestedAt,
              in_commit_event = put\<rparr>
         in io_bind (io_lift (state_commit (pd_store deps) plan)) (\<lambda>outcome.
            io_bind (io_lift (pd_monotonic deps)) (\<lambda>ackNs.
            io_bind (io_lift (pd_wall deps)) (\<lambda>ackWall.
            io_bind (journal_confirm put outcome COMMIT_JOURNAL_ACTION_INDEX) (\<lambda>confirmed.
            judge_commit jd request \<lparr>cm_plan = plan, cm_ack_ns = ackNs, cm_ack_wall = ackWall\<rparr> outcome confirmed)))))))))"

text \<open>
  \<^verbatim>\<open>attemptCommit\<close> plans again untargeted; the depth bounds the recursion, and
  \<open>attemptCommit_depth\<close> in \<open>Provider_Ledger\<close> shows that it is never used up.
\<close>

fun attemptCommit ::
  "nat \<Rightarrow> 'w provider_deps \<Rightarrow> 'w journal_writer_deps \<Rightarrow> commit_request \<Rightarrow> commit_kind
   \<Rightarrow> (journal_writer \<times> 'w, committed_plan) io" where
  "attemptCommit 0 deps jd request kind = io_throw ErrorThrown"
| "attemptCommit (Suc depth) deps jd request kind =
     io_bind (attemptPlan deps jd request kind) (\<lambda>r.
     case r of Some committed \<Rightarrow> io_return committed | None \<Rightarrow> attemptCommit depth deps jd request Untargeted)"

definition executeCommit ::
  "'w provider_deps \<Rightarrow> 'w journal_writer_deps \<Rightarrow> commit_request \<Rightarrow> (journal_writer \<times> 'w, confirmed_commit) io" where
  "executeCommit deps jd request =
     io_bind (attemptCommit 2 deps jd request (rq_kind request)) (\<lambda>attempt.
     io_bind (io_of (formatUtcMillis (cm_ack_wall attempt))) (\<lambda>committed_at.
     io_bind (journal_append jd ''provider_commit_confirmed''
       [(''provider_commit_id'', JString (cid_commit_id (pl_ids (cm_plan attempt)))),
        (''provider_transaction_id'', JString (cid_transaction_id (pl_ids (cm_plan attempt)))),
        (''provider_call_id'', JString (rq_call_id request)),
        (''committed_at'', JString committed_at)]
       [cid_commit_event_id (pl_ids (cm_plan attempt))]) (\<lambda>confirmed.
     case confirmed of
       AppendStopped _ \<Rightarrow> io_throw (ProviderFault PROVIDER_JOURNAL_STOPPED AfterCommit (rq_call_id request))
     | Appended event \<Rightarrow>
         io_return \<lparr>cf_plan = cm_plan attempt, cf_ack_ns = cm_ack_ns attempt,
                    cf_confirmed_event_id = event_id_of event\<rparr>)))"

subsection \<open>The barrier's decision (\<^verbatim>\<open>barrier-decision.ts\<close>)\<close>

definition COMMITTED_WAIT_STATES :: "treatment_state list" where
  "COMMITTED_WAIT_STATES = [COMMITTED_WAITING, TIMEOUT_SIGNALLED, TIMEOUT_OBSERVED]"

datatype barrier_step =
    Observe uuid4
  | ReleaseResponse uuid4
  | SafetyRelease treatment_state
  | ExternallyReleased safety_release_cause
  | KeepWaiting
  | UnexpectedState

definition isCommittedWaitState :: "treatment_state option \<Rightarrow> bool" where
  "isCommittedWaitState state \<longleftrightarrow> (case state of None \<Rightarrow> False | Some s \<Rightarrow> s \<in> set COMMITTED_WAIT_STATES)"

definition signalledStep :: "treatment_item \<Rightarrow> bool \<Rightarrow> barrier_step" where
  "signalledStep treatment deadlinePassed =
     (case ti_ids treatment ''signal_event_id'' of
        Some signal \<Rightarrow> Observe signal
      | None \<Rightarrow> if deadlinePassed then SafetyRelease TIMEOUT_SIGNALLED else KeepWaiting)"

definition observedStep :: "treatment_item \<Rightarrow> barrier_step" where
  "observedStep treatment =
     (case ti_ids treatment ''observed_event_id'' of
        None \<Rightarrow> UnexpectedState
      | Some observed \<Rightarrow> ReleaseResponse observed)"

definition decideBarrierStep :: "treatment_item option \<Rightarrow> uuid4 \<Rightarrow> int \<Rightarrow> int \<Rightarrow> barrier_step" where
  "decideBarrierStep treatment ownCommitId elapsedSinceCommitNs safetyReleaseNs =
     (let deadlinePassed = elapsedSinceCommitNs \<ge> safetyReleaseNs
      in case treatment of
           None \<Rightarrow> if deadlinePassed then SafetyRelease COMMITTED_WAITING else KeepWaiting
         | Some t \<Rightarrow>
             if ti_ids t ''provider_commit_id'' \<noteq> Some ownCommitId then UnexpectedState
             else (case ti_state t of
                     TIMEOUT_SIGNALLED \<Rightarrow> signalledStep t deadlinePassed
                   | TIMEOUT_OBSERVED \<Rightarrow> observedStep t
                   | COMMITTED_WAITING \<Rightarrow> if deadlinePassed then SafetyRelease COMMITTED_WAITING else KeepWaiting
                   | SAFETY_RELEASED \<Rightarrow>
                       ExternallyReleased (case ti_cause t of None \<Rightarrow> CLEANUP_REQUEST | Some c \<Rightarrow> c)
                   | ARMED \<Rightarrow> UnexpectedState
                   | RESPONSE_RELEASED \<Rightarrow> UnexpectedState))"

subsection \<open>The barrier (\<^verbatim>\<open>treatment-barrier.ts\<close>)\<close>

record barrier_commit =
  bc_partition :: string
  bc_commit_id :: uuid4
  bc_call_id :: uuid4
  bc_attempt_id :: uuid4
  bc_commit_event_id :: uuid4
  bc_ack_ns :: int

datatype barrier_outcome = Released | SafetyReleased | ReleasedElsewhere safety_release_cause

datatype transition_result = TransitionApplied uuid4 | Superseded treatment_item | TransitionNotApplied

datatype next_read = ReadNext | DecideOn treatment_item

definition BARRIER_NS_PER_MS :: int where "BARRIER_NS_PER_MS = 1000000"

definition latestWaitState :: "treatment_state option \<Rightarrow> treatment_state \<Rightarrow> treatment_state" where
  "latestWaitState state previous =
     (case state of Some s \<Rightarrow> if s \<in> set COMMITTED_WAIT_STATES then s else previous | None \<Rightarrow> previous)"

definition commitRefs :: "barrier_commit \<Rightarrow> json_object" where
  "commitRefs commit =
     [(''provider_commit_id'', JString (bc_commit_id commit)),
      (''provider_call_id'', JString (bc_call_id commit)),
      (''attempt_id'', JString (bc_attempt_id commit))]"

definition readTreatment :: "'w provider_deps \<Rightarrow> barrier_commit \<Rightarrow> ('w, treatment_item option) io" where
  "readTreatment deps commit =
     io_bind (loadTreatment (pd_store deps) (bc_partition commit)) (\<lambda>read.
     io_return (case read of Inr v \<Rightarrow> v | Inl _ \<Rightarrow> None))"

definition notAppliedResult :: "barrier_commit \<Rightarrow> write_outcome \<Rightarrow> js_throw + transition_result" where
  "notAppliedResult commit outcome =
     (case outcome of
        ConditionFailed _ existing \<Rightarrow>
          (case existing of
             None \<Rightarrow> Inl (ProviderFault TREATMENT_UNEXPECTED AfterCommit (bc_call_id commit))
           | Some item \<Rightarrow>
               (case decodeTreatmentItem item of
                  Inl _ \<Rightarrow> Inl (ProviderFault PROVIDER_STATE_UNREADABLE AfterCommit (bc_call_id commit))
                | Inr current \<Rightarrow> Inr (Superseded current)))
      | _ \<Rightarrow> Inr TransitionNotApplied)"

text \<open>A transition answers its result and the latest wait state the barrier knows.\<close>

definition transition_sets :: "treatment_state \<Rightarrow> string option \<Rightarrow> uuid4 \<Rightarrow> json_object" where
  "transition_sets target eventIdAttribute eventId =
     (if target = SAFETY_RELEASED then [(''safety_release_cause'', JString (cause_text SAFETY_DEADLINE))] else [])
     @ (case eventIdAttribute of None \<Rightarrow> [] | Some name \<Rightarrow> [(name, JString eventId)])"

definition barrier_transition ::
  "'w provider_deps \<Rightarrow> 'w journal_writer_deps \<Rightarrow> barrier_commit \<Rightarrow> treatment_state \<Rightarrow> treatment_state
   \<Rightarrow> string option \<Rightarrow> string \<Rightarrow> json_object \<Rightarrow> uuid4 list \<Rightarrow> treatment_state
   \<Rightarrow> (journal_writer \<times> 'w, transition_result \<times> treatment_state) io" where
  "barrier_transition deps jd commit from target eventIdAttribute type body causation waitState =
     io_bind (journal_prepare jd type body causation) (\<lambda>prepared.
     case prepared of
       PrepareStopped _ \<Rightarrow> io_throw (ProviderFault PROVIDER_JOURNAL_STOPPED AfterCommit (bc_call_id commit))
     | Prepared put \<Rightarrow>
         io_bind (io_lift (pd_ids deps)) (\<lambda>token.
         io_bind (io_lift (state_transition (pd_store deps)
            \<lparr>tt_partition = bc_partition commit, tt_from = from, tt_to = target,
             tt_set = transition_sets target eventIdAttribute (event_id_of (je_event put)),
             tt_event = put, tt_token = token\<rparr>)) (\<lambda>outcome.
         io_bind (journal_confirm put outcome TRANSITION_JOURNAL_ACTION_INDEX) (\<lambda>confirmed.
         case confirmed of
           ConfirmStopped _ \<Rightarrow> io_throw (ProviderFault TRANSITION_AMBIGUOUS AfterCommit (bc_call_id commit))
         | Confirmed _ \<Rightarrow>
             io_return (TransitionApplied (event_id_of (je_event put)), latestWaitState (Some target) waitState)
         | NotApplied _ _ \<Rightarrow>
             io_bind (io_of (notAppliedResult commit outcome)) (\<lambda>r. io_return (r, waitState))))))"

definition waitOnePoll :: "'w provider_deps \<Rightarrow> (journal_writer \<times> 'w, next_read) io" where
  "waitOnePoll deps =
     io_bind (io_lift (pd_sleep deps poll_interval_ms)) (\<lambda>_. io_return ReadNext)"

definition continueAfter :: "'w provider_deps \<Rightarrow> transition_result \<Rightarrow> (journal_writer \<times> 'w, next_read) io" where
  "continueAfter deps r = (case r of Superseded current \<Rightarrow> io_return (DecideOn current) | _ \<Rightarrow> waitOnePoll deps)"

type_synonym performed = "(barrier_outcome + next_read) \<times> treatment_state"

definition end_of_transition ::
  "'w provider_deps \<Rightarrow> barrier_outcome \<Rightarrow> transition_result \<times> treatment_state \<Rightarrow> (journal_writer \<times> 'w, performed) io" where
  "end_of_transition deps outcome r =
     (case fst r of
        TransitionApplied _ \<Rightarrow> io_return (Inl outcome, snd r)
      | other \<Rightarrow> io_bind (continueAfter deps other) (\<lambda>n. io_return (Inr n, snd r)))"

definition barrier_release ::
  "'w provider_deps \<Rightarrow> 'w journal_writer_deps \<Rightarrow> barrier_commit \<Rightarrow> uuid4 \<Rightarrow> treatment_state
   \<Rightarrow> (journal_writer \<times> 'w, performed) io" where
  "barrier_release deps jd commit observedEventId waitState =
     io_bind (barrier_transition deps jd commit TIMEOUT_OBSERVED RESPONSE_RELEASED (Some ''release_event_id'')
        ''treatment_response_released'' (commitRefs commit) [observedEventId] waitState)
       (end_of_transition deps Released)"

definition barrier_observe ::
  "'w provider_deps \<Rightarrow> 'w journal_writer_deps \<Rightarrow> barrier_commit \<Rightarrow> uuid4 \<Rightarrow> treatment_state
   \<Rightarrow> (journal_writer \<times> 'w, performed) io" where
  "barrier_observe deps jd commit signalEventId waitState =
     io_bind (barrier_transition deps jd commit TIMEOUT_SIGNALLED TIMEOUT_OBSERVED (Some ''observed_event_id'')
        ''treatment_timeout_observed'' (commitRefs commit @ [(''signal_event_id'', JString signalEventId)])
        [signalEventId] waitState) (\<lambda>r.
     case fst r of
       TransitionApplied observed \<Rightarrow> barrier_release deps jd commit observed (snd r)
     | other \<Rightarrow> io_bind (continueAfter deps other) (\<lambda>n. io_return (Inr n, snd r)))"

definition safetyReleaseBody ::
  "'w provider_deps \<Rightarrow> barrier_commit \<Rightarrow> safety_release_cause \<Rightarrow> treatment_state \<Rightarrow> (journal_writer \<times> 'w, json_object) io" where
  "safetyReleaseBody deps commit cause from =
     io_bind (io_lift (pd_monotonic deps)) (\<lambda>now.
     io_bind (io_of (elapsedNs (bc_ack_ns commit) now)) (\<lambda>elapsed.
     io_return ([(''cause'', JString (cause_text cause)), (''from_state'', JString (state_text from))]
       @ commitRefs commit @ [(''elapsed_since_commit_ns'', JString elapsed)])))"

definition barrier_safetyRelease ::
  "'w provider_deps \<Rightarrow> 'w journal_writer_deps \<Rightarrow> barrier_commit \<Rightarrow> treatment_state \<Rightarrow> treatment_state
   \<Rightarrow> (journal_writer \<times> 'w, performed) io" where
  "barrier_safetyRelease deps jd commit from waitState =
     io_bind (safetyReleaseBody deps commit SAFETY_DEADLINE from) (\<lambda>body.
     io_bind (barrier_transition deps jd commit from SAFETY_RELEASED None ''treatment_safety_released'' body
        [bc_commit_event_id commit] waitState) (end_of_transition deps SafetyReleased))"

definition recordExternalRelease ::
  "'w provider_deps \<Rightarrow> 'w journal_writer_deps \<Rightarrow> barrier_commit \<Rightarrow> safety_release_cause \<Rightarrow> treatment_state
   \<Rightarrow> (journal_writer \<times> 'w, performed) io" where
  "recordExternalRelease deps jd commit cause waitState =
     io_bind (safetyReleaseBody deps commit cause waitState) (\<lambda>body.
     io_bind (journal_append jd ''treatment_safety_released'' body [bc_commit_event_id commit]) (\<lambda>appended.
     case appended of
       AppendStopped _ \<Rightarrow> io_throw (ProviderFault PROVIDER_JOURNAL_STOPPED AfterCommit (bc_call_id commit))
     | Appended _ \<Rightarrow> io_return (Inl (ReleasedElsewhere cause), waitState)))"

definition perform ::
  "'w provider_deps \<Rightarrow> 'w journal_writer_deps \<Rightarrow> barrier_commit \<Rightarrow> treatment_state \<Rightarrow> barrier_step
   \<Rightarrow> (journal_writer \<times> 'w, performed) io" where
  "perform deps jd commit waitState step =
     (case step of
        KeepWaiting \<Rightarrow> io_bind (waitOnePoll deps) (\<lambda>n. io_return (Inr n, waitState))
      | Observe signal \<Rightarrow> barrier_observe deps jd commit signal waitState
      | ReleaseResponse observed \<Rightarrow> barrier_release deps jd commit observed waitState
      | SafetyRelease from \<Rightarrow> barrier_safetyRelease deps jd commit from waitState
      | ExternallyReleased cause \<Rightarrow> recordExternalRelease deps jd commit cause waitState
      | UnexpectedState \<Rightarrow> io_throw (ProviderFault TREATMENT_UNEXPECTED AfterCommit (bc_call_id commit)))"

text \<open>
  One turn of the loop, and the loop itself with a bound on its turns: \<open>None\<close> when the bound is
  used up before the wait ended.
\<close>

definition barrier_turn ::
  "'w provider_deps \<Rightarrow> 'w journal_writer_deps \<Rightarrow> barrier_commit \<Rightarrow> next_read \<Rightarrow> treatment_state
   \<Rightarrow> (journal_writer \<times> 'w, performed) io" where
  "barrier_turn deps jd commit nxt waitState =
     io_bind (case nxt of DecideOn t \<Rightarrow> io_return (Some t) | ReadNext \<Rightarrow> io_lift (readTreatment deps commit)) (\<lambda>treatment.
     io_bind (io_lift (pd_monotonic deps)) (\<lambda>now.
     perform deps jd commit (latestWaitState (map_option ti_state treatment) waitState)
       (decideBarrierStep treatment (bc_commit_id commit) (now - bc_ack_ns commit) (safety_release_ms * BARRIER_NS_PER_MS))))"

fun barrier_loop ::
  "nat \<Rightarrow> 'w provider_deps \<Rightarrow> 'w journal_writer_deps \<Rightarrow> barrier_commit \<Rightarrow> next_read \<Rightarrow> treatment_state
   \<Rightarrow> (journal_writer \<times> 'w, barrier_outcome option) io" where
  "barrier_loop 0 deps jd commit nxt waitState = io_return None"
| "barrier_loop (Suc turns) deps jd commit nxt waitState =
     io_bind (barrier_turn deps jd commit nxt waitState) (\<lambda>(r, waitState').
     case r of
       Inl outcome \<Rightarrow> io_return (Some outcome)
     | Inr nxt' \<Rightarrow> barrier_loop turns deps jd commit nxt' waitState')"

definition awaitRelease ::
  "nat \<Rightarrow> 'w provider_deps \<Rightarrow> 'w journal_writer_deps \<Rightarrow> barrier_commit \<Rightarrow> (journal_writer \<times> 'w, barrier_outcome option) io" where
  "awaitRelease turns deps jd commit = barrier_loop turns deps jd commit ReadNext COMMITTED_WAITING"

subsection \<open>Responses and records of a call\<close>

datatype provider_refund_response =
    SucceededResponse uuid4 uuid4 uuid4 uuid4
  | RejectedResponse uuid4 "uuid4 option" "uuid4 option" provider_rejection_reason

definition echoed_identity :: "json \<Rightarrow> string \<Rightarrow> uuid4 option" where
  "echoed_identity raw name =
     (case raw_member raw name of Some (JString i) \<Rightarrow> if UUID4_PATTERN i then Some i else None | _ \<Rightarrow> None)"

definition rejectedResponse :: "uuid4 \<Rightarrow> json \<Rightarrow> provider_rejection_reason \<Rightarrow> provider_refund_response" where
  "rejectedResponse providerCallId raw reason =
     RejectedResponse providerCallId (echoed_identity raw ''attempt_id'')
       (echoed_identity raw ''provider_request_id'') reason"

fun reason_text :: "provider_rejection_reason \<Rightarrow> string" where
  "reason_text AUTHORIZATION_FAILED = ''AUTHORIZATION_FAILED''"
| "reason_text SCHEMA_INVALID = ''SCHEMA_INVALID''"
| "reason_text EXECUTION_IDENTITY_MISMATCH = ''EXECUTION_IDENTITY_MISMATCH''"
| "reason_text IDENTITY_STRUCTURE_INVALID = ''IDENTITY_STRUCTURE_INVALID''"
| "reason_text PAYMENT_NOT_FOUND = ''PAYMENT_NOT_FOUND''"
| "reason_text AMOUNT_INVALID = ''AMOUNT_INVALID''"
| "reason_text CURRENCY_MISMATCH = ''CURRENCY_MISMATCH''"

definition RECEIVED_COPY_FIELDS :: "string list" where
  "RECEIVED_COPY_FIELDS =
     [''caller_id'', ''attempt_id'', ''provider_request_id'', ''refund_request_id'', ''payment_id'']"

definition receivedBody :: "'w provider_deps \<Rightarrow> json \<Rightarrow> uuid4 \<Rightarrow> json_object" where
  "receivedBody deps raw providerCallId =
     [(''provider_call_id'', JString providerCallId), (''raw_request_sha256'', JString (pd_digest deps raw))]
     @ concat (map (\<lambda>fld. case raw_member raw fld of Some (JString s) \<Rightarrow> [(fld, JString s)] | _ \<Rightarrow> []) RECEIVED_COPY_FIELDS)"

definition acceptedBody :: "uuid4 \<Rightarrow> accepted_call \<Rightarrow> json_object" where
  "acceptedBody providerCallId call =
     [(''provider_call_id'', JString providerCallId), (''caller_id'', JString (caller_text (acc_caller call)))]
     @ call_members call"

definition rejected_body :: "uuid4 \<Rightarrow> provider_rejection_reason \<Rightarrow> json_object" where
  "rejected_body providerCallId reason =
     [(''provider_call_id'', JString providerCallId), (''reason'', JString (reason_text reason))]"

text \<open>\<^verbatim>\<open>composeRefundProvider\<close>: a journal is opened with a new source instance.\<close>

definition PROVIDER_JOURNAL_DEFINITIVE_RETRIES :: nat where "PROVIDER_JOURNAL_DEFINITIVE_RETRIES = 2"

definition provider_journal :: "'w provider_deps \<Rightarrow> journal_scope \<Rightarrow> uuid4 \<Rightarrow> 'w journal_writer_deps" where
  "provider_journal deps scope instance_id =
     \<lparr>jd_port = createDurableJournalPort (pd_store deps) ExperimentJournalTable, jd_source = ''refund_provider'',
      jd_instance = instance_id, jd_scope = scope, jd_clock = pd_wall deps, jd_ids = pd_ids deps,
      jd_max_retries = PROVIDER_JOURNAL_DEFINITIVE_RETRIES\<rparr>"

definition openJournal :: "'w provider_deps \<Rightarrow> journal_scope \<Rightarrow> (journal_writer \<times> 'w, 'w journal_writer_deps) io" where
  "openJournal deps scope =
     io_bind (io_lift (pd_ids deps)) (\<lambda>instance_id.
     io_bind (io_put new_journal_writer) (\<lambda>_. io_return (provider_journal deps scope instance_id)))"

definition appendOrFault ::
  "'w journal_writer_deps \<Rightarrow> uuid4 \<Rightarrow> string \<Rightarrow> json_object \<Rightarrow> fault_phase \<Rightarrow> uuid4 list \<Rightarrow> (journal_writer \<times> 'w, uuid4) io" where
  "appendOrFault jd providerCallId type body phase causation =
     io_bind (journal_append jd type body causation) (\<lambda>appended.
     case appended of
       AppendStopped _ \<Rightarrow> io_throw (ProviderFault PROVIDER_JOURNAL_STOPPED phase providerCallId)
     | Appended event \<Rightarrow> io_return (event_id_of event))"

definition readOrFault :: "uuid4 \<Rightarrow> ('w, string + 'a option) io \<Rightarrow> (journal_writer \<times> 'w, 'a option) io" where
  "readOrFault providerCallId read =
     io_bind (io_lift read) (\<lambda>r.
     case r of
       Inl _ \<Rightarrow> io_throw (ProviderFault PROVIDER_STATE_UNREADABLE BeforeCommit providerCallId)
     | Inr v \<Rightarrow> io_return v)"

subsection \<open>A call that names no configured trial (\<^verbatim>\<open>unattributed-call.ts\<close>)\<close>

definition rejectUnattributedCall ::
  "'w provider_deps \<Rightarrow> json \<Rightarrow> uuid4 \<Rightarrow> provider_fault_code \<Rightarrow> (journal_writer \<times> 'w, provider_refund_response) io" where
  "rejectUnattributedCall deps raw providerCallId cause =
     io_bind (readOrFault providerCallId (loadExecutionConfiguration (pd_store deps) (pd_deployment deps))) (\<lambda>read.
     case read of
       None \<Rightarrow> io_throw (ProviderFault cause BeforeCommit providerCallId)
     | Some digest \<Rightarrow>
         io_bind (openJournal deps (unattributedJournalScope (pd_deployment deps) digest)) (\<lambda>jd.
         io_bind (appendOrFault jd providerCallId ''provider_call_rejected''
            (rejected_body providerCallId (judgeUnattributedCall raw)) BeforeCommit []) (\<lambda>_.
         io_return (rejectedResponse providerCallId raw (judgeUnattributedCall raw)))))"

subsection \<open>The handler of one call (\<^verbatim>\<open>refund-provider.ts\<close>)\<close>

datatype attribution = Attributed call_partition provider_config_view | Unattributed provider_fault_code

record 'w call_session =
  cs_call_id :: uuid4
  cs_partition :: call_partition
  cs_context :: acceptance_context
  cs_treatment :: "treatment_item option"
  cs_journal :: "'w journal_writer_deps"
  cs_received_event_id :: uuid4

definition attribute :: "'w provider_deps \<Rightarrow> json \<Rightarrow> uuid4 \<Rightarrow> (journal_writer \<times> 'w, attribution) io" where
  "attribute deps raw providerCallId =
     (case resolveCallPartition (pd_deployment deps) raw of
        None \<Rightarrow> io_return (Unattributed UNATTRIBUTABLE_CALL)
      | Some part \<Rightarrow>
          io_bind (readOrFault providerCallId (loadTrialConfiguration (pd_store deps) part)) (\<lambda>config.
          io_return (case config of
            None \<Rightarrow> Unattributed CONFIGURATION_MISSING
          | Some c \<Rightarrow> Attributed part c)))"

definition openSession ::
  "'w provider_deps \<Rightarrow> json \<Rightarrow> uuid4 \<Rightarrow> call_partition \<Rightarrow> provider_config_view \<Rightarrow> (journal_writer \<times> 'w, 'w call_session) io" where
  "openSession deps raw providerCallId part config =
     io_bind (readOrFault providerCallId (loadPayment (pd_store deps) (cp_key part) (cv_payment_id config))) (\<lambda>payment.
     io_bind (readOrFault providerCallId (loadTreatment (pd_store deps) (cp_key part))) (\<lambda>treatment.
     io_bind (openJournal deps (callJournalScope (pd_deployment deps) config)) (\<lambda>jd.
     io_bind (appendOrFault jd providerCallId ''provider_call_received'' (receivedBody deps raw providerCallId)
        BeforeCommit []) (\<lambda>received.
     io_return \<lparr>cs_call_id = providerCallId, cs_partition = part,
        cs_context = \<lparr>ac_deployment = pd_deployment deps, ac_configuration = config, ac_payment = payment\<rparr>,
        cs_treatment = treatment, cs_journal = jd, cs_received_event_id = received\<rparr>))))"

definition reject_call ::
  "'w call_session \<Rightarrow> json \<Rightarrow> provider_rejection_reason \<Rightarrow> (journal_writer \<times> 'w, provider_refund_response) io" where
  "reject_call session raw reason =
     io_bind (appendOrFault (cs_journal session) (cs_call_id session) ''provider_call_rejected''
        (rejected_body (cs_call_id session) reason) BeforeCommit [cs_received_event_id session]) (\<lambda>_.
     io_return (rejectedResponse (cs_call_id session) raw reason))"

text \<open>The targeted call ends when its barrier does; \<open>None\<close> when the bound on its turns is used up.\<close>

definition finish_call ::
  "nat \<Rightarrow> 'w provider_deps \<Rightarrow> 'w call_session \<Rightarrow> accepted_call \<Rightarrow> confirmed_commit \<Rightarrow> (journal_writer \<times> 'w, unit option) io" where
  "finish_call turns deps session call commit =
     (let ids = pl_ids (cf_plan commit)
      in if pl_kind (cf_plan commit) = Untargeted
         then io_bind (appendOrFault (cs_journal session) (cs_call_id session) ''provider_response_returned''
                [(''provider_commit_id'', JString (cid_commit_id ids)),
                 (''provider_transaction_id'', JString (cid_transaction_id ids)),
                 (''provider_call_id'', JString (cs_call_id session)),
                 (''attempt_id'', JString (acc_attempt_id call)),
                 (''provider_request_id'', JString (acc_provider_request_id call))]
                AfterCommit [cf_confirmed_event_id commit]) (\<lambda>_. io_return (Some ()))
         else io_bind (awaitRelease turns deps (cs_journal session)
                \<lparr>bc_partition = cp_key (cs_partition session), bc_commit_id = cid_commit_id ids,
                 bc_call_id = cs_call_id session, bc_attempt_id = acc_attempt_id call,
                 bc_commit_event_id = cid_commit_event_id ids, bc_ack_ns = cf_ack_ns commit\<rparr>) (\<lambda>outcome.
              io_return (map_option (\<lambda>_. ()) outcome)))"

definition is_targeted_call :: "'w call_session \<Rightarrow> bool" where
  "is_targeted_call session \<longleftrightarrow>
     cv_scenario (ac_configuration (cs_context session)) = COMMIT_THEN_TIMEOUT
     \<and> map_option ti_state (cs_treatment session) = Some ARMED"

definition commit_accepted ::
  "nat \<Rightarrow> 'w provider_deps \<Rightarrow> 'w call_session \<Rightarrow> accepted_call \<Rightarrow> (journal_writer \<times> 'w, provider_refund_response option) io" where
  "commit_accepted turns deps session call =
     io_bind (appendOrFault (cs_journal session) (cs_call_id session) ''provider_call_accepted''
        (acceptedBody (cs_call_id session) call) BeforeCommit [cs_received_event_id session]) (\<lambda>accepted.
     io_bind (executeCommit deps (cs_journal session)
        \<lparr>rq_partition = cp_key (cs_partition session), rq_call = call, rq_call_id = cs_call_id session,
         rq_accepted_event_id = accepted, rq_kind = (if is_targeted_call session then Targeted else Untargeted)\<rparr>) (\<lambda>commit.
     io_bind (finish_call turns deps session call commit) (\<lambda>finished.
     io_return (map_option (\<lambda>_.
       SucceededResponse (cs_call_id session) (acc_attempt_id call) (acc_provider_request_id call)
         (cid_transaction_id (pl_ids (cf_plan commit)))) finished))))"

definition handleCall ::
  "nat \<Rightarrow> 'w provider_deps \<Rightarrow> json \<Rightarrow> (journal_writer \<times> 'w, provider_refund_response option) io" where
  "handleCall turns deps raw =
     io_bind (io_lift (pd_ids deps)) (\<lambda>providerCallId.
     io_bind (attribute deps raw providerCallId) (\<lambda>attribution.
     case attribution of
       Unattributed cause \<Rightarrow>
         io_bind (rejectUnattributedCall deps raw providerCallId cause) (\<lambda>response. io_return (Some response))
     | Attributed part config \<Rightarrow>
         io_bind (openSession deps raw providerCallId part config) (\<lambda>session.
         case evaluateAcceptance raw (cs_context session) of
           Inl reason \<Rightarrow> io_bind (reject_call session raw reason) (\<lambda>response. io_return (Some response))
         | Inr call \<Rightarrow> commit_accepted turns deps session call)))"

subsection \<open>The warm-up (\<^verbatim>\<open>provider-warmup.ts\<close>)\<close>

definition WARMUP_REQUEST_PROPERTIES :: "string list" where
  "WARMUP_REQUEST_PROPERTIES =
     [''schema_version'', ''record_type'', ''run_id'', ''variant_validation_id'', ''transport_probe_id'',
      ''execution_manifest_sha256'', ''trial_id'', ''warmup_id'']"

record warmup_request =
  wr_execution :: execution_identity
  wr_manifest :: sha256_hex
  wr_warmup_id :: uuid4

definition warmupFieldProblem :: "json_object \<Rightarrow> string option" where
  "warmupFieldProblem raw =
     (case List.find (\<lambda>key. key \<notin> set WARMUP_REQUEST_PROPERTIES) (map fst raw) of
        Some unknown \<Rightarrow> Some unknown
      | None \<Rightarrow>
          if \<not> scalar_matches (own_member raw ''schema_version'') (SNumber (JsInt 1)) then Some ''schema_version''
          else if own_member raw ''record_type'' \<noteq> Some (JString ''provider_warmup_request'') then Some ''record_type''
          else if \<not> member_is isSha256Hex (own_member raw ''execution_manifest_sha256'')
               then Some ''execution_manifest_sha256''
          else if \<not> member_is isUuid4 (own_member raw ''warmup_id'') then Some ''warmup_id''
          else if own_member raw ''trial_id'' \<noteq> None \<and> \<not> member_is isUuid4 (own_member raw ''trial_id'')
               then Some ''trial_id''
          else None)"

fun guardWarmupRequest :: "json \<Rightarrow> string + warmup_request" where
  "guardWarmupRequest (JObject raw) =
     (case warmupFieldProblem raw of
        Some problem \<Rightarrow> Inl problem
      | None \<Rightarrow>
          (case parseExecutionIdentityFields raw of
             Inl problem \<Rightarrow> Inl problem
           | Inr execution \<Rightarrow>
               Inr \<lparr>wr_execution = execution, wr_manifest = text_member raw ''execution_manifest_sha256'',
                    wr_warmup_id = text_member raw ''warmup_id''\<rparr>))"
| "guardWarmupRequest _ = Inl ''warm-up request''"

definition acceptedRequest :: "'w provider_deps \<Rightarrow> json \<Rightarrow> uuid4 \<Rightarrow> js_throw + warmup_request" where
  "acceptedRequest deps raw providerCallId =
     (case guardWarmupRequest raw of
        Inl _ \<Rightarrow> Inl (ProviderFault WARMUP_REQUEST_INVALID BeforeCommit providerCallId)
      | Inr request \<Rightarrow>
          if sameExecution (wr_execution request) (pd_deployment deps) then Inr request
          else Inl (ProviderFault WARMUP_REQUEST_INVALID BeforeCommit providerCallId))"

definition handleWarmup :: "'w provider_deps \<Rightarrow> json \<Rightarrow> (journal_writer \<times> 'w, json_object) io" where
  "handleWarmup deps raw =
     io_bind (io_lift (pd_monotonic deps)) (\<lambda>receivedNs.
     io_bind (io_lift (pd_wall deps)) (\<lambda>receivedMs.
     io_bind (io_of (formatUtcMillis receivedMs)) (\<lambda>receivedAt.
     io_bind (io_lift (pd_ids deps)) (\<lambda>providerCallId.
     io_bind (io_of (acceptedRequest deps raw providerCallId)) (\<lambda>request.
     io_bind (openJournal deps (warmupJournalScope (pd_deployment deps) (wr_manifest request))) (\<lambda>jd.
     io_bind (io_lift (pd_wall deps)) (\<lambda>completedMs.
     io_bind (io_of (formatUtcMillis completedMs)) (\<lambda>completedAt.
     io_bind (io_lift (pd_monotonic deps)) (\<lambda>nowNs.
     io_bind (io_of (elapsedNs receivedNs nowNs)) (\<lambda>elapsed.
     io_bind (journal_append jd ''provider_warmup_completed''
       [(''provider_call_id'', JString providerCallId), (''warmup_id'', JString (wr_warmup_id request)),
        (''received_at'', JString receivedAt), (''completed_at'', JString completedAt),
        (''handler_elapsed_ns'', JString elapsed)] []) (\<lambda>appended.
     case appended of
       AppendStopped _ \<Rightarrow> io_throw (ProviderFault PROVIDER_JOURNAL_STOPPED BeforeCommit providerCallId)
     | Appended event \<Rightarrow> io_return event)))))))))))"

datatype provider_invocation_result = RefundResult provider_refund_response | WarmupResult json_object

definition provider_handle ::
  "nat \<Rightarrow> 'w provider_deps \<Rightarrow> json \<Rightarrow> (journal_writer \<times> 'w, provider_invocation_result option) io" where
  "provider_handle turns deps raw =
     (if raw_member raw ''record_type'' = Some (JString ''provider_warmup_request'')
      then io_bind (handleWarmup deps raw) (\<lambda>event. io_return (Some (WarmupResult event)))
      else io_bind (handleCall turns deps raw) (\<lambda>response. io_return (map_option RefundResult response)))"

end
