(* ===== verification/Io_Specs.thy ===== *)
theory Io_Specs
  imports Async_Calls
begin

text \<open>
  Specifications of asynchronous computations: from every world that satisfies \<open>P\<close>, an answer
  satisfies \<open>Q\<close> and a rejection satisfies \<open>E\<close> of the world it leaves. The rules follow the
  combinators, so a handler is specified by composing the specifications of its calls.
\<close>

named_theorems io_specs \<open>specifications of the combinators\<close>

definition io_spec ::
  "('w \<Rightarrow> bool) \<Rightarrow> ('w, 'a) io \<Rightarrow> ('a \<Rightarrow> 'w \<Rightarrow> bool) \<Rightarrow> (js_throw \<Rightarrow> 'w \<Rightarrow> bool) \<Rightarrow> bool" where
  "io_spec P m Q E \<longleftrightarrow>
     (\<forall>w r w'. P w \<longrightarrow> run_state m w = (r, w') \<longrightarrow> (case r of Inr x \<Rightarrow> Q x w' | Inl e \<Rightarrow> E e w'))"

lemma io_specI:
  assumes "\<And>w x w'. P w \<Longrightarrow> run_state m w = (Inr x, w') \<Longrightarrow> Q x w'"
    and "\<And>w e w'. P w \<Longrightarrow> run_state m w = (Inl e, w') \<Longrightarrow> E e w'"
  shows "io_spec P m Q E"
  using assms by (auto simp: io_spec_def split: sum.splits)

lemma io_spec_caseI:
  "(\<And>w r w'. P w \<Longrightarrow> run_state m w = (r, w') \<Longrightarrow> case r of Inr x \<Rightarrow> Q x w' | Inl e \<Rightarrow> E e w') \<Longrightarrow>
   io_spec P m Q E"
  by (simp add: io_spec_def)

lemma io_specD:
  assumes "io_spec P m Q E" and "P w" and "run_state m w = (r, w')"
  shows "case r of Inr x \<Rightarrow> Q x w' | Inl e \<Rightarrow> E e w'"
  using assms by (simp add: io_spec_def)

lemma io_spec_answer: "io_spec P m Q E \<Longrightarrow> P w \<Longrightarrow> run_state m w = (Inr x, w') \<Longrightarrow> Q x w'"
  by (drule (2) io_specD) simp

lemma io_spec_reject: "io_spec P m Q E \<Longrightarrow> P w \<Longrightarrow> run_state m w = (Inl e, w') \<Longrightarrow> E e w'"
  by (drule (2) io_specD) simp

lemma io_spec_weaken:
  assumes "io_spec P m Q E" and "\<And>w. P' w \<Longrightarrow> P w" and "\<And>x w. Q x w \<Longrightarrow> Q' x w" and "\<And>e w. E e w \<Longrightarrow> E' e w"
  shows "io_spec P' m Q' E'"
  using assms by (fastforce simp: io_spec_def split: sum.splits)

lemma io_spec_return [io_specs]: "(\<And>w. P w \<Longrightarrow> Q x w) \<Longrightarrow> io_spec P (io_return x) Q E"
  by (simp add: io_spec_def)

lemma io_spec_throw [io_specs]: "(\<And>w. P w \<Longrightarrow> E e w) \<Longrightarrow> io_spec P (io_throw e) Q E"
  by (simp add: io_spec_def)

lemma io_spec_of [io_specs]:
  "(\<And>x w. r = Inr x \<Longrightarrow> P w \<Longrightarrow> Q x w) \<Longrightarrow> (\<And>e w. r = Inl e \<Longrightarrow> P w \<Longrightarrow> E e w) \<Longrightarrow> io_spec P (io_of r) Q E"
  by (auto simp: io_spec_def split: sum.splits)

lemma io_spec_bind:
  assumes "io_spec P m R E" and "\<And>x. io_spec (R x) (f x) Q E"
  shows "io_spec P (io_bind m f) Q E"
  using assms unfolding io_spec_def by (auto split: sum.splits prod.splits) (metis sum.simps(5,6))+

lemma io_spec_catch:
  assumes "io_spec P m Q R" and "\<And>e. io_spec (R e) (h e) Q E"
  shows "io_spec P (io_catch m h) Q E"
  using assms unfolding io_spec_def by (auto split: sum.splits prod.splits) (metis sum.simps(5,6))+

lemma io_spec_get [io_specs]: "(\<And>s w. P (s, w) \<Longrightarrow> Q s (s, w)) \<Longrightarrow> io_spec P io_get Q E"
  by (auto simp: io_spec_def)

lemma io_spec_put [io_specs]: "(\<And>s' w. P (s', w) \<Longrightarrow> Q () (s, w)) \<Longrightarrow> io_spec P (io_put s) Q E"
  by (auto simp: io_spec_def)

text \<open>A call of the world, with the object unchanged.\<close>

lemma io_spec_lift:
  assumes "\<And>s. io_spec (\<lambda>w. P (s, w)) m (\<lambda>x w. Q x (s, w)) (\<lambda>e w. E e (s, w))"
  shows "io_spec P (io_lift m) Q E"
  using assms unfolding io_spec_def by (auto split: sum.splits)

lemma io_lift_bind: "io_lift (io_bind m f) = io_bind (io_lift m) (\<lambda>x. io_lift (f x))"
  by (rule state_ext) (auto split: prod.splits sum.splits)

lemma io_lift_return: "io_lift (io_return x) = io_return x"
  by (rule state_ext) auto

lemma io_lift_of: "io_lift (io_of r) = io_of r"
  by (rule state_ext) auto

lemma io_spec_pre: "(\<And>w. P w \<Longrightarrow> \<exists>P'. P' w \<and> io_spec P' m Q E) \<Longrightarrow> io_spec P m Q E"
  unfolding io_spec_def by blast

lemma io_spec_conj_pre: "(A \<Longrightarrow> io_spec P m Q E) \<Longrightarrow> io_spec (\<lambda>w. P w \<and> A) m Q E"
  by (auto simp: io_spec_def)

lemma io_spec_False [simp]: "io_spec (\<lambda>_. False) m Q E"
  by (simp add: io_spec_def)

lemma io_spec_conj:
  "io_spec P m Q E \<Longrightarrow> io_spec P' m Q' E' \<Longrightarrow>
   io_spec (\<lambda>w. P w \<and> P' w) m (\<lambda>x w. Q x w \<and> Q' x w) (\<lambda>e w. E e w \<and> E' e w)"
  by (auto simp: io_spec_def split: sum.splits)

lemma io_spec_ex_pre: "(\<And>x. io_spec (P x) m Q E) \<Longrightarrow> io_spec (\<lambda>w. \<exists>x. P x w) m Q E"
  by (auto simp: io_spec_def)

text \<open>What a computation keeps whether it answers or rejects.\<close>

abbreviation io_keeps :: "('w \<Rightarrow> bool) \<Rightarrow> ('w, 'a) io \<Rightarrow> bool" where
  "io_keeps P m \<equiv> io_spec P m (\<lambda>_. P) (\<lambda>_. P)"

lemma io_keeps_bind: "io_keeps P m \<Longrightarrow> (\<And>x. io_keeps P (f x)) \<Longrightarrow> io_keeps P (io_bind m f)"
  by (rule io_spec_bind)

lemma io_keeps_return [simp, intro]: "io_keeps P (io_return x)"
  by (rule io_spec_return)

lemma io_keeps_throw [simp, intro]: "io_keeps P (io_throw e)"
  by (rule io_spec_throw)

lemma io_keeps_of [simp, intro]: "io_keeps P (io_of r)"
  by (rule io_spec_of)

lemma io_keeps_get [simp, intro]: "io_keeps P io_get"
  by (rule io_spec_get)

lemma io_keeps_lift: "(\<And>s. io_keeps (\<lambda>w. P (s, w)) m) \<Longrightarrow> io_keeps P (io_lift m)"
  by (rule io_spec_lift)

end
