(* ===== verification/Journal_Client.thy ===== *)
theory Journal_Client
  imports Event_Journal Io_Specs
begin

text \<open>
  What a component may rely on that keeps a journal in the experiment table: its store, its clock
  and its identifiers in an environment of other writers that leave the journal items under its
  identifiers alone. A client asserts something of the tables (a predicate closed under what the
  others and the journal itself do) and the specifications of the writer's operations carry the
  assertion through appends, reservations, transactions and confirmations.
\<close>

text \<open>What an outcome says when the actions, applied, turn tables of \<open>W\<close> into tables of \<open>N\<close>.\<close>

fun outcome_view ::
  "(tables \<Rightarrow> bool) \<Rightarrow> (tables \<Rightarrow> bool) \<Rightarrow> journal_outcome_class \<Rightarrow> tables \<Rightarrow> bool" where
  "outcome_view W N OutcomeApplied = N"
| "outcome_view W N OutcomeNotApplied = W"
| "outcome_view W N OutcomeAmbiguous = (\<lambda>db. W db \<or> N db)"
| "outcome_view W N OutcomeConflict = (\<lambda>_. False)"

locale journal_client = store_environment store view sane rely
  for store :: "'w durable_item_store" and view :: "'w \<Rightarrow> tables" and sane :: "'w \<Rightarrow> bool"
    and rely :: "tables \<Rightarrow> tables \<Rightarrow> bool" +
  fixes ids :: "('w, uuid4) io" and wall :: "('w, int) io" and source :: string and retries :: nat
    and mine :: "uuid4 \<Rightarrow> bool" and plain :: "js_throw \<Rightarrow> bool"
  assumes plain_own: "plain RangeError" "plain TypeError" "plain ErrorThrown"
    and ids_law: "sane w \<Longrightarrow> run_state ids w = (drawn, w') \<Longrightarrow>
      sane w' \<and> rely (view w) (view w') \<and> (case drawn of Inr i \<Rightarrow> mine i | Inl e \<Rightarrow> plain e)"
    and wall_law: "sane w \<Longrightarrow> run_state wall w = (now, w') \<Longrightarrow>
      sane w' \<and> rely (view w) (view w') \<and> (\<forall>e. now = Inl e \<longrightarrow> plain e)"
    and store_plain: "sane w \<Longrightarrow> run_state (item_transact store as token) w = (Inl e, w') \<Longrightarrow> plain e"
      "sane w \<Longrightarrow> run_state (item_write store a) w = (Inl e, w') \<Longrightarrow> plain e"
      "sane w \<Longrightarrow> run_state (item_get store tb k) w = (Inl e, w') \<Longrightarrow> plain e"
    and instance_alone: "rely db db' \<Longrightarrow> mine i \<Longrightarrow> isSourceSequence n \<Longrightarrow>
      db' ExperimentJournalTable \<lparr>pk = journalPartitionKey scope, sk = journal_sort_key source i n\<rparr>
      = db ExperimentJournalTable \<lparr>pk = journalPartitionKey scope, sk = journal_sort_key source i n\<rparr>"
begin

definition client_journal :: "journal_scope \<Rightarrow> uuid4 \<Rightarrow> 'w journal_writer_deps" where
  "client_journal scope i =
     \<lparr>jd_port = createDurableJournalPort store ExperimentJournalTable, jd_source = source, jd_instance = i,
      jd_scope = scope, jd_clock = wall, jd_ids = ids, jd_max_retries = retries\<rparr>"

definition good_journal :: "'w journal_writer_deps \<Rightarrow> bool" where
  "good_journal jd \<longleftrightarrow> (\<exists>scope i. mine i \<and> jd = client_journal scope i)"

lemma good_journal_environment:
  assumes "good_journal jd"
  shows "journal_environment store view sane rely jd ExperimentJournalTable"
proof -
  from assms obtain scope i where i: "mine i" and jd: "jd = client_journal scope i"
    by (auto simp: good_journal_def)
  show ?thesis
  proof unfold_locales
    show "jd_port jd = createDurableJournalPort store ExperimentJournalTable"
      by (simp add: jd client_journal_def)
    show "sane w' \<and> rely (view w) (view w')" if "sane w" "run_state (jd_clock jd) w = (now, w')" for w now w'
      using wall_law [OF that(1)] that(2) by (simp add: jd client_journal_def)
    show "sane w' \<and> rely (view w) (view w')" if "sane w" "run_state (jd_ids jd) w = (drawn, w')" for w drawn w'
      using ids_law [OF that(1)] that(2) by (simp add: jd client_journal_def)
    show "db' ExperimentJournalTable (own_key jd n) = db ExperimentJournalTable (own_key jd n)"
      if "rely db db'" "isSourceSequence n" for db db' n
      using instance_alone [OF that(1) i that(2)] by (simp add: jd client_journal_def own_key_def)
  qed
qed

subsection \<open>Calm computations\<close>

text \<open>
  A computation is calm about a property of the world when it keeps it and throws nothing but
  plain errors. The writer's operations are calm about what its port, clock and identifiers are.
\<close>

lemma plain_builders:
  "formatUtcMillis ms = Inl e \<Longrightarrow> plain e"
  "buildJournalEvent type body inp = Inl e \<Longrightarrow> plain e"
  "journalItemKey scope src i n = Inl e \<Longrightarrow> plain e"
  "assertIdle jw = Inl e \<Longrightarrow> plain e"
  "elapsedNs a b = Inl e \<Longrightarrow> plain e"
  using plain_own
  by (auto simp: formatUtcMillis_def buildJournalEvent_def journalItemKey_def assertSourceSequence_def
      assertIdle_def elapsedNs_def Let_def split: if_splits sum.splits)

lemma plain_classify: "classifyJournalOutcome oc put k = Inl e \<Longrightarrow> plain e"
  using plain_own
  by (cases oc) (auto simp: classifyConditionFailure_def isSameStoredEntry_def structurallyEqual_def
      split: if_splits sum.splits option.splits)

abbreviation io_calm :: "('b \<Rightarrow> bool) \<Rightarrow> ('b, 'a) io \<Rightarrow> bool" where
  "io_calm P m \<equiv> io_spec P m (\<lambda>_. P) (\<lambda>e w. P w \<and> plain e)"

abbreviation world_calm :: "('b \<Rightarrow> bool) \<Rightarrow> ('s \<times> 'b, 'a) io \<Rightarrow> bool" where
  "world_calm P m \<equiv> io_calm (\<lambda>p. P (snd p)) m"

lemma io_calm_of: "(\<And>e. r = Inl e \<Longrightarrow> plain e) \<Longrightarrow> io_calm P (io_of r)"
  by (rule io_spec_of) auto

lemma io_calm_bind: "io_calm P m \<Longrightarrow> (\<And>x. io_calm P (f x)) \<Longrightarrow> io_calm P (io_bind m f)"
  by (rule io_spec_bind)

lemma io_calm_return: "io_calm P (io_return x)"
  by (rule io_spec_return)

lemma io_calm_throw: "plain e \<Longrightarrow> io_calm P (io_throw e)"
  by (rule io_spec_throw) simp

lemma world_calm_get: "world_calm P io_get"
  by (rule io_spec_get) simp

lemma world_calm_put: "world_calm P (io_put s)"
  by (rule io_spec_put) simp

lemma world_calm_lift: "io_calm P m \<Longrightarrow> world_calm P (io_lift m)"
  by (rule io_spec_lift) simp

lemma world_calm_finally: "world_calm P m \<Longrightarrow> world_calm P (io_finally m f)"
  unfolding io_spec_def by (simp add: io_finally_def split: sum.splits prod.splits) blast

lemma io_calm_catch:
  assumes "io_calm P m" and "\<And>e. io_calm P (h e)"
  shows "io_calm P (io_catch m h)"
  by (rule io_spec_catch [OF assms(1)]) (rule io_spec_weaken [OF assms(2)], auto)

lemma io_calm_if: "(b \<Longrightarrow> io_calm P m) \<Longrightarrow> (\<not> b \<Longrightarrow> io_calm P m') \<Longrightarrow> io_calm P (if b then m else m')"
  by simp

lemma calm_builders:
  "io_calm P (io_of (formatUtcMillis ms))"
  "io_calm P (io_of (buildJournalEvent type body inp))"
  "io_calm P (io_of (journalItemKey scope src i n))"
  "io_calm P (io_of (assertIdle jw))"
  "io_calm P (io_of (elapsedNs a b))"
  "io_calm P (io_of (classifyJournalOutcome oc put k))"
  by (rule io_calm_of, erule plain_builders plain_classify)+

lemmas calm_rules = io_calm_bind io_calm_return io_calm_throw world_calm_get world_calm_put
  world_calm_lift world_calm_finally io_calm_catch io_calm_if calm_builders

lemma nextEntry_calm:
  assumes "io_calm P (jd_clock jd)" and "io_calm P (jd_ids jd)"
  shows "world_calm P (nextEntry jd type body causation)"
  unfolding nextEntry_def by (intro calm_rules assms)

lemma append_calm:
  assumes "io_calm P (jd_clock jd)" and "io_calm P (jd_ids jd)" and "\<And>e. io_calm P (jd_port jd e)"
  shows "world_calm P (journal_append jd type body causation)"
proof -
  have wr: "world_calm P (journal_write jd e)" for e
    unfolding journal_write_def by (intro calm_rules assms)
  have rt: "world_calm P (retry_write jd e n v)" for e n v
    by (induction n arbitrary: v) (auto intro!: calm_rules wr)
  have st: "world_calm P (journal_stop reason)" "world_calm P (journal_settle v e)" for reason v e
    unfolding journal_settle_def journal_stop_def by (intro calm_rules)+
  have "world_calm P (appendInOrder jd type body causation)"
    unfolding appendInOrder_def by (intro calm_rules nextEntry_calm assms wr rt st) (simp_all add: plain_own)
  then show ?thesis unfolding journal_append_def by (intro calm_rules)
qed

lemma prepare_calm:
  assumes "io_calm P (jd_clock jd)" and "io_calm P (jd_ids jd)"
  shows "world_calm P (journal_prepare jd type body causation)"
  unfolding journal_prepare_def journal_reserve_def by (intro calm_rules nextEntry_calm assms)

lemma confirm_calm: "world_calm P (journal_confirm put outcome k)"
  unfolding journal_confirm_def journal_settle_def journal_stop_def by (intro calm_rules) (simp_all add: plain_own)

subsection \<open>States of a client\<close>

text \<open>
  Assertions about the tables that neither the others nor the journal can break; the state before
  the journal is opened; the writer idle with some evidence behind it; a put reserved for a
  transaction; and the transaction answered.
\<close>

definition closed :: "(tables \<Rightarrow> bool) \<Rightarrow> bool" where
  "closed W \<longleftrightarrow> (\<forall>db db'. W db \<longrightarrow> rely db db' \<or> (\<forall>t. t \<noteq> ExperimentJournalTable \<longrightarrow> db' t = db t) \<longrightarrow> W db')"

lemma closed_rely: "closed W \<Longrightarrow> W db \<Longrightarrow> rely db db' \<Longrightarrow> W db'"
  unfolding closed_def by blast

lemma closed_journal: "closed W \<Longrightarrow> W db \<Longrightarrow> (\<And>t. t \<noteq> ExperimentJournalTable \<Longrightarrow> db' t = db t) \<Longrightarrow> W db'"
  unfolding closed_def by blast

lemma closed_disj: "closed W \<Longrightarrow> closed N \<Longrightarrow> closed (\<lambda>db. W db \<or> N db)"
  unfolding closed_def by blast

lemma closed_outcome: "closed W \<Longrightarrow> closed N \<Longrightarrow> closed (outcome_view W N v)"
  by (cases v) (simp_all add: closed_disj, simp add: closed_def)

definition unopened :: "(tables \<Rightarrow> bool) \<Rightarrow> journal_writer \<times> 'w \<Rightarrow> bool" where
  "unopened W p \<longleftrightarrow> closed W \<and> sane (snd p) \<and> W (view (snd p))
     \<and> (\<forall>i scope n. mine i \<longrightarrow> isSourceSequence n \<longrightarrow>
          view (snd p) ExperimentJournalTable \<lparr>pk = journalPartitionKey scope, sk = journal_sort_key source i n\<rparr> = None)"

definition idle :: "'w journal_writer_deps \<Rightarrow> (tables \<Rightarrow> bool) \<Rightarrow> journal_writer \<times> 'w \<Rightarrow> bool" where
  "idle jd W p \<longleftrightarrow> good_journal jd \<and> closed W \<and> W (view (snd p))
     \<and> (\<exists>es. journal_environment.evidence view sane jd ExperimentJournalTable es (fst p) (snd p))"

definition reserving ::
  "'w journal_writer_deps \<Rightarrow> journal_entry \<Rightarrow> (tables \<Rightarrow> bool) \<Rightarrow> journal_writer \<times> 'w \<Rightarrow> bool" where
  "reserving jd put W p \<longleftrightarrow> good_journal jd \<and> closed W \<and> W (view (snd p))
     \<and> jw_reservation (fst p) = Some put \<and> jw_stopped (fst p) = None
     \<and> (\<exists>es type body causation. entry_for jd type body causation (int (length es) + 1) put
          \<and> sane (snd p)
          \<and> instance_evidence es (fst p\<lparr>jw_reservation := None\<rparr>)
              (journal_environment.slots_of jd ExperimentJournalTable (view (snd p))))"

definition answered ::
  "'w journal_writer_deps \<Rightarrow> journal_entry \<Rightarrow> nat \<Rightarrow> write_outcome \<Rightarrow> (tables \<Rightarrow> bool) \<Rightarrow> journal_writer \<times> 'w \<Rightarrow> bool" where
  "answered jd put k oc W p \<longleftrightarrow> good_journal jd \<and> closed W \<and> W (view (snd p))
     \<and> jw_reservation (fst p) = Some put \<and> jw_stopped (fst p) = None
     \<and> classifyJournalOutcome oc put k = Inr (plain_class oc)
     \<and> (\<exists>es slots type body causation. entry_for jd type body causation (int (length es) + 1) put
          \<and> sane (snd p) \<and> instance_evidence es (fst p\<lparr>jw_reservation := None\<rparr>) slots
          \<and> journal_environment.put_meaning put (int (length es) + 1) slots (plain_class oc)
              (journal_environment.slots_of jd ExperimentJournalTable (view (snd p))))"

text \<open>All of them survive what the others do.\<close>

definition stable :: "(journal_writer \<times> 'w \<Rightarrow> bool) \<Rightarrow> bool" where
  "stable P \<longleftrightarrow> (\<forall>jw w. P (jw, w) \<longrightarrow> sane w \<and> (\<forall>w'. sane w' \<longrightarrow> rely (view w) (view w') \<longrightarrow> P (jw, w')))"

lemma slots_stable:
  "good_journal jd \<Longrightarrow> rely db db' \<Longrightarrow>
   journal_environment.slots_of jd ExperimentJournalTable db' = journal_environment.slots_of jd ExperimentJournalTable db"
  using journal_environment.slots_rely [OF good_journal_environment] by blast

lemma stable_states:
  "stable (unopened W)" "stable (idle jd W)" "stable (reserving jd put W)" "stable (answered jd put k oc W)"
proof -
  show "stable (unopened W)"
    unfolding stable_def unopened_def using closed_rely [of W] instance_alone by fastforce
  show "stable (idle jd W)"
    unfolding stable_def idle_def
    using closed_rely [of W] slots_stable [of jd] journal_environment.evidence_def [OF good_journal_environment]
    by fastforce
  show "stable (reserving jd put W)"
    unfolding stable_def reserving_def using closed_rely [of W] slots_stable [of jd] by fastforce
  show "stable (answered jd put k oc W)"
    unfolding stable_def answered_def using closed_rely [of W] slots_stable [of jd] by fastforce
qed

lemma idle_switch: "idle jd W p \<Longrightarrow> closed W' \<Longrightarrow> W' (view (snd p)) \<Longrightarrow> idle jd W' p"
  by (simp add: idle_def)

subsection \<open>Calls of the world\<close>

lemma stable_sane: "stable P \<Longrightarrow> P p \<Longrightarrow> sane (snd p)"
  unfolding stable_def by (metis prod.collapse)

lemma stable_move: "stable P \<Longrightarrow> P (s, w) \<Longrightarrow> sane w' \<Longrightarrow> rely (view w) (view w') \<Longrightarrow> P (s, w')"
  unfolding stable_def by blast

text \<open>A call that answers something of \<open>R\<close> and otherwise only lets the others move.\<close>

lemma stable_answer:
  assumes "stable P"
    and "\<And>w r w'. sane w \<Longrightarrow> run_state m w = (r, w') \<Longrightarrow>
      sane w' \<and> rely (view w) (view w') \<and> (case r of Inr x \<Rightarrow> R x | Inl e \<Rightarrow> plain e)"
  shows "io_spec P (io_lift m) (\<lambda>x p. P p \<and> R x) (\<lambda>e p. P p \<and> plain e)"
proof (rule io_spec_lift, rule io_specI)
  fix s w x w' assume p: "P (s, w)" and run: "run_state m w = (Inr x, w')"
  from stable_sane [OF assms(1) p] have "sane w" by simp
  from assms(2) [OF this run] stable_move [OF assms(1) p] show "P (s, w') \<and> R x" by simp
next
  fix s w e w' assume p: "P (s, w)" and run: "run_state m w = (Inl e, w')"
  from stable_sane [OF assms(1) p] have "sane w" by simp
  from assms(2) [OF this run] stable_move [OF assms(1) p] show "P (s, w') \<and> plain e" by simp
qed

lemma stable_call:
  assumes "stable P"
    and "\<And>w r w'. sane w \<Longrightarrow> run_state m w = (r, w') \<Longrightarrow>
      sane w' \<and> rely (view w) (view w') \<and> (\<forall>e. r = Inl e \<longrightarrow> plain e)"
  shows "io_calm P (io_lift m)"
  using stable_answer [OF assms(1), of m "\<lambda>_. True"] assms(2) by (simp split: sum.splits)

lemma drawn_mine:
  "stable P \<Longrightarrow> io_spec P (io_lift ids) (\<lambda>i p. P p \<and> mine i) (\<lambda>e p. P p \<and> plain e)"
  by (erule stable_answer) (rule ids_law)

lemma calm_own_calls:
  assumes "stable P"
  shows "io_calm P (io_lift wall)" and "io_calm P (io_lift ids)"
  using stable_call [OF assms wall_law] io_spec_weaken [OF drawn_mine [OF assms]] by simp_all

lemma get_law:
  "sane w \<Longrightarrow> run_state (item_get store t k) w = (r, w') \<Longrightarrow>
   sane w' \<and> rely (view w) (view w') \<and> (\<forall>e. r = Inl e \<longrightarrow> plain e)"
  using read_law store_plain(3) by blast

subsection \<open>The journal writer's operations\<close>

text \<open>The writer's own calls keep what is asserted of the tables.\<close>

abbreviation quiet_tables :: "(tables \<Rightarrow> bool) \<Rightarrow> 'w \<Rightarrow> bool" where
  "quiet_tables W w \<equiv> sane w \<and> closed W \<and> W (view w)"

lemma quiet_calls:
  assumes "good_journal jd"
  shows "io_calm (quiet_tables W) (jd_clock jd)" and "io_calm (quiet_tables W) (jd_ids jd)"
    and "io_calm (quiet_tables W) (jd_port jd e)"
proof -
  from assms obtain scope i where jd: "jd = client_journal scope i" by (auto simp: good_journal_def)
  show "io_calm (quiet_tables W) (jd_clock jd)"
    by (rule io_specI) (use wall_law closed_rely in \<open>fastforce simp: jd client_journal_def\<close>)+
  show "io_calm (quiet_tables W) (jd_ids jd)"
    by (rule io_specI) (use ids_law closed_rely in \<open>fastforce simp: jd client_journal_def\<close>)+
  let ?a = "journalPutAction ExperimentJournalTable e"
  have eff: "W (action_effect ?a db)" if "closed W" "W db" for db
    by (rule closed_journal [OF that]) (simp add: action_effect_def journalPutAction_def set_item_def)
  have "quiet_tables W w'" if "quiet_tables W w" "run_state (item_write store ?a) w = (r, w')" for w r w'
  proof -
    from that(1) have sane: "sane w" by simp
    from write_law [OF sane that(2)] obtain db where db: "sane w'" "rely (view w) db"
      "case r of Inr outcome \<Rightarrow> (\<exists>f. store_write f ?a db = (outcome, view w'))
       | Inl _ \<Rightarrow> view w' = db \<or> (action_guard ?a db \<and> view w' = action_effect ?a db)" by blast
    then have "view w' = db \<or> view w' = action_effect ?a db"
      using single_write.state_after [of _ ?a db] by (auto split: sum.splits)
    with db eff closed_rely [of W, OF _ _ db(2)] that(1) show ?thesis by auto
  qed
  note kept = this
  have port: "jd_port jd e = item_write store ?a"
    by (simp add: jd client_journal_def createDurableJournalPort_def)
  show "io_calm (quiet_tables W) (jd_port jd e)"
    unfolding port by (rule io_specI, (rule kept; assumption), rule conjI [OF kept store_plain(2)]; blast)
qed

lemma quiet_part: "idle jd W p \<Longrightarrow> quiet_tables W (snd p)"
  using stable_sane [OF stable_states(2), of jd W p] by (simp add: idle_def)

lemma idle_iff:
  assumes "good_journal jd"
  shows "idle jd W p \<longleftrightarrow>
    (\<exists>es. journal_environment.evidence view sane jd ExperimentJournalTable es (fst p) (snd p)) \<and> quiet_tables W (snd p)"
  using assms quiet_part [of jd W p] unfolding idle_def by blast

lemma append_spec:
  "io_spec (idle jd W) (journal_append jd type body causation) (\<lambda>_. idle jd W)
     (\<lambda>e p. idle jd W p \<and> plain e)"
proof (rule io_spec_pre)
  fix p assume p: "idle jd W p"
  then have good: "good_journal jd" by (simp add: idle_def)
  let ?ev = "\<lambda>p. \<exists>es. journal_environment.evidence view sane jd ExperimentJournalTable es (fst p) (snd p)"
  have "?ev p'" if "?ev p" "run_state (journal_append jd type body causation) p = (r, p')" for p r p'
  proof -
    from that(1) obtain es where "journal_environment.evidence view sane jd ExperimentJournalTable es (fst p) (snd p)" ..
    from journal_environment.append_law [OF good_journal_environment [OF good] this, of type body causation r "fst p'" "snd p'"]
      that(2) show ?thesis by auto
  qed
  then have a: "io_keeps ?ev (journal_append jd type body causation)" by (rule io_specI; blast)
  have b: "world_calm (quiet_tables W) (journal_append jd type body causation)"
    using append_calm [OF quiet_calls [OF good]] .
  have j: "idle jd W = (\<lambda>p. ?ev p \<and> quiet_tables W (snd p))"
    using idle_iff [OF good] by (rule ext)
  have "io_spec (idle jd W) (journal_append jd type body causation) (\<lambda>_. idle jd W)
     (\<lambda>e p. idle jd W p \<and> plain e)"
    unfolding j by (rule io_spec_weaken [OF io_spec_conj [OF a b]]) simp_all
  with p show "\<exists>P. P p \<and> io_spec P (journal_append jd type body causation) (\<lambda>_. idle jd W)
     (\<lambda>e p. idle jd W p \<and> plain e)" by blast
qed


text \<open>Reserving a put, submitting it in a transaction, and confirming it.\<close>

lemma prepare_spec:
  "io_spec (idle jd W) (journal_prepare jd type body causation)
     (\<lambda>r p. case r of Prepared put \<Rightarrow> reserving jd put W p | PrepareStopped _ \<Rightarrow> idle jd W p)
     (\<lambda>e p. quiet_tables W (snd p) \<and> plain e)"
proof (rule io_spec_caseI)
  fix p r p'
  assume p: "idle jd W p" and run: "run_state (journal_prepare jd type body causation) p = (r, p')"
  from p have good: "good_journal jd" by (simp add: idle_def)
  note env = good_journal_environment [OF good]
  let ?m = "journal_prepare jd type body causation"
  have b: "world_calm (quiet_tables W) ?m"
    using prepare_calm [OF quiet_calls(1,2) [OF good]] .
  from p obtain es where ev: "journal_environment.evidence view sane jd ExperimentJournalTable es (fst p) (snd p)"
    by (auto simp: idle_def)
  from journal_environment.prepare_law [OF env ev, of type body causation r "fst p'" "snd p'"] run
  have law: "journal_environment.evidence view sane jd ExperimentJournalTable es (fst p') (snd p')"
    "\<And>put. r = Inr (Prepared put) \<Longrightarrow> entry_for jd type body causation (int (length es) + 1) put
      \<and> fst p' = (fst p)\<lparr>jw_reservation := Some put, jw_retryable := None\<rparr> \<and> jw_stopped (fst p) = None
      \<and> jw_reservation (fst p) = None
      \<and> journal_environment.slots_of jd ExperimentJournalTable (view (snd p')) (int (length es) + 1) = None"
    by auto
  from io_specD [OF b _ run] quiet_part [OF p]
  have led: "case r of Inr _ \<Rightarrow> quiet_tables W (snd p') | Inl e \<Rightarrow> quiet_tables W (snd p') \<and> plain e" by simp
  show "case r of Inr (Prepared put) \<Rightarrow> reserving jd put W p' | Inr (PrepareStopped _) \<Rightarrow> idle jd W p'
    | Inl e \<Rightarrow> quiet_tables W (snd p') \<and> plain e"
  proof (cases "\<exists>put. r = Inr (Prepared put)")
    case True
    then obtain put where put: "r = Inr (Prepared put)" ..
    note e = law(2) [OF put]
    from law(1) have "instance_evidence es (fst p')
        (journal_environment.slots_of jd ExperimentJournalTable (view (snd p')))"
      by (simp add: journal_environment.evidence_def [OF env])
    with e have "instance_evidence es (fst p'\<lparr>jw_reservation := None\<rparr>)
        (journal_environment.slots_of jd ExperimentJournalTable (view (snd p')))"
      by (auto simp: instance_evidence_def)
    with e led good put show ?thesis unfolding reserving_def by auto
  next
    case False
    with led law(1) good show ?thesis
      by (cases r) (auto simp: idle_def split: prepare_result.splits)
  qed
qed

text \<open>The event of a reserved put carries an identifier of ours.\<close>

lemma prepared_mine:
  assumes "good_journal jd"
  shows "io_spec (\<lambda>p. sane (snd p)) (journal_prepare jd type body causation)
    (\<lambda>r _. \<forall>put. r = Prepared put \<longrightarrow> mine (text_member (je_event put) ''event_id'')) (\<lambda>_ _. True)"
proof (rule io_specI; clarsimp)
  fix jw w put jw' w'
  assume w: "sane w" and run: "run_state (journal_prepare jd type body causation) (jw, w) = (Inr (Prepared put), jw', w')"
  from assms obtain scope i where jd: "jd = client_journal scope i" by (auto simp: good_journal_def)
  obtain d w1 where draw: "run_state (jd_ids jd) w = (d, w1)" by fastforce
  with ids_law [OF w] have "case d of Inr i \<Rightarrow> mine i | Inl e \<Rightarrow> plain e" by (simp add: jd client_journal_def)
  moreover have "text_member ev ''event_id'' = ei_event_id inp" if "buildJournalEvent type body inp = Inr ev" for inp ev
    using event_envelope(1) [OF that] by (simp add: text_member_def)
  ultimately show "mine (text_member (je_event put) ''event_id'')"
    using run draw
    by (auto simp: journal_prepare_def nextEntry_def journal_reserve_def toJournalEntry_def split: if_splits sum.splits prod.splits)
qed

lemma confirm_spec:
  "io_spec (answered jd put k oc W) (journal_confirm put oc k)
     (\<lambda>r p. idle jd W p \<and> (case r of
        Confirmed _ \<Rightarrow> plain_class oc = OutcomeApplied
      | ConfirmStopped reason \<Rightarrow> reason = AMBIGUOUS_APPEND \<and> plain_class oc = OutcomeAmbiguous
      | NotApplied _ _ \<Rightarrow> plain_class oc = OutcomeNotApplied))
     (\<lambda>_ _. False)"
proof (rule io_spec_caseI)
  fix p r p'
  assume p: "answered jd put k oc W p" and run: "run_state (journal_confirm put oc k) p = (r, p')"
    from p obtain es slots type body causation where s: "good_journal jd" "closed W \<and> W (view (snd p))"
      "jw_reservation (fst p) = Some put" "jw_stopped (fst p) = None" "classifyJournalOutcome oc put k = Inr (plain_class oc)"
      "entry_for jd type body causation (int (length es) + 1) put" "sane (snd p)"
      "instance_evidence es (fst p\<lparr>jw_reservation := None\<rparr>) slots"
      "journal_environment.put_meaning put (int (length es) + 1) slots (plain_class oc)
        (journal_environment.slots_of jd ExperimentJournalTable (view (snd p)))"
      by (auto simp: answered_def)
    from journal_environment.confirm_law [OF good_journal_environment [OF s(1)] s(8,7,3,4,6,5,9), of r "fst p'" "snd p'"] run
    obtain es' where "snd p' = snd p"
      "journal_environment.evidence view sane jd ExperimentJournalTable es' (fst p') (snd p)"
      "case r of
       Inr (Confirmed ev) \<Rightarrow> es' = es @ [put] \<and> je_event put = ev \<and> plain_class oc = OutcomeApplied
     | Inr (ConfirmStopped reason) \<Rightarrow> es' = es \<and> jw_stopped (fst p') \<noteq> None \<and> reason = AMBIGUOUS_APPEND \<and> plain_class oc = OutcomeAmbiguous
     | Inr (NotApplied ev oc') \<Rightarrow> es' = es \<and> oc' = oc \<and> plain_class oc = OutcomeNotApplied \<and> jw_stopped (fst p') = None
     | Inl _ \<Rightarrow> False" by auto
  with s(1,2) show "case r of
      Inr c \<Rightarrow> idle jd W p' \<and> (case c of
        Confirmed _ \<Rightarrow> plain_class oc = OutcomeApplied
      | ConfirmStopped reason \<Rightarrow> reason = AMBIGUOUS_APPEND \<and> plain_class oc = OutcomeAmbiguous
      | NotApplied _ _ \<Rightarrow> plain_class oc = OutcomeNotApplied)
    | Inl _ \<Rightarrow> False"
    unfolding idle_def by (auto split: sum.splits confirm_result.splits)
qed

text \<open>
  A transaction around the reserved put, between actions that leave the journal's slots alone. A
  failed condition shows the item it failed on, of tables that still satisfied the assertion.
\<close>

lemma transact_spec:
  assumes slots: "good_journal jd \<Longrightarrow> list_all (leaves_slots jd ExperimentJournalTable) before"
      "good_journal jd \<Longrightarrow> list_all (leaves_slots jd ExperimentJournalTable) after"
    and N: "closed N" and eff: "\<And>db. transact_guard as db \<Longrightarrow> W db \<Longrightarrow> N (transact_effect as db)"
    and acts: "as = before @ journalPutAction ExperimentJournalTable put # after"
  shows "io_spec (reserving jd put W) (io_lift (item_transact store as token))
    (\<lambda>oc p. answered jd put (length before) oc (outcome_view W N (plain_class oc)) p
       \<and> (\<forall>k e. oc = ConditionFailed k e \<longrightarrow>
            (\<exists>db. W db \<and> k < length as \<and> \<not> action_guard (as ! k) db \<and> e = db (action_table (as ! k)) (action_key (as ! k)))))
    (\<lambda>e p. plain e \<and> quiet_tables (\<lambda>db. W db \<or> N db) (snd p))"
proof (rule io_spec_caseI)
  fix p r p'
  assume p: "reserving jd put W p" and run: "run_state (io_lift (item_transact store as token)) p = (r, p')"
  obtain jw w where pw: "p = (jw, w)" by fastforce
  from p obtain es type body causation where s: "good_journal jd" "closed W" "W (view w)"
    "jw_reservation jw = Some put" "jw_stopped jw = None"
    "entry_for jd type body causation (int (length es) + 1) put" "sane w"
    "instance_evidence es (jw\<lparr>jw_reservation := None\<rparr>) (journal_environment.slots_of jd ExperimentJournalTable (view w))"
    by (auto simp: reserving_def pw)
  note env = good_journal_environment [OF s(1)]
  obtain w' where p': "p' = (jw, w')" and tr: "run_state (item_transact store as token) w = (r, w')"
    using run by (cases "run_state (item_transact store as token) w") (auto simp: pw)
  from s(6) have k: "isSourceSequence (int (length es) + 1)" "je_key put = own_key jd (int (length es) + 1)"
    by (auto simp: entry_for_def)
  have free: "journal_environment.slots_of jd ExperimentJournalTable (view w) (int (length es) + 1) = None"
    using s(5,8) k(1) by (auto simp: instance_evidence_def)
  note law = journal_environment.transact_put_law [OF env s(7) free k slots [OF s(1)] tr [unfolded acts]]
  from transact_law [OF s(7) tr] obtain db where db: "rely (view w) db"
    "case r of Inr outcome \<Rightarrow> (\<exists>f. store_transact f as db = (outcome, view w'))
     | Inl _ \<Rightarrow> view w' = db \<or> (transact_guard as db \<and> view w' = transact_effect as db)" by blast
  have t: "W db" using closed_rely [OF s(2,3) db(1)] .
  show "case r of Inr oc \<Rightarrow> answered jd put (length before) oc (outcome_view W N (plain_class oc)) p'
       \<and> (\<forall>k e. oc = ConditionFailed k e \<longrightarrow>
            (\<exists>db. W db \<and> k < length as \<and> \<not> action_guard (as ! k) db \<and> e = db (action_table (as ! k)) (action_key (as ! k))))
      | Inl e \<Rightarrow> plain e \<and> quiet_tables (\<lambda>db. W db \<or> N db) (snd p')"
  proof (cases r)
    case (Inl e)
    from law Inl have "sane w'" by simp
    with db(2) t eff [OF _ t] tr store_plain(1) [OF s(7)] Inl closed_disj [OF s(2) N] show ?thesis
      by (auto simp: p')
  next
    case (Inr oc)
    from Inr db(2) obtain f where f: "store_transact f as db = (oc, view w')" by auto
    have after: "outcome_view W N (plain_class oc) (view w')"
      by (cases oc) (use f t eff [OF _ t] transaction.applied [of f as db] transaction.ambiguous [of f as db]
          transaction.definitive [of f as db] transaction.not_applied [of f as db] in auto)
    with law Inr s closed_outcome [OF s(2) N] have "answered jd put (length before) oc (outcome_view W N (plain_class oc)) p'"
      unfolding answered_def by (auto simp: p')
    moreover have "\<exists>db. W db \<and> k < length as \<and> \<not> action_guard (as ! k) db \<and> e = db (action_table (as ! k)) (action_key (as ! k))"
      if "oc = ConditionFailed k e" for k e
      using store_transact_condition_failed [of f as db k e "view w'"] f that t by blast
    ultimately show ?thesis using Inr by auto
  qed
qed

text \<open>Opening a journal with a new source instance.\<close>

lemma open_spec:
  "io_spec (unopened W)
     (io_bind (io_lift ids) (\<lambda>i. io_bind (io_put new_journal_writer) (\<lambda>_. io_return (client_journal scope i))))
     (\<lambda>jd. idle jd W) (\<lambda>e p. quiet_tables W (snd p) \<and> plain e)"
proof -
  have draw: "io_spec (unopened W) (io_lift ids) (\<lambda>i p. unopened W p \<and> mine i) (\<lambda>e p. quiet_tables W (snd p) \<and> plain e)"
    by (rule io_spec_weaken [OF drawn_mine [OF stable_states(1)]]) (auto simp: unopened_def)
  have fresh: "idle (client_journal scope i) W (new_journal_writer, w)" if "unopened W (s, w)" "mine i" for s w i
  proof -
    have good: "good_journal (client_journal scope i)" using that(2) by (auto simp: good_journal_def)
    note env = good_journal_environment [OF good]
    have "journal_environment.evidence view sane (client_journal scope i) ExperimentJournalTable [] new_journal_writer w"
      unfolding journal_environment.evidence_def [OF env] journal_environment.slots_of_def [OF env]
      using that by (auto simp: instance_evidence_def new_journal_writer_def unopened_def own_key_def client_journal_def)
    with good that(1) show ?thesis by (auto simp: idle_def unopened_def)
  qed
  show ?thesis
    by (rule io_spec_bind [OF draw], rule io_spec_bind [OF io_spec_put [where Q = "\<lambda>_ p. idle (client_journal scope i) W p" for i]])
      (auto intro: fresh io_spec_return)
qed

end

subsection \<open>Clients of a scripted world\<close>

text \<open>
  The transactions of the others are allowed ones, every identifier the world hands out is ours,
  and a store call that throws throws something plain.
\<close>

definition client_world :: "(write_action list \<Rightarrow> bool) \<Rightarrow> (uuid4 \<Rightarrow> bool) \<Rightarrow> (js_throw \<Rightarrow> bool) \<Rightarrow> world \<Rightarrow> bool" where
  "client_world allowed mine plain w \<longleftrightarrow> script_allows allowed w \<and> (\<forall>n. mine (wd_ids w n))
     \<and> (\<forall>c\<in>set (wd_calls w). \<forall>e applied. wc_throw c = Some (e, applied) \<longrightarrow> plain e)"

lemma world_call_frame:
  "run_state (item_write world_store a) w = (r, w') \<Longrightarrow> wd_ids w' = wd_ids w \<and> wd_calls w' = tl (wd_calls w)
     \<and> (\<forall>e. r = Inl e \<longrightarrow> (\<exists>c\<in>set (wd_calls w). \<exists>b. wc_throw c = Some (e, b)))"
  "run_state (item_transact world_store as token) w = (u, w') \<Longrightarrow> wd_ids w' = wd_ids w \<and> wd_calls w' = tl (wd_calls w)
     \<and> (\<forall>e. u = Inl e \<longrightarrow> (\<exists>c\<in>set (wd_calls w). \<exists>b. wc_throw c = Some (e, b)))"
  "run_state (item_get world_store t k) w = (v, w') \<Longrightarrow> wd_ids w' = wd_ids w \<and> wd_calls w' = tl (wd_calls w)
     \<and> (\<forall>e. v = Inl e \<longrightarrow> (\<exists>c\<in>set (wd_calls w). \<exists>b. wc_throw c = Some (e, b)))"
  by (cases "wd_calls w"; force simp: world_store_def world_write_def world_transact_def world_get_def
      next_world_call_def quiet_call_def Let_def split: option.splits prod.splits)+

lemma world_own_calls:
  "run_state world_monotonic w = (r, w') \<Longrightarrow> wd_ids w' = wd_ids w \<and> (\<exists>x. r = Inr x)"
  "run_state world_clock w = (r, w') \<Longrightarrow> wd_ids w' = wd_ids w \<and> (\<exists>x. r = Inr x)"
  "run_state world_uuid w = (d, w') \<Longrightarrow> wd_ids w' = wd_ids w \<and> d = Inr (wd_ids w (wd_drawn w))"
  "run_state (world_sleep ms) w = (u, w') \<Longrightarrow> wd_ids w' = wd_ids w \<and> (\<exists>x. u = Inr x)"
  by (auto simp: world_monotonic_def world_clock_def world_uuid_def world_sleep_def Let_def)

lemma client_world_step:
  assumes "client_world allowed mine plain w" and "wd_ids w' = wd_ids w" and "set (wd_calls w') \<subseteq> set (wd_calls w)"
  shows "client_world allowed mine plain w'"
  using assms unfolding client_world_def script_allows_def by (metis subsetD)

lemma client_world_tl:
  "client_world allowed mine plain w \<Longrightarrow> wd_ids w' = wd_ids w \<Longrightarrow> wd_calls w' = tl (wd_calls w) \<Longrightarrow>
   client_world allowed mine plain w'"
  by (rule client_world_step) (auto dest: list.set_sel(2), cases "wd_calls w", auto)

lemma client_world_clock:
  assumes "client_world allowed mine plain w"
  shows "run_state world_monotonic w = (r, w') \<Longrightarrow>
      client_world allowed mine plain w' \<and> wd_tables w' = wd_tables w \<and> (\<forall>e. r = Inl e \<longrightarrow> plain e)"
    and "run_state world_clock w = (r, w') \<Longrightarrow>
      client_world allowed mine plain w' \<and> wd_tables w' = wd_tables w \<and> (\<forall>e. r = Inl e \<longrightarrow> plain e)"
    and "run_state (world_sleep ms) w = (u, w') \<Longrightarrow>
      client_world allowed mine plain w' \<and> wd_tables w' = wd_tables w \<and> (\<forall>e. u = Inl e \<longrightarrow> plain e)"
    and "run_state world_uuid w = (d, w') \<Longrightarrow>
      client_world allowed mine plain w' \<and> wd_tables w' = wd_tables w \<and> (case d of Inr i \<Rightarrow> mine i | Inl e \<Rightarrow> plain e)"
  using world_own_calls world_clocks_allowed client_world_step [OF assms] assms
  by (fastforce simp: client_world_def)+

text \<open>A key none of the allowed transactions names keeps its item.\<close>

lemma foreign_key_kept:
  assumes "(foreign_move allowed)\<^sup>*\<^sup>* db db'"
    and "\<And>as. allowed as \<Longrightarrow> list_all (\<lambda>a. action_table a \<noteq> tb \<or> action_key a \<noteq> k) as"
  shows "db' tb k = db tb k"
  using assms(1)
proof (induction rule: rtranclp_induct)
  case (step db1 db2)
  then obtain as f where "allowed as" "db2 = snd (store_transact f as db1)" by (auto simp: foreign_move_def)
  with transact_other_key [OF assms(2)] step show ?case by simp
qed simp

definition leaves_journal :: "string \<Rightarrow> (uuid4 \<Rightarrow> bool) \<Rightarrow> write_action list \<Rightarrow> bool" where
  "leaves_journal source mine = list_all (\<lambda>a. action_table a = ExperimentJournalTable \<longrightarrow>
     (\<forall>scope i n. mine i \<longrightarrow> isSourceSequence n \<longrightarrow>
        action_key a \<noteq> \<lparr>pk = journalPartitionKey scope, sk = journal_sort_key source i n\<rparr>))"

lemma client_world_is_client:
  assumes plain: "plain RangeError" "plain TypeError" "plain ErrorThrown"
    and allowed: "\<And>as. allowed as \<Longrightarrow> leaves_journal source mine as"
  shows "journal_client world_store wd_tables (client_world allowed mine plain) (foreign_move allowed)\<^sup>*\<^sup>*
    world_uuid world_clock source mine plain"
proof unfold_locales
  fix w a r w'
  assume w: "client_world allowed mine plain w" and run: "run_state (item_write world_store a) w = (r, w')"
  from w have ok: "script_allows allowed w" by (simp add: client_world_def)
  show "client_world allowed mine plain w' \<and> (\<exists>db. (foreign_move allowed)\<^sup>*\<^sup>* (wd_tables w) db \<and>
     (case r of Inl _ \<Rightarrow> wd_tables w' = db \<or> action_guard a db \<and> wd_tables w' = action_effect a db
      | Inr outcome \<Rightarrow> \<exists>f. store_write f a db = (outcome, wd_tables w')))"
    using scripted_store.write_law [OF ok run] client_world_tl [OF w] world_call_frame(1) [OF run] by blast
next
  fix w as token r w'
  assume w: "client_world allowed mine plain w" and run: "run_state (item_transact world_store as token) w = (r, w')"
  from w have ok: "script_allows allowed w" by (simp add: client_world_def)
  show "client_world allowed mine plain w' \<and> (\<exists>db. (foreign_move allowed)\<^sup>*\<^sup>* (wd_tables w) db \<and>
     (case r of Inl _ \<Rightarrow> wd_tables w' = db \<or> transact_guard as db \<and> wd_tables w' = transact_effect as db
      | Inr outcome \<Rightarrow> \<exists>f. store_transact f as db = (outcome, wd_tables w')))"
    using scripted_store.transact_law [OF ok run] client_world_tl [OF w] world_call_frame(2) [OF run] by blast
next
  fix w t k r w'
  assume w: "client_world allowed mine plain w" and run: "run_state (item_get world_store t k) w = (r, w')"
  from w have ok: "script_allows allowed w" by (simp add: client_world_def)
  show "client_world allowed mine plain w' \<and> (foreign_move allowed)\<^sup>*\<^sup>* (wd_tables w) (wd_tables w')
      \<and> (\<forall>v. r = Inr (Inr v) \<longrightarrow> v = wd_tables w' t k)"
    using scripted_store.read_law [OF ok run] client_world_tl [OF w] world_call_frame(3) [OF run] by blast
next
  fix w drawn w' assume "client_world allowed mine plain w" and "run_state world_uuid w = (drawn, w')"
  from client_world_clock(4) [OF this] show "client_world allowed mine plain w'
      \<and> (foreign_move allowed)\<^sup>*\<^sup>* (wd_tables w) (wd_tables w') \<and> (case drawn of Inl e \<Rightarrow> plain e | Inr i \<Rightarrow> mine i)" by simp
next
  fix w now w' assume "client_world allowed mine plain w" and "run_state world_clock w = (now, w')"
  from client_world_clock(2) [OF this] show "client_world allowed mine plain w'
      \<and> (foreign_move allowed)\<^sup>*\<^sup>* (wd_tables w) (wd_tables w') \<and> (\<forall>e. now = Inl e \<longrightarrow> plain e)" by simp
next
  fix w as token e w'
  assume "client_world allowed mine plain w" and "run_state (item_transact world_store as token) w = (Inl e, w')"
  then show "plain e" using world_call_frame(2) by (fastforce simp: client_world_def)
next
  fix w a e w'
  assume "client_world allowed mine plain w" and "run_state (item_write world_store a) w = (Inl e, w')"
  then show "plain e" using world_call_frame(1) by (fastforce simp: client_world_def)
next
  fix w tb k e w'
  assume "client_world allowed mine plain w" and "run_state (item_get world_store tb k) w = (Inl e, w')"
  then show "plain e" using world_call_frame(3) by (fastforce simp: client_world_def)
next
  fix db db' i n scope
  assume "(foreign_move allowed)\<^sup>*\<^sup>* db db'" and "mine i" and "isSourceSequence n"
  then show "db' ExperimentJournalTable \<lparr>pk = journalPartitionKey scope, sk = journal_sort_key source i n\<rparr>
      = db ExperimentJournalTable \<lparr>pk = journalPartitionKey scope, sk = journal_sort_key source i n\<rparr>"
    by (elim foreign_key_kept) (use allowed in \<open>auto simp: leaves_journal_def list_all_iff\<close>)
qed (fact plain)+

text \<open>Identifiers, a digest and a deployment for the examples of the clients.\<close>

definition sample_id :: "nat \<Rightarrow> uuid4" where
  "sample_id n = ''00000000-0000-4000-8000-'' @ padStart 12 (nat_text n)"

definition sample_digest :: sha256_hex where
  "sample_digest = replicate 64 (CHR ''a'')"

definition sample_deployment :: execution_identity where
  "sample_deployment = ProbeIdentity (sample_id 900)"

end
