(* ===== verification/Provider_Ledger.thy ===== *)
theory Provider_Ledger
  imports Refund_Provider Journal_Client
begin

text \<open>
  What a provider invocation does to the ledger. The handler is specified call by call over an
  environment in which the other writers leave the ledger and journal items that carry an
  identifier of this invocation alone and may change everything else; the specifications compose
  to the property that the response, or the phase of the fault, says exactly which transaction
  exists.
\<close>

subsection \<open>Truth about the ledger\<close>

type_synonym ledger = "item_key \<Rightarrow> stored_item option"

text \<open>One new transaction for a call: a fresh key, and an item with the call's own fields.\<close>

definition new_transaction :: "ledger \<Rightarrow> string \<Rightarrow> accepted_call \<Rightarrow> uuid4 \<Rightarrow> ledger \<Rightarrow> bool" where
  "new_transaction t part call tx t' \<longleftrightarrow>
     t (ledger_key part tx) = None
     \<and> (\<exists>item. t' = t(ledger_key part tx \<mapsto> item)
          \<and> (\<forall>(name, v)\<in>set (call_members call). own_member item name = Some v)
          \<and> own_member item ''status'' = Some (JString ''SUCCEEDED'')
          \<and> own_member item ''provider_transaction_id'' = Some (JString tx))"

text \<open>
  What a rejection says of the ledger \<open>t'\<close> that was \<open>t\<close>: a fault before the commit left it as it
  was, a fault after the commit left a committed one, and every other rejection one or the other.
\<close>

fun phase_truth :: "(ledger \<Rightarrow> bool) \<Rightarrow> ledger \<Rightarrow> js_throw \<Rightarrow> ledger \<Rightarrow> bool" where
  "phase_truth committed t (ProviderFault _ BeforeCommit _) t' \<longleftrightarrow> t' = t"
| "phase_truth committed t (ProviderFault _ AfterCommit _) t' \<longleftrightarrow> committed t'"
| "phase_truth committed t _ t' \<longleftrightarrow> t' = t \<or> committed t'"

text \<open>The part of the ledger under the identifiers \<open>mine\<close>.\<close>

definition own_ledger :: "(uuid4 \<Rightarrow> bool) \<Rightarrow> tables \<Rightarrow> ledger" where
  "own_ledger mine db = (\<lambda>k. if \<exists>part tx. mine tx \<and> k = ledger_key part tx then db LedgerTable k else None)"

text \<open>The fields of the request that the accepted call carries.\<close>

definition call_of :: "json \<Rightarrow> accepted_call \<Rightarrow> bool" where
  "call_of raw call \<longleftrightarrow> (\<forall>(name, v)\<in>set (call_members call). raw_member raw name = Some v)"

definition committed_call :: "json \<Rightarrow> ledger \<Rightarrow> uuid4 \<Rightarrow> ledger \<Rightarrow> bool" where
  "committed_call raw t tx t' \<longleftrightarrow> (\<exists>part call. call_of raw call \<and> new_transaction t part call tx t')"

lemma accepted_call_of:
  assumes "evaluateAcceptance raw ctx = Inr call"
  shows "call_of raw call"
proof -
  from assms obtain shape where "guardRefundCallShape raw = Inr shape" and "call = acceptedCallOf shape"
    by (auto simp: evaluateAcceptance_def judgeShape_def split: if_splits sum.splits option.splits)
  then obtain obj where obj: "raw = JObject obj" "businessFieldProblem obj = None"
    and call: "\<exists>execution trial. call = acceptedCallOf (shapeOf obj execution trial)"
    by (cases raw) (auto simp: guard_Inr_iff simp del: guardRefundCallShape.simps(1))
  have str: "own_member obj name = Some (JString (text_member obj name))" if "member_is is_string (own_member obj name)" for name
    using that by (auto simp: member_is_def is_string_def text_member_def split: option.splits json.splits)
  have pat: "own_member obj name = Some (JString (text_member obj name))" if "member_is (string_is P) (own_member obj name)" for name P
    using that by (auto simp: member_is_def string_is_def text_member_def split: option.splits json.splits)
  have num: "own_member obj name = Some (JNumber (number_member obj name))" if "member_is is_number (own_member obj name)" for name
    using that by (auto simp: member_is_def is_number_def number_member_def split: option.splits json.splits)
  have members: "own_member obj ''attempt_id'' = Some (JString (text_member obj ''attempt_id''))"
    "own_member obj ''provider_request_id'' = Some (JString (text_member obj ''provider_request_id''))"
    "own_member obj ''refund_request_id'' = Some (JString (text_member obj ''refund_request_id''))"
    "own_member obj ''payment_id'' = Some (JString (text_member obj ''payment_id''))"
    "own_member obj ''currency'' = Some (JString (text_member obj ''currency''))"
    "own_member obj ''amount_minor'' = Some (JNumber (number_member obj ''amount_minor''))"
    using obj(2) [unfolded businessFieldProblem_None] by (blast intro: str pat num)+
  from call obj(1) show ?thesis
    unfolding call_of_def call_members_def raw_member_def by (auto simp: acceptedCallOf_def shapeOf_def members)
qed

text \<open>What a response says of the ledger; \<open>None\<close> is a call still waiting at its barrier.\<close>

fun response_truth :: "json \<Rightarrow> ledger \<Rightarrow> provider_refund_response option \<Rightarrow> ledger \<Rightarrow> bool" where
  "response_truth raw t (Some (SucceededResponse _ _ _ tx)) t' \<longleftrightarrow> committed_call raw t tx t'"
| "response_truth raw t (Some (RejectedResponse _ _ _ _)) t' \<longleftrightarrow> t' = t"
| "response_truth raw t None t' \<longleftrightarrow> (\<exists>tx. committed_call raw t tx t')"

text \<open>The faults a computation may raise: those of one phase, or none at all.\<close>

fun plain_throw :: "js_throw \<Rightarrow> bool" where
  "plain_throw (ProviderFault _ _ _) \<longleftrightarrow> False"
| "plain_throw _ \<longleftrightarrow> True"

fun fault_in :: "fault_phase \<Rightarrow> js_throw \<Rightarrow> bool" where
  "fault_in phase (ProviderFault _ p _) \<longleftrightarrow> p = phase"
| "fault_in phase _ \<longleftrightarrow> True"

lemma plain_fault_in: "plain_throw e \<Longrightarrow> fault_in phase e"
  by (cases e) auto

lemma truth_before: "fault_in BeforeCommit e \<Longrightarrow> phase_truth committed t e t"
  by (cases e) auto

lemma truth_after: "fault_in AfterCommit e \<Longrightarrow> committed t' \<Longrightarrow> phase_truth committed t e t'"
  by (cases e) auto

lemma truth_plain: "plain_throw e \<Longrightarrow> t' = t \<or> committed t' \<Longrightarrow> phase_truth committed t e t'"
  by (cases e) auto

lemma truth_mono: "phase_truth A t e t' \<Longrightarrow> (\<And>x. A x \<Longrightarrow> B x) \<Longrightarrow> phase_truth B t e t'"
  by (cases "(A, t, e, t')" rule: phase_truth.cases) auto

subsection \<open>The commit is planned at most twice\<close>

lemma io_spec_any: "io_spec P m (\<lambda>_ _. True) (\<lambda>_ _. True)"
  by (simp add: io_spec_def split: sum.splits)

lemma io_bind_any: "(\<And>x. io_spec (\<lambda>_. True) (f x) Q (\<lambda>_ _. True)) \<Longrightarrow> io_spec (\<lambda>_. True) (io_bind m f) Q (\<lambda>_ _. True)"
  by (rule io_spec_bind [OF io_spec_any])

lemma recordCommitFailure_throws:
  "io_spec (\<lambda>_. True) (recordCommitFailure jd request plan oc) Q (\<lambda>_ _. True)"
  unfolding recordCommitFailure_def by (rule io_bind_any) (auto intro: io_spec_throw split: append_result.splits)

lemma untargeted_is_final:
  "io_spec (\<lambda>_. True) (attemptPlan deps jd request Untargeted) (\<lambda>r _. r \<noteq> None) (\<lambda>_ _. True)"
proof -
  have judge: "io_spec (\<lambda>_. True) (judge_commit jd request attempt oc c) (\<lambda>r _. r \<noteq> None) (\<lambda>_ _. True)"
    if "pl_treatment_index (cm_plan attempt) = None" for attempt oc c
    using that unfolding judge_commit_def
    by (cases c; cases oc) (auto intro: io_spec_return io_spec_throw recordCommitFailure_throws)
  show ?thesis
    unfolding attemptPlan_def
  proof (intro io_bind_any)
    fix identities ms requestedAt r
    show "io_spec (\<lambda>_. True)
      (case r of
         PrepareStopped _ \<Rightarrow> io_throw (ProviderFault PROVIDER_JOURNAL_STOPPED BeforeCommit (rq_call_id request))
       | Prepared put \<Rightarrow>
          (let plan = planCommit \<lparr>in_kind = Untargeted, in_partition = rq_partition request, in_call = rq_call request,
                in_call_id = rq_call_id request, in_identities = identities, in_requested_at = requestedAt,
                in_commit_event = put\<rparr>
           in io_bind (io_lift (state_commit (pd_store deps) plan)) (\<lambda>outcome.
              io_bind (io_lift (pd_monotonic deps)) (\<lambda>ackNs.
              io_bind (io_lift (pd_wall deps)) (\<lambda>ackWall.
              io_bind (journal_confirm put outcome COMMIT_JOURNAL_ACTION_INDEX) (\<lambda>confirmed.
              judge_commit jd request \<lparr>cm_plan = plan, cm_ack_ns = ackNs, cm_ack_wall = ackWall\<rparr> outcome confirmed))))))
      (\<lambda>r _. r \<noteq> None) (\<lambda>_ _. True)"
    proof (cases r)
      case (Prepared put)
      then show ?thesis
        unfolding Let_def Prepared prepare_result.case
        by (intro io_bind_any judge) (simp add: planCommit_def Let_def)
    qed (simp add: io_spec_throw)
  qed
qed

text \<open>
  C24: re-planning happens at most once. The recursion of \<^verbatim>\<open>attemptCommit\<close> ends on its own: the
  second, untargeted plan always ends with a commit or a throw, so any deeper bound gives the
  same computation.
\<close>

theorem attemptCommit_depth:
  "attemptCommit (Suc (Suc n)) deps jd request kind = attemptCommit 2 deps jd request kind"
proof -
  have "attemptCommit (Suc n) deps jd request Untargeted = attemptCommit (Suc 0) deps jd request Untargeted"
  proof (rule state_ext)
    fix p
    show "run_state (attemptCommit (Suc n) deps jd request Untargeted) p
        = run_state (attemptCommit (Suc 0) deps jd request Untargeted) p"
      using io_specD [OF untargeted_is_final [of deps jd request], of p]
      by (auto split: prod.splits sum.splits option.splits)
  qed
  then show ?thesis by (simp add: numeral_2_eq_2)
qed

subsection \<open>The environment of one invocation\<close>

text \<open>
  The provider is a client of the journal. \<open>mine\<close> are the identifiers this invocation draws: the
  others write no ledger item and no journal item under one of them, and nothing outside the
  provider raises a provider fault.
\<close>

locale provider_environment =
  journal_client "pd_store deps" view sane rely "pd_ids deps" "pd_wall deps" "''refund_provider''"
    PROVIDER_JOURNAL_DEFINITIVE_RETRIES mine plain_throw
  for view :: "'w \<Rightarrow> tables" and sane :: "'w \<Rightarrow> bool" and rely :: "tables \<Rightarrow> tables \<Rightarrow> bool"
    and deps :: "'w provider_deps" and mine :: "uuid4 \<Rightarrow> bool" +
  assumes monotonic_law: "sane w \<Longrightarrow> run_state (pd_monotonic deps) w = (now, w') \<Longrightarrow>
      sane w' \<and> rely (view w) (view w') \<and> (\<forall>e. now = Inl e \<longrightarrow> plain_throw e)"
    and sleep_law: "sane w \<Longrightarrow> run_state (pd_sleep deps ms) w = (slept, w') \<Longrightarrow>
      sane w' \<and> rely (view w) (view w') \<and> (\<forall>e. slept = Inl e \<longrightarrow> plain_throw e)"
    and ledger_alone: "rely db db' \<Longrightarrow> mine tx \<Longrightarrow>
      db' LedgerTable (ledger_key part tx) = db LedgerTable (ledger_key part tx)"
begin

abbreviation led :: "journal_writer \<times> 'w \<Rightarrow> ledger" where
  "led p \<equiv> own_ledger mine (view (snd p))"

lemma own_ledger_rely: "rely db db' \<Longrightarrow> own_ledger mine db' = own_ledger mine db"
  using ledger_alone by (fastforce simp: own_ledger_def fun_eq_iff)

lemma own_ledger_upd:
  "mine tx \<Longrightarrow> db' LedgerTable = (db LedgerTable)(ledger_key part tx \<mapsto> x) \<Longrightarrow>
   own_ledger mine db' = (own_ledger mine db)(ledger_key part tx \<mapsto> x)"
  by (auto simp: own_ledger_def fun_eq_iff)

subsection \<open>States of an invocation\<close>

text \<open>The states of a client that asserts that its part of the ledger is \<open>t\<close>.\<close>

abbreviation ledger_is :: "ledger \<Rightarrow> tables \<Rightarrow> bool" where
  "ledger_is t db \<equiv> own_ledger mine db = t"

abbreviation untouched :: "ledger \<Rightarrow> journal_writer \<times> 'w \<Rightarrow> bool" where
  "untouched t \<equiv> unopened (ledger_is t)"

abbreviation journaled :: "'w journal_writer_deps \<Rightarrow> ledger \<Rightarrow> journal_writer \<times> 'w \<Rightarrow> bool" where
  "journaled jd t \<equiv> idle jd (ledger_is t)"

abbreviation reserved :: "'w journal_writer_deps \<Rightarrow> journal_entry \<Rightarrow> ledger \<Rightarrow> journal_writer \<times> 'w \<Rightarrow> bool" where
  "reserved jd put t \<equiv> reserving jd put (ledger_is t)"

abbreviation settled ::
  "'w journal_writer_deps \<Rightarrow> journal_entry \<Rightarrow> nat \<Rightarrow> write_outcome \<Rightarrow> ledger \<Rightarrow> journal_writer \<times> 'w \<Rightarrow> bool" where
  "settled jd put k oc t \<equiv> answered jd put k oc (ledger_is t)"

lemma closed_ledger: "closed (\<lambda>db. P (own_ledger mine db))"
  unfolding closed_def
proof (intro allI impI, elim disjE)
  fix db db' assume "P (own_ledger mine db)" and "\<forall>t. t \<noteq> ExperimentJournalTable \<longrightarrow> db' t = db t"
  then have "own_ledger mine db' = own_ledger mine db" by (auto simp: own_ledger_def fun_eq_iff)
  with \<open>P (own_ledger mine db)\<close> show "P (own_ledger mine db')" by simp
qed (simp add: own_ledger_rely)

lemma settled_at:
  "answered jd put k oc W p \<Longrightarrow> settled jd put k oc (led p) p"
  using closed_ledger [of "\<lambda>t. t = led p"] unfolding answered_def by blast

subsection \<open>Calls of the world\<close>

lemma calm_clocks:
  assumes "stable P"
  shows "io_calm P (io_lift (pd_wall deps))" and "io_calm P (io_lift (pd_monotonic deps))"
    and "io_calm P (io_lift (pd_sleep deps ms))" and "io_calm P (io_lift (pd_ids deps))"
  using calm_own_calls [OF assms] stable_call [OF assms monotonic_law] stable_call [OF assms sleep_law] by simp_all

lemma readControl_law:
  assumes "sane w" and "run_state (readControl (pd_store deps) k s decode) w = (r, w')"
  shows "sane w' \<and> rely (view w) (view w') \<and> (\<forall>e. r = Inl e \<longrightarrow> plain_throw e)"
proof -
  obtain r0 w0 where "run_state (item_get (pd_store deps) ControlTable \<lparr>pk = k, sk = s\<rparr>) w = (r0, w0)" by fastforce
  with read_law [OF assms(1) this] store_plain(3) [OF assms(1)] assms(2) show ?thesis
    by (auto simp: readControl_def split: sum.splits)
qed

lemma calm_reads:
  assumes "stable P"
  shows "io_calm P (io_lift (loadTrialConfiguration (pd_store deps) part))"
    and "io_calm P (io_lift (loadExecutionConfiguration (pd_store deps) x))"
    and "io_calm P (io_lift (loadPayment (pd_store deps) key payment))"
    and "io_calm P (io_lift (loadTreatment (pd_store deps) key))"
    and "io_calm P (io_lift (readTreatment deps commit))"
proof -
  show "io_calm P (io_lift (loadTrialConfiguration (pd_store deps) part))"
    "io_calm P (io_lift (loadExecutionConfiguration (pd_store deps) x))"
    "io_calm P (io_lift (loadPayment (pd_store deps) key payment))"
    "io_calm P (io_lift (loadTreatment (pd_store deps) key))"
    unfolding loadTrialConfiguration_def loadExecutionConfiguration_def loadPayment_def loadTreatment_def
    by (rule stable_call [OF assms readControl_law], assumption+)+
  show "io_calm P (io_lift (readTreatment deps commit))"
  proof (rule stable_call [OF assms])
    fix w r w'
    assume sane: "sane w" and run: "run_state (readTreatment deps commit) w = (r, w')"
    obtain r0 w0 where read: "run_state (readControl (pd_store deps) (bc_partition commit) TREATMENT_SORT_KEY decodeTreatmentItem) w = (r0, w0)"
      by fastforce
    from readControl_law [OF sane read] run read
    show "sane w' \<and> rely (view w) (view w') \<and> (\<forall>e. r = Inl e \<longrightarrow> plain_throw e)"
      by (auto simp: readTreatment_def loadTreatment_def split: sum.splits)
  qed
qed

text \<open>
  What an outcome says of the ledger, when the actions, applied, turn \<open>t\<close> into a ledger of \<open>N\<close>.
\<close>

fun ledger_after :: "(ledger \<Rightarrow> bool) \<Rightarrow> ledger \<Rightarrow> journal_outcome_class \<Rightarrow> ledger \<Rightarrow> bool" where
  "ledger_after N t OutcomeApplied t' \<longleftrightarrow> N t'"
| "ledger_after N t OutcomeNotApplied t' \<longleftrightarrow> t' = t"
| "ledger_after N t OutcomeAmbiguous t' \<longleftrightarrow> t' = t \<or> N t'"
| "ledger_after N t OutcomeConflict t' \<longleftrightarrow> False"

lemma ledger_transact_spec:
  assumes slots: "good_journal jd \<Longrightarrow> list_all (leaves_slots jd ExperimentJournalTable) before"
      "good_journal jd \<Longrightarrow> list_all (leaves_slots jd ExperimentJournalTable) after"
    and eff: "\<And>db. transact_guard as db \<Longrightarrow> own_ledger mine db = t \<Longrightarrow> N (own_ledger mine (transact_effect as db))"
    and acts: "as = before @ journalPutAction ExperimentJournalTable put # after"
  shows "io_spec (reserved jd put t) (io_lift (item_transact (pd_store deps) as token))
    (\<lambda>oc p. \<exists>t'. settled jd put (length before) oc t' p \<and> ledger_after N t (plain_class oc) t')
    (\<lambda>e p. plain_throw e \<and> (led p = t \<or> N (led p)))"
proof -
  let ?W = "\<lambda>oc. outcome_view (ledger_is t) (\<lambda>db. N (own_ledger mine db)) (plain_class oc)"
  have said: "ledger_after N t (plain_class oc) (led p)" if "answered jd put k oc (?W oc) p" for oc p k
    using that unfolding answered_def by (cases "plain_class oc") auto
  note spec = transact_spec [of jd before after "\<lambda>db. N (own_ledger mine db)" as "ledger_is t" put token,
      OF slots closed_ledger eff acts]
  show ?thesis
    by (rule io_spec_weaken [OF spec]) (use said settled_at in blast)+
qed

subsection \<open>The commit\<close>

definition committed :: "string \<Rightarrow> accepted_call \<Rightarrow> ledger \<Rightarrow> ledger \<Rightarrow> bool" where
  "committed part call t t' \<longleftrightarrow> (\<exists>tx. new_transaction t part call tx t')"

lemma commit_effect:
  assumes "transact_guard (pl_actions (planCommit inp)) db" and "mine (cid_transaction_id (in_identities inp))"
  shows "new_transaction (own_ledger mine db) (in_partition inp) (in_call inp) (cid_transaction_id (in_identities inp))
    (own_ledger mine (transact_effect (pl_actions (planCommit inp)) db))"
proof -
  let ?key = "ledger_key (in_partition inp) (cid_transaction_id (in_identities inp))"
  let ?item = "obj_merge (key_members ?key) (ledgerTransactionOf inp)"
  have "transact_effect (pl_actions (planCommit inp)) db LedgerTable = (db LedgerTable)(?key \<mapsto> ?item)"
    by (auto simp: transact_effect_def planCommit_def Let_def ledger_put_def journalPutAction_def consumeTreatment_def
        apply_commits_def set_item_def split: sum.splits option.splits)
  from own_ledger_upd [of _ "transact_effect (pl_actions (planCommit inp)) db" db, OF assms(2) this]
  have upd: "own_ledger mine (transact_effect (pl_actions (planCommit inp)) db) = (own_ledger mine db)(?key \<mapsto> ?item)" .
  have "db LedgerTable ?key = None"
    using assms(1) by (auto simp: transact_guard_def planCommit_def Let_def ledger_put_def action_guard_def split: if_splits)
  then have "own_ledger mine db ?key = None" by (simp add: own_ledger_def)
  then show ?thesis
    unfolding new_transaction_def upd
    by (intro conjI exI [of _ ?item]) (auto simp: map_of_obj_merge ledgerTransactionOf_def call_members_def)
qed

lemma plan_actions:
  "pl_actions (planCommit inp) =
     [ledger_put inp] @ journalPutAction ExperimentJournalTable (in_commit_event inp)
       # (if in_kind inp = Untargeted then []
          else [consumeTreatment inp \<lparr>cid_commit_id = cid_commit_id (in_identities inp),
                 cid_transaction_id = cid_transaction_id (in_identities inp),
                 cid_commit_event_id = event_id_of (je_event (in_commit_event inp))\<rparr>])"
  by (simp add: planCommit_def Let_def)

lemma commit_spec:
  assumes "mine (cid_transaction_id (in_identities inp))" and "in_commit_event inp = put"
  shows "io_spec (reserved jd put t) (io_lift (state_commit (pd_store deps) (planCommit inp)))
    (\<lambda>oc p. \<exists>t'. settled jd put COMMIT_JOURNAL_ACTION_INDEX oc t' p
       \<and> ledger_after (new_transaction t (in_partition inp) (in_call inp) (cid_transaction_id (in_identities inp)))
           t (plain_class oc) t')
    (\<lambda>e p. plain_throw e \<and> (led p = t \<or> committed (in_partition inp) (in_call inp) t (led p)))"
proof -
  note spec = ledger_transact_spec [of jd "[ledger_put inp]" _ "pl_actions (planCommit inp)" t
      "new_transaction t (in_partition inp) (in_call inp) (cid_transaction_id (in_identities inp))" put,
      OF _ _ _ plan_actions [of inp, unfolded assms(2)]]
  show ?thesis
    unfolding state_commit_def
    by (rule io_spec_weaken [OF spec])
      (use commit_effect [OF _ assms(1)] in
        \<open>auto simp: leaves_slots_def ledger_put_def consumeTreatment_def Let_def COMMIT_JOURNAL_ACTION_INDEX_def committed_def\<close>)
qed

text \<open>Rejections of a computation that leaves the ledger \<open>t\<close> and raises faults of one phase only.\<close>

abbreviation quiet_faults :: "fault_phase \<Rightarrow> ledger \<Rightarrow> js_throw \<Rightarrow> journal_writer \<times> 'w \<Rightarrow> bool" where
  "quiet_faults phase t e p \<equiv> led p = t \<and> fault_in phase e"

lemma calm_faults: "io_calm (journaled jd t) m \<Longrightarrow> io_spec (journaled jd t) m (\<lambda>_. journaled jd t) (quiet_faults phase t)"
  by (erule io_spec_weaken) (auto simp: idle_def plain_fault_in)

lemma append_or_fault:
  assumes "\<And>reason. io_spec (journaled jd t) (f (AppendStopped reason)) Q (quiet_faults phase t)"
    and "\<And>ev. io_spec (journaled jd t) (f (Appended ev)) Q (quiet_faults phase t)"
  shows "io_spec (journaled jd t) (io_bind (journal_append jd type body causation) f) Q (quiet_faults phase t)"
proof (rule io_spec_bind [OF calm_faults [OF append_spec]])
  show "io_spec (journaled jd t) (f r) Q (quiet_faults phase t)" for r
    using assms by (cases r) auto
qed

lemma fault_spec: "io_spec (journaled jd t) (io_throw (ProviderFault code phase i)) Q (quiet_faults phase t)"
  by (rule io_spec_throw) (simp add: idle_def)

lemma recordCommitFailure_spec:
  "io_spec (journaled jd t) (recordCommitFailure jd request plan oc) Q (quiet_faults BeforeCommit t)"
  unfolding recordCommitFailure_def by (rule append_or_fault) (simp_all add: fault_spec)

definition commit_result :: "'w journal_writer_deps \<Rightarrow> commit_request \<Rightarrow> ledger \<Rightarrow> commit_plan \<Rightarrow> journal_writer \<times> 'w \<Rightarrow> bool" where
  "commit_result jd request t plan p \<longleftrightarrow>
     (\<exists>t'. journaled jd t' p \<and> new_transaction t (rq_partition request) (rq_call request) (cid_transaction_id (pl_ids plan)) t')"

abbreviation commit_truth :: "commit_request \<Rightarrow> ledger \<Rightarrow> js_throw \<Rightarrow> journal_writer \<times> 'w \<Rightarrow> bool" where
  "commit_truth request t e p \<equiv> phase_truth (committed (rq_partition request) (rq_call request) t) t e (led p)"

lemma quiet_before: "quiet_faults BeforeCommit t e p \<Longrightarrow> phase_truth C t e (led p)"
  using truth_before by blast

lemma calm_before: "io_calm (journaled jd t) m \<Longrightarrow> io_spec (journaled jd t) m (\<lambda>_. journaled jd t) (commit_truth request t)"
  by (erule io_spec_weaken) (auto simp: idle_def truth_plain)

text \<open>After the store answered the commit: read the clocks, confirm the put, and judge.\<close>

lemma judge_commit_spec:
  assumes "case confirmed of
        Confirmed _ \<Rightarrow> plain_class oc = OutcomeApplied
      | ConfirmStopped reason \<Rightarrow> reason = AMBIGUOUS_APPEND \<and> plain_class oc = OutcomeAmbiguous
      | NotApplied _ _ \<Rightarrow> plain_class oc = OutcomeNotApplied"
    and "ledger_after (new_transaction t (rq_partition request) (rq_call request)
      (cid_transaction_id (pl_ids (cm_plan attempt)))) t (plain_class oc) t'"
  shows "io_spec (journaled jd t') (judge_commit jd request attempt oc confirmed)
    (\<lambda>r p. case r of None \<Rightarrow> journaled jd t p | Some cm \<Rightarrow> commit_result jd request t (cm_plan cm) p)
    (commit_truth request t)"
proof (cases confirmed)
  case (Confirmed ev)
  with assms show ?thesis by (auto simp: judge_commit_def commit_result_def intro!: io_spec_return)
next
  case (ConfirmStopped reason)
  with assms show ?thesis by (auto simp: judge_commit_def idle_def committed_def intro!: io_spec_throw)
next
  case (NotApplied ev oc')
  have "io_spec (journaled jd t) (recordCommitFailure jd request (cm_plan attempt) oc) Q (commit_truth request t)" for Q
    by (rule io_spec_weaken [OF recordCommitFailure_spec]) (auto intro: quiet_before)
  with NotApplied assms show ?thesis
    by (auto simp: judge_commit_def intro!: io_spec_return split: write_outcome.splits)
qed

lemma planned_truth:
  assumes plan: "plan = planCommit inp" and inp: "in_partition inp = rq_partition request" "in_call inp = rq_call request"
    and after: "ledger_after (new_transaction t (in_partition inp) (in_call inp) (cid_transaction_id (in_identities inp)))
      t (plain_class oc) t'"
  shows "io_spec (settled jd put COMMIT_JOURNAL_ACTION_INDEX oc t')
    (io_bind (io_lift (pd_monotonic deps)) (\<lambda>ackNs.
     io_bind (io_lift (pd_wall deps)) (\<lambda>ackWall.
     io_bind (journal_confirm put oc COMMIT_JOURNAL_ACTION_INDEX) (\<lambda>confirmed.
     judge_commit jd request \<lparr>cm_plan = plan, cm_ack_ns = ackNs, cm_ack_wall = ackWall\<rparr> oc confirmed))))
    (\<lambda>r p. case r of None \<Rightarrow> journaled jd t p | Some cm \<Rightarrow> commit_result jd request t (cm_plan cm) p)
    (commit_truth request t)"
proof -
  let ?S = "settled jd put COMMIT_JOURNAL_ACTION_INDEX oc t'"
  have either: "t' = t \<or> committed (rq_partition request) (rq_call request) t t'"
    using after inp by (cases "plain_class oc") (auto simp: committed_def)
  have clocks: "io_spec ?S m (\<lambda>_. ?S) (commit_truth request t)" if "io_calm ?S m" for m :: "(journal_writer \<times> 'w, int) io"
    by (rule io_spec_weaken [OF that]) (use either in \<open>auto simp: answered_def intro!: truth_plain\<close>)
  have confirm: "io_spec ?S (journal_confirm put oc COMMIT_JOURNAL_ACTION_INDEX)
     (\<lambda>r p. journaled jd t' p \<and> (case r of
        Confirmed _ \<Rightarrow> plain_class oc = OutcomeApplied
      | ConfirmStopped reason \<Rightarrow> reason = AMBIGUOUS_APPEND \<and> plain_class oc = OutcomeAmbiguous
      | NotApplied _ _ \<Rightarrow> plain_class oc = OutcomeNotApplied)) (commit_truth request t)"
    by (rule io_spec_weaken [OF confirm_spec]) auto
  have tx: "cid_transaction_id (pl_ids plan) = cid_transaction_id (in_identities inp)"
    by (simp add: plan planCommit_def Let_def)
  show ?thesis
    by (rule io_spec_bind [OF clocks [OF calm_clocks(2) [OF stable_states(4)]]],
        rule io_spec_bind [OF clocks [OF calm_clocks(1) [OF stable_states(4)]]],
        rule io_spec_bind [OF confirm], rule io_spec_conj_pre)
      (rule judge_commit_spec, use after inp tx in simp_all)
qed

lemma attemptPlan_spec:
  "io_spec (journaled jd t) (attemptPlan deps jd request kind)
    (\<lambda>r p. case r of None \<Rightarrow> journaled jd t p | Some cm \<Rightarrow> commit_result jd request t (cm_plan cm) p)
    (commit_truth request t)"
proof -
  let ?Q = "\<lambda>r p. case r of None \<Rightarrow> journaled jd t p | Some cm \<Rightarrow> commit_result jd request t (cm_plan cm) p"
  have draw: "io_spec (journaled jd t) (drawCommitIdentities deps)
      (\<lambda>ids p. journaled jd t p \<and> mine (cid_transaction_id ids)) (commit_truth request t)"
  proof -
    have own: "io_spec (journaled jd t) (io_lift (pd_ids deps)) (\<lambda>i p. journaled jd t p \<and> mine i) (commit_truth request t)"
      by (rule io_spec_weaken [OF drawn_mine [OF stable_states(2)]]) (auto simp: idle_def intro: truth_plain)
    show ?thesis
      unfolding drawCommitIdentities_def
      by (rule io_spec_bind [OF calm_before [OF calm_clocks(4) [OF stable_states(2)]]], rule io_spec_bind [OF own])
        (rule io_spec_return, simp)
  qed
  have prep: "io_spec (journaled jd t) (journal_prepare jd type body causation)
     (\<lambda>r p. case r of Prepared put \<Rightarrow> reserved jd put t p | PrepareStopped _ \<Rightarrow> journaled jd t p)
     (commit_truth request t)" for type body causation
    by (rule io_spec_weaken [OF prepare_spec]) (auto intro!: truth_plain)
  show ?thesis
    unfolding attemptPlan_def
  proof (rule io_spec_bind [OF draw], rule io_spec_conj_pre,
      rule io_spec_bind [OF calm_before [OF calm_clocks(1) [OF stable_states(2)]]],
      rule io_spec_bind [OF calm_before [OF calm_builders(1)]], rule io_spec_bind [OF prep])
    fix identities :: commit_identities and ms requestedAt r
    assume mine: "mine (cid_transaction_id identities)"
    show "io_spec (\<lambda>p. case r of Prepared put \<Rightarrow> reserved jd put t p | PrepareStopped _ \<Rightarrow> journaled jd t p)
      (case r of
         PrepareStopped _ \<Rightarrow> io_throw (ProviderFault PROVIDER_JOURNAL_STOPPED BeforeCommit (rq_call_id request))
       | Prepared put \<Rightarrow>
          (let plan = planCommit \<lparr>in_kind = kind, in_partition = rq_partition request, in_call = rq_call request,
                in_call_id = rq_call_id request, in_identities = identities, in_requested_at = requestedAt,
                in_commit_event = put\<rparr>
           in io_bind (io_lift (state_commit (pd_store deps) plan)) (\<lambda>outcome.
              io_bind (io_lift (pd_monotonic deps)) (\<lambda>ackNs.
              io_bind (io_lift (pd_wall deps)) (\<lambda>ackWall.
              io_bind (journal_confirm put outcome COMMIT_JOURNAL_ACTION_INDEX) (\<lambda>confirmed.
              judge_commit jd request \<lparr>cm_plan = plan, cm_ack_ns = ackNs, cm_ack_wall = ackWall\<rparr> outcome confirmed))))))
      ?Q (commit_truth request t)"
    proof (cases r)
      case (PrepareStopped reason)
      then show ?thesis by (auto intro!: io_spec_throw simp: idle_def)
    next
      case (Prepared put)
      define inp where "inp = \<lparr>in_kind = kind, in_partition = rq_partition request, in_call = rq_call request,
                in_call_id = rq_call_id request, in_identities = identities, in_requested_at = requestedAt,
                in_commit_event = put\<rparr>"
      have inp: "in_partition inp = rq_partition request" "in_call inp = rq_call request"
        "mine (cid_transaction_id (in_identities inp))" "in_commit_event inp = put"
        using mine by (simp_all add: inp_def)
      have commit: "io_spec (reserved jd put t) (io_lift (state_commit (pd_store deps) (planCommit inp)))
        (\<lambda>oc p. \<exists>t'. settled jd put COMMIT_JOURNAL_ACTION_INDEX oc t' p
           \<and> ledger_after (new_transaction t (in_partition inp) (in_call inp) (cid_transaction_id (in_identities inp)))
               t (plain_class oc) t') (commit_truth request t)"
        by (rule io_spec_weaken [OF commit_spec [OF inp(3,4)]]) (auto simp: inp(1,2) intro: truth_plain)
      show ?thesis
        unfolding Prepared prepare_result.case Let_def inp_def [symmetric]
        by (rule io_spec_bind [OF commit], rule io_spec_ex_pre, rule io_spec_conj_pre,
            rule planned_truth [OF refl inp(1,2)])
    qed
  qed
qed

lemma attemptCommit_spec:
  "io_spec (journaled jd t) (attemptCommit depth deps jd request kind)
    (\<lambda>cm. commit_result jd request t (cm_plan cm)) (commit_truth request t)"
proof (induction depth arbitrary: kind)
  case 0
  show ?case by (auto intro!: io_spec_throw simp: idle_def)
next
  case (Suc depth)
  show ?case
    unfolding attemptCommit.simps
  proof (rule io_spec_bind [OF attemptPlan_spec])
    fix r
    show "io_spec (\<lambda>p. case r of None \<Rightarrow> journaled jd t p | Some cm \<Rightarrow> commit_result jd request t (cm_plan cm) p)
      (case r of Some cm \<Rightarrow> io_return cm | None \<Rightarrow> attemptCommit depth deps jd request Untargeted)
      (\<lambda>cm. commit_result jd request t (cm_plan cm)) (commit_truth request t)"
      using Suc.IH by (cases r) (auto intro: io_spec_return)
  qed
qed

lemma executeCommit_spec:
  "io_spec (journaled jd t) (executeCommit deps jd request)
    (\<lambda>cf. commit_result jd request t (cf_plan cf)) (commit_truth request t)"
  unfolding executeCommit_def
proof (rule io_spec_bind [OF attemptCommit_spec])
  fix cm
  show "io_spec (commit_result jd request t (cm_plan cm))
     (io_bind (io_of (formatUtcMillis (cm_ack_wall cm))) (\<lambda>committed_at.
     io_bind (journal_append jd ''provider_commit_confirmed''
       [(''provider_commit_id'', JString (cid_commit_id (pl_ids (cm_plan cm)))),
        (''provider_transaction_id'', JString (cid_transaction_id (pl_ids (cm_plan cm)))),
        (''provider_call_id'', JString (rq_call_id request)),
        (''committed_at'', JString committed_at)]
       [cid_commit_event_id (pl_ids (cm_plan cm))]) (\<lambda>confirmed.
     case confirmed of
       AppendStopped _ \<Rightarrow> io_throw (ProviderFault PROVIDER_JOURNAL_STOPPED AfterCommit (rq_call_id request))
     | Appended event \<Rightarrow>
         io_return \<lparr>cf_plan = cm_plan cm, cf_ack_ns = cm_ack_ns cm,
                    cf_confirmed_event_id = event_id_of event\<rparr>)))
    (\<lambda>cf. commit_result jd request t (cf_plan cf)) (commit_truth request t)"
    unfolding commit_result_def
    apply (rule io_spec_ex_pre, rule io_spec_conj_pre)
    apply (rule io_spec_weaken [where Q = "\<lambda>cf p. cf_plan cf = cm_plan cm \<and> journaled jd x p" and E = "quiet_faults AfterCommit x" for x])
    apply (rule io_spec_bind [OF calm_faults [OF calm_builders(1)]])
    apply (rule append_or_fault)
    apply (auto intro: fault_spec io_spec_return simp: committed_def intro!: truth_after)
    done
qed

subsection \<open>The barrier and the end of the call\<close>

text \<open>After the commit every step keeps the ledger and raises faults after the commit only.\<close>

abbreviation keeps_after :: "'w journal_writer_deps \<Rightarrow> ledger \<Rightarrow> (journal_writer \<times> 'w, 'a) io \<Rightarrow> bool" where
  "keeps_after jd t m \<equiv> io_spec (journaled jd t) m (\<lambda>_. journaled jd t) (quiet_faults AfterCommit t)"

lemma keeps_after_bind: "keeps_after jd t m \<Longrightarrow> (\<And>x. keeps_after jd t (f x)) \<Longrightarrow> keeps_after jd t (io_bind m f)"
  by (rule io_spec_bind)

lemma keeps_after_return: "keeps_after jd t (io_return x)"
  by (rule io_spec_return)

lemmas keeps_after_clocks =
  calm_clocks(1) [OF stable_states(2), THEN calm_faults] calm_clocks(2) [OF stable_states(2), THEN calm_faults]
  calm_clocks(3) [OF stable_states(2), THEN calm_faults] calm_clocks(4) [OF stable_states(2), THEN calm_faults]
  calm_reads(5) [OF stable_states(2), THEN calm_faults] calm_builders(5) [THEN calm_faults]

lemmas keeps_after_rules = keeps_after_bind keeps_after_return keeps_after_clocks fault_spec append_or_fault

lemma transition_law:
  "io_spec (reserved jd put t) (io_lift (state_transition (pd_store deps)
      \<lparr>tt_partition = part, tt_from = from, tt_to = target, tt_set = sets, tt_event = put, tt_token = token\<rparr>))
    (\<lambda>oc. settled jd put TRANSITION_JOURNAL_ACTION_INDEX oc t) (quiet_faults AfterCommit t)"
proof -
  let ?u = "transition_update \<lparr>tt_partition = part, tt_from = from, tt_to = target, tt_set = sets, tt_event = put, tt_token = token\<rparr>"
  have eff: "own_ledger mine (transact_effect [?u, journalPutAction ExperimentJournalTable put] db) = own_ledger mine db" for db
    by (auto simp: transact_effect_def transition_update_def journalPutAction_def apply_commits_def set_item_def
        own_ledger_def fun_eq_iff split: sum.splits option.splits)
  have after: "t' = t" if "ledger_after (\<lambda>t'. t' = t) t v t'" for v t'
    using that by (cases v) auto
  note spec = ledger_transact_spec [of jd "[?u]" "[]" "[?u, journalPutAction ExperimentJournalTable put]" t "\<lambda>t'. t' = t" put token]
  show ?thesis
    unfolding state_transition_def treatment_transition.simps
    by (rule io_spec_weaken [OF spec])
      (use eff after in \<open>auto simp: leaves_slots_def transition_update_def TRANSITION_JOURNAL_ACTION_INDEX_def plain_fault_in\<close>)
qed

lemma barrier_transition_keeps:
  "keeps_after jd t (barrier_transition deps jd commit from target attr type body causation waitState)"
proof -
  have prep: "io_spec (journaled jd t) (journal_prepare jd type body causation)
     (\<lambda>r p. case r of Prepared put \<Rightarrow> reserved jd put t p | PrepareStopped _ \<Rightarrow> journaled jd t p)
     (quiet_faults AfterCommit t)"
    by (rule io_spec_weaken [OF prepare_spec]) (auto simp: plain_fault_in)
  have ids: "io_spec (reserved jd put t) (io_lift (pd_ids deps)) (\<lambda>_. reserved jd put t) (quiet_faults AfterCommit t)" for put
    by (rule io_spec_weaken [OF calm_clocks(4) [OF stable_states(3)]]) (auto simp: reserving_def plain_fault_in)
  have confirm: "io_spec (settled jd put k oc t) (journal_confirm put oc k) (\<lambda>_. journaled jd t) (quiet_faults AfterCommit t)"
    for put k oc by (rule io_spec_weaken [OF confirm_spec]) auto
  have judge: "keeps_after jd t (io_of (notAppliedResult commit oc))" for oc
    by (rule io_spec_of) (auto simp: idle_def notAppliedResult_def split: write_outcome.splits option.splits sum.splits)
  show ?thesis
    unfolding barrier_transition_def
  proof (rule io_spec_bind [OF prep])
    fix r
    show "io_spec (\<lambda>p. case r of Prepared put \<Rightarrow> reserved jd put t p | PrepareStopped _ \<Rightarrow> journaled jd t p)
      (case r of
       PrepareStopped _ \<Rightarrow> io_throw (ProviderFault PROVIDER_JOURNAL_STOPPED AfterCommit (bc_call_id commit))
     | Prepared put \<Rightarrow>
         io_bind (io_lift (pd_ids deps)) (\<lambda>token.
         io_bind (io_lift (state_transition (pd_store deps)
            \<lparr>tt_partition = bc_partition commit, tt_from = from, tt_to = target,
             tt_set = transition_sets target attr (event_id_of (je_event put)),
             tt_event = put, tt_token = token\<rparr>)) (\<lambda>outcome.
         io_bind (journal_confirm put outcome TRANSITION_JOURNAL_ACTION_INDEX) (\<lambda>confirmed.
         case confirmed of
           ConfirmStopped _ \<Rightarrow> io_throw (ProviderFault TRANSITION_AMBIGUOUS AfterCommit (bc_call_id commit))
         | Confirmed _ \<Rightarrow>
             io_return (TransitionApplied (event_id_of (je_event put)), latestWaitState (Some target) waitState)
         | NotApplied _ _ \<Rightarrow>
             io_bind (io_of (notAppliedResult commit outcome)) (\<lambda>r. io_return (r, waitState))))))
      (\<lambda>_. journaled jd t) (quiet_faults AfterCommit t)"
    proof (cases r)
      case (PrepareStopped reason)
      then show ?thesis by (simp add: fault_spec)
    next
      case (Prepared put)
      show ?thesis
        unfolding Prepared prepare_result.case
        by (rule io_spec_bind [OF ids], rule io_spec_bind [OF transition_law], rule io_spec_bind [OF confirm])
          (auto intro!: fault_spec keeps_after_rules judge split: confirm_result.splits)
    qed
  qed
qed

lemma perform_keeps: "keeps_after jd t (perform deps jd commit waitState step)"
proof -
  have poll: "keeps_after jd t (waitOnePoll deps)"
    unfolding waitOnePoll_def by (intro keeps_after_rules)
  have cont: "keeps_after jd t (continueAfter deps r)" for r
    unfolding continueAfter_def by (cases r) (simp_all add: poll keeps_after_return)
  have fin: "keeps_after jd t (end_of_transition deps outcome r)" for outcome r
    unfolding end_of_transition_def
    by (cases "fst r") (auto intro!: keeps_after_bind keeps_after_return cont)
  have release: "keeps_after jd t (barrier_release deps jd commit observed ws)" for observed ws
    unfolding barrier_release_def by (intro keeps_after_bind barrier_transition_keeps fin)
  have observe: "keeps_after jd t (barrier_observe deps jd commit signal ws)" for signal ws
    unfolding barrier_observe_def
    by (rule keeps_after_bind [OF barrier_transition_keeps])
      (auto intro!: release keeps_after_bind cont keeps_after_return split: transition_result.splits)
  have body: "keeps_after jd t (safetyReleaseBody deps commit cause st)" for cause st
    unfolding safetyReleaseBody_def by (intro keeps_after_rules)
  have safety: "keeps_after jd t (barrier_safetyRelease deps jd commit st ws)" for st ws
    unfolding barrier_safetyRelease_def by (intro keeps_after_bind body barrier_transition_keeps fin)
  have external: "keeps_after jd t (recordExternalRelease deps jd commit cause ws)" for cause ws
    unfolding recordExternalRelease_def
    by (rule keeps_after_bind [OF body], rule append_or_fault) (simp_all add: fault_spec keeps_after_return)
  show ?thesis
    unfolding perform_def
    by (cases step) (auto intro!: keeps_after_bind keeps_after_return poll observe release safety external fault_spec)
qed

lemma barrier_turn_keeps: "keeps_after jd t (barrier_turn deps jd commit nxt waitState)"
  unfolding barrier_turn_def
  by (rule keeps_after_bind, cases nxt)
    (auto intro!: keeps_after_rules perform_keeps)

lemma barrier_loop_keeps: "keeps_after jd t (barrier_loop turns deps jd commit nxt waitState)"
proof (induction turns arbitrary: nxt waitState)
  case (Suc turns)
  then show ?case
    by (auto intro!: keeps_after_bind [OF barrier_turn_keeps] keeps_after_return split: sum.splits prod.splits)
qed (simp add: keeps_after_return)

lemma appendOrFault_spec:
  "io_spec (journaled jd t) (appendOrFault jd i type body phase causation) (\<lambda>_. journaled jd t) (quiet_faults phase t)"
  unfolding appendOrFault_def by (rule append_or_fault) (auto intro: fault_spec io_spec_return)

lemma finish_call_keeps: "cs_journal session = jd \<Longrightarrow> keeps_after jd t (finish_call turns deps session call commit)"
  unfolding finish_call_def awaitRelease_def Let_def
  by (auto intro!: keeps_after_bind appendOrFault_spec barrier_loop_keeps keeps_after_return)

subsection \<open>The handler\<close>

lemma untouched_calm:
  "io_calm (untouched t) m \<Longrightarrow> io_spec (untouched t) m (\<lambda>_. untouched t) (quiet_faults BeforeCommit t)"
  by (erule io_spec_weaken) (auto simp: unopened_def plain_fault_in)

lemma readOrFault_spec:
  "io_calm (untouched t) (io_lift m) \<Longrightarrow>
   io_spec (untouched t) (readOrFault i m) (\<lambda>_. untouched t) (quiet_faults BeforeCommit t)"
  unfolding readOrFault_def
  by (rule io_spec_bind [OF untouched_calm]) (auto intro!: io_spec_return io_spec_throw simp: unopened_def split: sum.splits)

lemma openJournal_spec:
  "io_spec (untouched t) (openJournal deps scope) (\<lambda>jd. journaled jd t) (quiet_faults BeforeCommit t)"
  unfolding openJournal_def provider_journal_def client_journal_def [symmetric]
  by (rule io_spec_weaken [OF open_spec]) (auto simp: plain_fault_in)

lemma attribute_spec:
  "io_spec (untouched t) (attribute deps raw i) (\<lambda>_. untouched t) (quiet_faults BeforeCommit t)"
  unfolding attribute_def
  by (auto intro!: io_spec_return io_spec_bind [OF readOrFault_spec [OF calm_reads(1) [OF stable_states(1)]]]
      split: option.splits)

lemma rejectUnattributedCall_spec:
  "io_spec (untouched t) (rejectUnattributedCall deps raw i cause)
     (\<lambda>r p. led p = t \<and> (\<exists>a b c d. r = RejectedResponse a b c d)) (quiet_faults BeforeCommit t)"
  unfolding rejectUnattributedCall_def
proof (rule io_spec_bind [OF readOrFault_spec [OF calm_reads(2) [OF stable_states(1)]]])
  fix r
  show "io_spec (untouched t)
    (case r of
       None \<Rightarrow> io_throw (ProviderFault cause BeforeCommit i)
     | Some digest \<Rightarrow>
         io_bind (openJournal deps (unattributedJournalScope (pd_deployment deps) digest)) (\<lambda>jd.
         io_bind (appendOrFault jd i ''provider_call_rejected''
            (rejected_body i (judgeUnattributedCall raw)) BeforeCommit []) (\<lambda>_.
         io_return (rejectedResponse i raw (judgeUnattributedCall raw)))))
     (\<lambda>r p. led p = t \<and> (\<exists>a b c d. r = RejectedResponse a b c d)) (quiet_faults BeforeCommit t)"
  proof (cases r)
    case None
    then show ?thesis by (auto intro!: io_spec_throw simp: unopened_def)
  next
    case (Some digest)
    then show ?thesis
      by (auto intro!: io_spec_bind [OF openJournal_spec] io_spec_bind [OF appendOrFault_spec] io_spec_return
          simp: idle_def rejectedResponse_def)
  qed
qed

lemma openSession_spec:
  "io_spec (untouched t) (openSession deps raw i part config)
     (\<lambda>session p. journaled (cs_journal session) t p) (quiet_faults BeforeCommit t)"
  unfolding openSession_def
  by (intro io_spec_bind [OF readOrFault_spec [OF calm_reads(3) [OF stable_states(1)]]]
      io_spec_bind [OF readOrFault_spec [OF calm_reads(4) [OF stable_states(1)]]]
      io_spec_bind [OF openJournal_spec] io_spec_bind [OF appendOrFault_spec] io_spec_return) simp

abbreviation call_truth :: "json \<Rightarrow> ledger \<Rightarrow> js_throw \<Rightarrow> journal_writer \<times> 'w \<Rightarrow> bool" where
  "call_truth raw t e p \<equiv> phase_truth (\<lambda>t'. \<exists>tx. committed_call raw t tx t') t e (led p)"

lemma commit_accepted_spec:
  assumes "call_of raw call"
  shows "io_spec (journaled (cs_journal session) t) (commit_accepted turns deps session call)
    (\<lambda>r p. response_truth raw t r (led p)) (call_truth raw t)"
  unfolding commit_accepted_def
proof (rule io_spec_bind)
  show "io_spec (journaled (cs_journal session) t)
    (appendOrFault (cs_journal session) (cs_call_id session) ''provider_call_accepted''
        (acceptedBody (cs_call_id session) call) BeforeCommit [cs_received_event_id session])
    (\<lambda>_. journaled (cs_journal session) t) (call_truth raw t)"
    by (rule io_spec_weaken [OF appendOrFault_spec]) (auto intro: quiet_before)
  fix accepted
  let ?request = "\<lparr>rq_partition = cp_key (cs_partition session), rq_call = call, rq_call_id = cs_call_id session,
         rq_accepted_event_id = accepted, rq_kind = (if is_targeted_call session then Targeted else Untargeted)\<rparr>"
  have exec: "io_spec (journaled (cs_journal session) t) (executeCommit deps (cs_journal session) ?request)
      (\<lambda>cf. commit_result (cs_journal session) ?request t (cf_plan cf)) (call_truth raw t)"
    by (rule io_spec_weaken [OF executeCommit_spec])
      (use assms in \<open>auto simp: committed_def committed_call_def elim!: truth_mono, blast\<close>)
  show "io_spec (journaled (cs_journal session) t)
     (io_bind (executeCommit deps (cs_journal session) ?request) (\<lambda>commit.
      io_bind (finish_call turns deps session call commit) (\<lambda>finished.
      io_return (map_option (\<lambda>_. SucceededResponse (cs_call_id session) (acc_attempt_id call)
        (acc_provider_request_id call) (cid_transaction_id (pl_ids (cf_plan commit)))) finished))))
     (\<lambda>r p. response_truth raw t r (led p)) (call_truth raw t)"
  proof (rule io_spec_bind [OF exec])
    fix commit :: confirmed_commit
    have "response_truth raw t (map_option (\<lambda>_. SucceededResponse a b c (cid_transaction_id (pl_ids (cf_plan commit)))) fin) t'"
      if "new_transaction t (rq_partition ?request) (rq_call ?request) (cid_transaction_id (pl_ids (cf_plan commit))) t'"
      for a b c fin t'
      using that assms by (cases fin) (auto simp: committed_call_def)
    note truth = this
    have faults: "call_truth raw t e p" if "quiet_faults AfterCommit t' e p"
      "new_transaction t (rq_partition ?request) (rq_call ?request) (cid_transaction_id (pl_ids (cf_plan commit))) t'" for e p t'
      using that assms by (intro truth_after) (auto simp: committed_call_def)
    show "io_spec (commit_result (cs_journal session) ?request t (cf_plan commit))
      (io_bind (finish_call turns deps session call commit) (\<lambda>finished.
       io_return (map_option (\<lambda>_. SucceededResponse (cs_call_id session) (acc_attempt_id call)
        (acc_provider_request_id call) (cid_transaction_id (pl_ids (cf_plan commit)))) finished)))
      (\<lambda>r p. response_truth raw t r (led p)) (call_truth raw t)"
      unfolding commit_result_def
    proof (rule io_spec_ex_pre, rule io_spec_conj_pre, rule io_spec_bind)
      fix t'
      assume nt: "new_transaction t (rq_partition ?request) (rq_call ?request) (cid_transaction_id (pl_ids (cf_plan commit))) t'"
      show "io_spec (journaled (cs_journal session) t') (finish_call turns deps session call commit)
        (\<lambda>_. journaled (cs_journal session) t') (call_truth raw t)"
        by (rule io_spec_weaken [OF finish_call_keeps [OF refl]]) (use faults [OF _ nt] in auto)
      show "io_spec (journaled (cs_journal session) t')
        (io_return (map_option (\<lambda>_. SucceededResponse (cs_call_id session) (acc_attempt_id call)
          (acc_provider_request_id call) (cid_transaction_id (pl_ids (cf_plan commit)))) finished))
        (\<lambda>r p. response_truth raw t r (led p)) (call_truth raw t)" for finished
        by (rule io_spec_return) (use truth [OF nt] in \<open>auto simp: idle_def\<close>)
    qed
  qed
qed

lemma handleCall_spec:
  "io_spec (untouched t) (handleCall turns deps raw) (\<lambda>r p. response_truth raw t r (led p)) (call_truth raw t)"
proof -
  have ids: "io_spec (untouched t) (io_lift (pd_ids deps)) (\<lambda>_. untouched t) (call_truth raw t)"
    by (rule io_spec_weaken [OF untouched_calm [OF calm_clocks(4) [OF stable_states(1)]]]) (auto intro: quiet_before)
  have attr: "io_spec (untouched t) (attribute deps raw i) (\<lambda>_. untouched t) (call_truth raw t)" for i
    by (rule io_spec_weaken [OF attribute_spec]) (auto intro: quiet_before)
  have unattr: "io_spec (untouched t) (io_bind (rejectUnattributedCall deps raw i cause) (\<lambda>response. io_return (Some response)))
      (\<lambda>r p. response_truth raw t r (led p)) (call_truth raw t)" for i cause
    by (rule io_spec_weaken [OF io_spec_bind [OF rejectUnattributedCall_spec io_spec_return
        [where Q = "\<lambda>r p. response_truth raw t r (led p)"]]]) (auto intro: quiet_before)
  have session: "io_spec (untouched t) (openSession deps raw i part config)
     (\<lambda>session p. journaled (cs_journal session) t p) (call_truth raw t)" for i part config
    by (rule io_spec_weaken [OF openSession_spec]) (auto intro: quiet_before)
  have reject: "io_spec (journaled (cs_journal s) t)
      (io_bind (reject_call s raw reason) (\<lambda>response. io_return (Some response)))
      (\<lambda>r p. response_truth raw t r (led p)) (call_truth raw t)" for s reason
    unfolding reject_call_def io_bind_assoc io_bind_return
    by (rule io_spec_weaken [OF io_spec_bind [OF appendOrFault_spec io_spec_return
        [where Q = "\<lambda>r p. response_truth raw t r (led p)"]]])
      (auto intro: quiet_before simp: rejectedResponse_def idle_def)
  have judged: "io_spec (journaled (cs_journal s) t)
      (case evaluateAcceptance raw (cs_context s) of
         Inl reason \<Rightarrow> io_bind (reject_call s raw reason) (\<lambda>response. io_return (Some response))
       | Inr call \<Rightarrow> commit_accepted turns deps s call)
      (\<lambda>r p. response_truth raw t r (led p)) (call_truth raw t)" for s
    using reject commit_accepted_spec [OF accepted_call_of]
    by (cases "evaluateAcceptance raw (cs_context s)") auto
  have attributed: "io_spec (untouched t)
     (case a of
       Unattributed cause \<Rightarrow>
         io_bind (rejectUnattributedCall deps raw i cause) (\<lambda>response. io_return (Some response))
     | Attributed part config \<Rightarrow>
         io_bind (openSession deps raw i part config) (\<lambda>session.
         case evaluateAcceptance raw (cs_context session) of
           Inl reason \<Rightarrow> io_bind (reject_call session raw reason) (\<lambda>response. io_return (Some response))
         | Inr call \<Rightarrow> commit_accepted turns deps session call))
     (\<lambda>r p. response_truth raw t r (led p)) (call_truth raw t)" for a i
    using unattr io_spec_bind [OF session judged] by (cases a) auto
  show ?thesis
    unfolding handleCall_def
    by (rule io_spec_bind [OF ids], rule io_spec_bind [OF attr], rule attributed)
qed

end

subsection \<open>The scripted instance\<close>

definition world_provider :: "execution_identity \<Rightarrow> (json \<Rightarrow> string) \<Rightarrow> world provider_deps" where
  "world_provider deployment digest =
     \<lparr>pd_deployment = deployment, pd_store = world_store, pd_ids = world_uuid, pd_wall = world_clock,
      pd_monotonic = world_monotonic, pd_sleep = world_sleep, pd_digest = digest\<rparr>"

text \<open>The others name none of our identifiers in a ledger key or in a key of the provider's journal.\<close>

definition leaves_ours :: "(uuid4 \<Rightarrow> bool) \<Rightarrow> write_action list \<Rightarrow> bool" where
  "leaves_ours mine as \<longleftrightarrow> leaves_journal ''refund_provider'' mine as
     \<and> list_all (\<lambda>a. action_table a = LedgerTable \<longrightarrow> (\<forall>part tx. mine tx \<longrightarrow> action_key a \<noteq> ledger_key part tx)) as"

abbreviation provider_world :: "(uuid4 \<Rightarrow> bool) \<Rightarrow> world \<Rightarrow> bool" where
  "provider_world mine \<equiv> client_world (leaves_ours mine) mine plain_throw"

lemma world_provider_sel [simp]:
  "pd_store (world_provider deployment digest) = world_store"
  "pd_ids (world_provider deployment digest) = world_uuid"
  "pd_wall (world_provider deployment digest) = world_clock"
  "pd_monotonic (world_provider deployment digest) = world_monotonic"
  "pd_sleep (world_provider deployment digest) = world_sleep"
  by (simp_all add: world_provider_def)

interpretation scripted_provider: provider_environment
    wd_tables "provider_world mine" "(foreign_move (leaves_ours mine))\<^sup>*\<^sup>*"
    "world_provider deployment digest" mine
  for mine deployment digest
proof (intro provider_environment.intro provider_environment_axioms.intro, unfold world_provider_sel)
  show "journal_client world_store wd_tables (provider_world mine) (foreign_move (leaves_ours mine))\<^sup>*\<^sup>*
     world_uuid world_clock ''refund_provider'' mine plain_throw"
    by (rule client_world_is_client) (simp_all add: leaves_ours_def)
  show "provider_world mine w' \<and> (foreign_move (leaves_ours mine))\<^sup>*\<^sup>* (wd_tables w) (wd_tables w')
      \<and> (\<forall>e. now = Inl e \<longrightarrow> plain_throw e)"
    if "provider_world mine w" "run_state world_monotonic w = (now, w')" for w now w'
    using client_world_clock(1) [OF that] by simp
  show "provider_world mine w' \<and> (foreign_move (leaves_ours mine))\<^sup>*\<^sup>* (wd_tables w) (wd_tables w')
      \<and> (\<forall>e. slept = Inl e \<longrightarrow> plain_throw e)"
    if "provider_world mine w" "run_state (world_sleep ms) w = (slept, w')" for w ms slept w'
    using client_world_clock(3) [OF that] by simp
  show "db' LedgerTable (ledger_key part tx) = db LedgerTable (ledger_key part tx)"
    if "(foreign_move (leaves_ours mine))\<^sup>*\<^sup>* db db'" "mine tx" for db db' part tx
    using that(1) by (rule foreign_key_kept) (use that(2) in \<open>auto simp: leaves_ours_def list_all_iff\<close>)
qed

text \<open>
  C1: the provider tells the truth about the ledger. Whatever the other writers do to the tables,
  however the store calls of the invocation fail, and whatever the request is: a call answered
  SUCCEEDED has put exactly one transaction, with the identifier it answers and the fields of the
  request; a call answered REJECTED has put none; and when the invocation fails, a fault of phase
  BEFORE_COMMIT has put none, one of phase AFTER_COMMIT exactly one, and any other failure one or
  none. Never two. The ledger meant is the part under the identifiers the invocation draws; the
  other invocations write under theirs.
\<close>

theorem provider_tells_the_truth:
  assumes "provider_world mine w"
    and "\<forall>i scope n. mine i \<longrightarrow> wd_tables w ExperimentJournalTable
      (own_key (provider_journal (world_provider deployment digest) scope i) n) = None"
    and "run_state (handleCall turns (world_provider deployment digest) raw) (jw, w) = (r, (jw', w'))"
  shows "case r of
      Inr response \<Rightarrow> response_truth raw (own_ledger mine (wd_tables w)) response (own_ledger mine (wd_tables w'))
    | Inl e \<Rightarrow> phase_truth (\<lambda>t'. \<exists>tx. committed_call raw (own_ledger mine (wd_tables w)) tx t')
        (own_ledger mine (wd_tables w)) e (own_ledger mine (wd_tables w'))"
  using io_specD [OF scripted_provider.handleCall_spec [of mine "own_ledger mine (wd_tables w)"] _ assms(3)] assms(1,2)
    scripted_provider.closed_ledger [of mine "\<lambda>t. t = own_ledger mine (wd_tables w)"]
  by (auto simp: scripted_provider.unopened_def own_key_def provider_journal_def split: sum.splits)

definition sample_call :: json where
  "sample_call = JObject
     [(''schema_version'', JNumber (JsInt 1)), (''record_type'', JString ''provider_refund_call''),
      (''transport_probe_id'', JString (sample_id 900)), (''execution_manifest_sha256'', JString sample_digest),
      (''caller_id'', JString ''probe''), (''attempt_id'', JString (sample_id 901)),
      (''provider_request_id'', JString (sample_id 902)), (''refund_request_id'', JString ''refund-1''),
      (''payment_id'', JString ''pay-1''), (''amount_minor'', JNumber (JsInt 1250)), (''currency'', JString ''BRL'')]"

definition sample_control :: "item_key \<Rightarrow> stored_item option" where
  "sample_control =
     [\<lparr>pk = sample_id 900 @ ''#probe'', sk = ''config''\<rparr> \<mapsto>
        [(''safety_release_ms'', JNumber (JsInt 15000)), (''treatment_poll_interval_ms'', JNumber (JsInt 250)),
         (''execution_manifest_sha256'', JString sample_digest), (''registered_caller_id'', JString ''probe''),
         (''scenario'', JString ''COMMIT_THEN_TIMEOUT''), (''payment_id'', JString ''pay-1'')],
      \<lparr>pk = sample_id 900 @ ''#probe'', sk = ''payment#pay-1''\<rparr> \<mapsto>
        [(''sk'', JString ''payment#pay-1''), (''payment_id'', JString ''pay-1''), (''currency'', JString ''BRL'')]]"

text \<open>The answer of the commit transaction is lost after it was applied.\<close>

definition sample_provider_world :: world where
  "sample_provider_world =
     \<lparr>wd_tables = (\<lambda>_ _. None)(ControlTable := sample_control),
      wd_calls = replicate 5 quiet_call @ [quiet_call\<lparr>wc_fault := Some (FaultAmbiguous ''Timeout'' True)\<rparr>],
      wd_now = 0, wd_ticks = [], wd_wall = [], wd_ids = sample_id, wd_drawn = 0, wd_slept = []\<rparr>"

theorem provider_tells_the_truth_witness:
  "\<exists>r jw' w'. run_state (handleCall 3 (world_provider sample_deployment (\<lambda>_. sample_digest)) sample_call)
       (new_journal_writer, sample_provider_world) = (r, (jw', w'))
     \<and> (case r of
          Inr response \<Rightarrow> response_truth sample_call (\<lambda>_. None) response (own_ledger (\<lambda>i. i \<in> range sample_id) (wd_tables w'))
        | Inl e \<Rightarrow> phase_truth (\<lambda>t'. \<exists>tx. committed_call sample_call (\<lambda>_. None) tx t')
            (\<lambda>_. None) e (own_ledger (\<lambda>i. i \<in> range sample_id) (wd_tables w')))"
proof -
  obtain r jw' w' where run: "run_state (handleCall 3 (world_provider sample_deployment (\<lambda>_. sample_digest)) sample_call)
       (new_journal_writer, sample_provider_world) = (r, (jw', w'))" by (metis prod_cases3)
  have "provider_world (\<lambda>i. i \<in> range sample_id) sample_provider_world"
    by (auto simp: client_world_def script_allows_def sample_provider_world_def quiet_call_def)
  moreover have led: "own_ledger (\<lambda>i. i \<in> range sample_id) (wd_tables sample_provider_world) = (\<lambda>_. None)"
    by (simp add: own_ledger_def sample_provider_world_def fun_eq_iff)
  moreover have "wd_tables sample_provider_world ExperimentJournalTable k = None" for k
    by (simp add: sample_provider_world_def)
  ultimately show ?thesis
    using provider_tells_the_truth [of "\<lambda>i. i \<in> range sample_id" sample_provider_world sample_deployment
        "\<lambda>_. sample_digest" 3 sample_call new_journal_writer r jw' w', unfolded led] run by auto
qed

end
