(* ===== verification/Treatment_Controller.thy ===== *)
theory Treatment_Controller
  imports Treatment_Items
begin

text \<open>
  The treatment controller (\<^verbatim>\<open>treatment-controller/\<close>): the reading of a caller timeout, the decision
  table, the records of the decisions, the state port with the signal transaction, and the
  handler of one stream record.

  The free-text \<^verbatim>\<open>detail\<close> of records, outcomes and faults is not modelled, and neither is the log
  sink. The raw stream record is decoded by the store's attribute codec, a parameter here.
\<close>

subsection \<open>Reading a caller timeout (\<^verbatim>\<open>caller-timeout-event.ts\<close>)\<close>

record caller_timeout_view =
  cto_event_id :: uuid4
  cto_attempt_id :: uuid4

record invalid_caller_timeout =
  ict_event_id :: "uuid4 option"
  ict_attempt_id :: "uuid4 option"

record caller_timeout_expectation =
  cte_deployment :: execution_identity
  cte_manifest :: "sha256_hex option"
  cte_trial :: "call_trial option"
  cte_source :: string

definition IDENTITY_FIELDS :: "string list" where
  "IDENTITY_FIELDS = [''run_id'', ''variant_validation_id'', ''transport_probe_id'']"

definition CALLER_TIMEOUT_RECORD_TYPE :: string where
  "CALLER_TIMEOUT_RECORD_TYPE = ''caller_timeout_recorded''"

definition isSourceSequenceValue :: "json \<Rightarrow> bool" where
  "isSourceSequenceValue v \<longleftrightarrow> is_positive_safe_number v"

fun isCausationList :: "json \<Rightarrow> bool" where
  "isCausationList (JArray ids) \<longleftrightarrow> list_all isUuid4 ids \<and> isCanonicalCausation ids"
| "isCausationList _ \<longleftrightarrow> False"

definition isNonEmptyTrimmed :: "json \<Rightarrow> bool" where
  "isNonEmptyTrimmed v \<longleftrightarrow> string_is NONEMPTY_TRIMMED_PATTERN v"

definition is_bool :: "json \<Rightarrow> bool" where
  "is_bool v \<longleftrightarrow> (case v of JBool _ \<Rightarrow> True | _ \<Rightarrow> False)"

definition RECORD_FIELD_CHECKS :: "(string \<times> (json \<Rightarrow> bool)) list" where
  "RECORD_FIELD_CHECKS =
     [(''occurred_at'', isUtcMillisJson), (''source_instance_id'', isUuid4),
      (''source_sequence'', isSourceSequenceValue), (''causation_event_ids'', isCausationList),
      (''provider_request_id'', isUuid4), (''refund_request_id'', isNonEmptyTrimmed),
      (''elapsed_ns'', string_is DECIMAL_STRING_PATTERN), (''monotonic_origin_event_id'', isUuid4),
      (''dispatch_at'', isUtcMillisJson), (''deadline_at'', isUtcMillisJson), (''timer_fired_at'', isUtcMillisJson),
      (''abort_requested_at'', isUtcMillisJson), (''recorded_at'', isUtcMillisJson),
      (''arbiter_winner'', (\<lambda>v. v = JString ''TIMER'' \<or> v = JString ''TRANSPORT'')),
      (''transport_settled_at_claim'', is_bool)]"

definition DECLARED_PROPERTIES :: "string list" where
  "DECLARED_PROPERTIES =
     [''pk'', ''sk'', ''schema_version'', ''record_type'', ''event_id''] @ IDENTITY_FIELDS
     @ [''execution_manifest_sha256'', ''trial_id'', ''trial_manifest_sha256'', ''source'', ''attempt_id'']
     @ map fst RECORD_FIELD_CHECKS"

definition experimentExpectation :: "execution_identity \<Rightarrow> controller_config_view \<Rightarrow> caller_timeout_expectation" where
  "experimentExpectation deployment config =
     \<lparr>cte_deployment = deployment, cte_manifest = Some (kv_manifest config), cte_trial = kv_trial config,
      cte_source = caller_text (kv_registered_caller config) @ ''_caller''\<rparr>"

definition canaryExpectation :: "execution_identity \<Rightarrow> caller_timeout_expectation" where
  "canaryExpectation deployment =
     \<lparr>cte_deployment = deployment, cte_manifest = None, cte_trial = None, cte_source = ''runner''\<rparr>"

text \<open>The checks answer whether they found a problem; the text of the problem is not modelled.\<close>

definition executionProblem :: "json_object \<Rightarrow> execution_identity \<Rightarrow> bool" where
  "executionProblem img deployment =
     (case executionIdentityFields deployment of
        (fld, i) # _ \<Rightarrow>
          \<not> (own_member img fld = Some i
             \<and> filter (\<lambda>name. name \<noteq> fld \<and> own_member img name \<noteq> None) IDENTITY_FIELDS = [])
      | [] \<Rightarrow> True)"

definition manifestProblem :: "json_object \<Rightarrow> sha256_hex option \<Rightarrow> bool" where
  "manifestProblem img expected =
     (case expected of
        None \<Rightarrow> \<not> member_is isSha256Hex (own_member img ''execution_manifest_sha256'')
      | Some digest \<Rightarrow> own_member img ''execution_manifest_sha256'' \<noteq> Some (JString digest))"

definition trialProblem :: "json_object \<Rightarrow> call_trial option \<Rightarrow> bool" where
  "trialProblem img trial =
     (case trial of
        None \<Rightarrow> own_member img ''trial_id'' \<noteq> None \<or> own_member img ''trial_manifest_sha256'' \<noteq> None
      | Some t \<Rightarrow>
          \<not> (own_member img ''trial_id'' = Some (JString (ct_trial_id t))
             \<and> own_member img ''trial_manifest_sha256'' = Some (JString (ct_manifest t))))"

definition sourceProblem :: "json_object \<Rightarrow> string \<Rightarrow> bool" where
  "sourceProblem img source \<longleftrightarrow> own_member img ''source'' \<noteq> Some (JString source)"

definition firstProblem :: "json_object \<Rightarrow> caller_timeout_expectation \<Rightarrow> bool" where
  "firstProblem img expected \<longleftrightarrow>
     own_member img ''record_type'' \<noteq> Some (JString CALLER_TIMEOUT_RECORD_TYPE)
     \<or> \<not> scalar_matches (own_member img ''schema_version'') (SNumber (JsInt 1))
     \<or> executionProblem img (cte_deployment expected)
     \<or> manifestProblem img (cte_manifest expected)
     \<or> trialProblem img (cte_trial expected)
     \<or> sourceProblem img (cte_source expected)"

definition recordShapeProblem :: "json_object \<Rightarrow> bool" where
  "recordShapeProblem img \<longleftrightarrow>
     List.find (\<lambda>name. name \<notin> set DECLARED_PROPERTIES) (map fst img) \<noteq> None
     \<or> \<not> list_all (\<lambda>(fld, check). member_is check (own_member img fld)) RECORD_FIELD_CHECKS"

definition readable_id :: "json_object \<Rightarrow> string \<Rightarrow> uuid4 option" where
  "readable_id img fld =
     (if member_is isUuid4 (own_member img fld) then Some (text_member img fld) else None)"

definition invalid_of :: "json_object \<Rightarrow> invalid_caller_timeout" where
  "invalid_of img =
     \<lparr>ict_event_id = readable_id img ''event_id'', ict_attempt_id = readable_id img ''attempt_id''\<rparr>"

definition readOwnCallerTimeout ::
  "json_object \<Rightarrow> caller_timeout_expectation \<Rightarrow> invalid_caller_timeout + caller_timeout_view" where
  "readOwnCallerTimeout img expected =
     (if firstProblem img expected then Inl (invalid_of img)
      else if \<not> member_is isUuid4 (own_member img ''event_id'') \<or> \<not> member_is isUuid4 (own_member img ''attempt_id'')
        then Inl (invalid_of img)
      else if recordShapeProblem img then Inl (invalid_of img)
      else Inr \<lparr>cto_event_id = text_member img ''event_id'', cto_attempt_id = text_member img ''attempt_id''\<rparr>)"

fun readCallerTimeout ::
  "json \<Rightarrow> caller_timeout_expectation \<Rightarrow> invalid_caller_timeout + caller_timeout_view" where
  "readCallerTimeout (JObject img) expected = readOwnCallerTimeout img expected"
| "readCallerTimeout _ expected = Inl \<lparr>ict_event_id = None, ict_attempt_id = None\<rparr>"

subsection \<open>The decision table (\<^verbatim>\<open>signal-decision.ts\<close>)\<close>

record caller_event_refs =
  cer_event_id :: uuid4
  cer_attempt_id :: uuid4

record signal_data =
  sg_refs :: caller_event_refs
  sg_causation :: "uuid4 list"
  sg_provider_commit_id :: uuid4
  sg_commit_event_id :: uuid4

datatype signal_decision =
    Signal signal_data
  | DuplicateIgnored caller_event_refs treatment_state
  | Conflict caller_event_refs uuid4 treatment_state
  | LateRejected caller_event_refs
  | BeforeCommitRejected caller_event_refs
  | NotTargetedRejected caller_event_refs
  | ControlTrialRejected caller_event_refs
  | InvalidEventRejected invalid_caller_timeout "treatment_state option"
  | CanaryAcknowledged uuid4

datatype signal_context =
    CanaryContext execution_identity
  | ExperimentContext execution_identity controller_config_view

definition callerRefs :: "caller_timeout_view \<Rightarrow> caller_event_refs" where
  "callerRefs view = \<lparr>cer_event_id = cto_event_id view, cer_attempt_id = cto_attempt_id view\<rparr>"

definition sortedPair :: "uuid4 \<Rightarrow> uuid4 \<Rightarrow> uuid4 list" where
  "sortedPair a b = (if a \<le> b then [a, b] else [b, a])"

definition decideCommittedWait :: "caller_event_refs \<Rightarrow> treatment_commit \<Rightarrow> signal_decision" where
  "decideCommittedWait refs commit =
     (if cer_attempt_id refs \<noteq> tc_targeted_attempt_id commit then NotTargetedRejected refs
      else Signal \<lparr>sg_refs = refs, sg_causation = sortedPair (tc_commit_event_id commit) (cer_event_id refs),
             sg_provider_commit_id = tc_provider_commit_id commit, sg_commit_event_id = tc_commit_event_id commit\<rparr>)"

definition decideSignalled :: "caller_event_refs \<Rightarrow> treatment_state \<Rightarrow> uuid4 \<Rightarrow> signal_decision" where
  "decideSignalled refs state signalCallerEventId =
     (if signalCallerEventId = cer_event_id refs then DuplicateIgnored refs state
      else Conflict refs signalCallerEventId state)"

fun decideOnTreatment :: "caller_event_refs \<Rightarrow> controller_treatment \<Rightarrow> signal_decision" where
  "decideOnTreatment refs CtArmed = BeforeCommitRejected refs"
| "decideOnTreatment refs CtSafetyReleased = LateRejected refs"
| "decideOnTreatment refs (CtCommittedWaiting commit) = decideCommittedWait refs commit"
| "decideOnTreatment refs (CtSignalled state _ signal) = decideSignalled refs state signal"

fun decideSignal :: "json \<Rightarrow> signal_context \<Rightarrow> controller_treatment option \<Rightarrow> signal_decision" where
  "decideSignal event (CanaryContext deployment) treatment =
     (case readCallerTimeout event (canaryExpectation deployment) of
        Inr canary \<Rightarrow> CanaryAcknowledged (cto_event_id canary)
      | Inl invalid \<Rightarrow> InvalidEventRejected invalid None)"
| "decideSignal event (ExperimentContext deployment config) treatment =
     (case readCallerTimeout event (experimentExpectation deployment config) of
        Inl invalid \<Rightarrow> InvalidEventRejected invalid (map_option ct_state treatment)
      | Inr view \<Rightarrow>
          (let refs = callerRefs view
           in if kv_scenario config = CONTROL then ControlTrialRejected refs
              else (case treatment of
                      None \<Rightarrow> InvalidEventRejected
                        \<lparr>ict_event_id = Some (cer_event_id refs), ict_attempt_id = Some (cer_attempt_id refs)\<rparr> None
                    | Some t \<Rightarrow> decideOnTreatment refs t)))"

subsection \<open>The records of the decisions (\<^verbatim>\<open>controller-records.ts\<close>)\<close>

definition id_member :: "string \<Rightarrow> uuid4 option \<Rightarrow> json_object" where
  "id_member name i = (case i of None \<Rightarrow> [] | Some v \<Rightarrow> [(name, JString v)])"

definition refs_members :: "caller_event_refs \<Rightarrow> json_object" where
  "refs_members refs =
     [(''caller_timeout_event_id'', JString (cer_event_id refs)), (''attempt_id'', JString (cer_attempt_id refs))]"

definition state_member :: "treatment_state \<Rightarrow> json_object" where
  "state_member state = [(''treatment_state'', JString (state_text state))]"

definition prepareSignalRecord ::
  "'w journal_writer_deps \<Rightarrow> signal_data \<Rightarrow> (journal_writer \<times> 'w, prepare_result) io" where
  "prepareSignalRecord jd decision =
     journal_prepare jd ''timeout_signal_recorded''
       [(''provider_commit_id'', JString (sg_provider_commit_id decision)),
        (''attempt_id'', JString (cer_attempt_id (sg_refs decision))),
        (''caller_timeout_event_id'', JString (cer_event_id (sg_refs decision))),
        (''provider_commit_event_id'', JString (sg_commit_event_id decision))]
       (sg_causation decision)"

text \<open>The type, body and causation of a decision answered by an append; the signal has none.\<close>

fun appendCallerAnswer :: "signal_decision \<Rightarrow> (string \<times> json_object \<times> uuid4 list) option" where
  "appendCallerAnswer (ControlTrialRejected refs) =
     Some (''caller_timeout_rejected'', (''reason'', JString ''CONTROL_TRIAL'') # refs_members refs, [cer_event_id refs])"
| "appendCallerAnswer (BeforeCommitRejected refs) =
     Some (''caller_timeout_rejected'', (''reason'', JString ''BEFORE_COMMIT'') # refs_members refs @ state_member ARMED,
       [cer_event_id refs])"
| "appendCallerAnswer (NotTargetedRejected refs) =
     Some (''caller_timeout_rejected'',
       (''reason'', JString ''NOT_TARGETED'') # refs_members refs @ state_member COMMITTED_WAITING, [cer_event_id refs])"
| "appendCallerAnswer (LateRejected refs) =
     Some (''late_timeout_signal_rejected'', refs_members refs @ state_member SAFETY_RELEASED, [cer_event_id refs])"
| "appendCallerAnswer (DuplicateIgnored refs state) =
     Some (''timeout_signal_duplicate_observed'', refs_members refs @ state_member state, [cer_event_id refs])"
| "appendCallerAnswer (Conflict refs existing state) =
     Some (''timeout_signal_conflict_recorded'',
       refs_members refs @ (''existing_caller_event_id'', JString existing) # state_member state, [cer_event_id refs])"
| "appendCallerAnswer _ = None"

fun decision_record :: "signal_decision \<Rightarrow> (string \<times> json_object \<times> uuid4 list) option" where
  "decision_record (CanaryAcknowledged i) =
     Some (''controller_canary_acknowledged'', [(''canary_event_id'', JString i)], [i])"
| "decision_record (InvalidEventRejected invalid state) =
     Some (''caller_timeout_rejected'',
       (''reason'', JString ''INVALID_EVENT'') # id_member ''caller_timeout_event_id'' (ict_event_id invalid)
         @ id_member ''attempt_id'' (ict_attempt_id invalid)
         @ (case state of None \<Rightarrow> [] | Some s \<Rightarrow> state_member s), [])"
| "decision_record decision = appendCallerAnswer decision"

definition appendDecisionRecord ::
  "'w journal_writer_deps \<Rightarrow> signal_decision \<Rightarrow> (journal_writer \<times> 'w, append_result) io" where
  "appendDecisionRecord jd decision =
     (case decision_record decision of
        Some (type, body, causation) \<Rightarrow> journal_append jd type body causation
      | None \<Rightarrow> io_throw TypeError)"

subsection \<open>The state port (\<^verbatim>\<open>controller-state-port.ts\<close>)\<close>

definition SIGNAL_JOURNAL_ACTION_INDEX :: nat where "SIGNAL_JOURNAL_ACTION_INDEX = 1"

record signal_transition =
  st_partition :: string
  st_attempt_id :: uuid4
  st_caller_event_id :: uuid4
  st_event :: journal_entry
  st_token :: uuid4

definition control_decoded :: "(stored_item \<Rightarrow> string + 'a) \<Rightarrow> stored_item \<Rightarrow> unit + 'a" where
  "control_decoded decode item = (case decode item of Inl _ \<Rightarrow> Inl () | Inr v \<Rightarrow> Inr v)"

definition controller_readControl ::
  "'w durable_item_store \<Rightarrow> string \<Rightarrow> string \<Rightarrow> (stored_item \<Rightarrow> string + 'a) \<Rightarrow> ('w, unit + 'a option) io" where
  "controller_readControl store part sortKey decode =
     io_bind (item_get store ControlTable \<lparr>pk = part, sk = sortKey\<rparr>) (\<lambda>read.
     io_return (case read of
       Inl _ \<Rightarrow> Inl ()
     | Inr None \<Rightarrow> Inr None
     | Inr (Some item) \<Rightarrow> map_sum id Some (control_decoded decode item)))"

fun partition_trial :: "controller_partition \<Rightarrow> uuid4 option" where
  "partition_trial (TrialKey _ trial) = Some trial"
| "partition_trial _ = None"

definition controller_loadConfiguration ::
  "'w durable_item_store \<Rightarrow> controller_partition \<Rightarrow> ('w, unit + controller_config_view option) io" where
  "controller_loadConfiguration store part =
     controller_readControl store (controller_key part) CONFIG_SORT_KEY
       (\<lambda>item. decodeControllerConfig item (partition_trial part))"

definition controller_loadTreatment ::
  "'w durable_item_store \<Rightarrow> controller_partition \<Rightarrow> ('w, unit + controller_treatment option) io" where
  "controller_loadTreatment store part =
     controller_readControl store (controller_key part) TREATMENT_SORT_KEY decodeControllerTreatment"

definition signal_update :: "signal_transition \<Rightarrow> write_action" where
  "signal_update t =
     Update ControlTable \<lparr>pk = st_partition t, sk = TREATMENT_SORT_KEY\<rparr>
       [(''state'', JString (state_text TIMEOUT_SIGNALLED)),
        (''signal_event_id'', JString (text_member (je_event (st_event t)) ''event_id'')),
        (''signal_caller_event_id'', JString (st_caller_event_id t))]
       [(''version'', 1)]
       (AllOf [AttributeEquals ''state'' (SString (state_text COMMITTED_WAITING)),
               AttributeEquals ''targeted_attempt_id'' (SString (st_attempt_id t))])"

definition state_signal :: "'w durable_item_store \<Rightarrow> signal_transition \<Rightarrow> ('w, write_outcome) io" where
  "state_signal store t =
     item_transact store [signal_update t, journalPutAction ExperimentJournalTable (st_event t)] (st_token t)"

definition decodeTreatmentAfterConflict :: "stored_item option \<Rightarrow> unit + controller_treatment option" where
  "decodeTreatmentAfterConflict existing =
     (case existing of
        None \<Rightarrow> Inr None
      | Some item \<Rightarrow> map_sum id Some (control_decoded decodeControllerTreatment item))"

subsection \<open>The handler (\<^verbatim>\<open>treatment-controller.ts\<close>)\<close>

record 'w controller_deps =
  kd_deployment :: execution_identity
  kd_store :: "'w durable_item_store"
  kd_ids :: "('w, uuid4) io"
  kd_wall :: "('w, int) io"

record stream_insert_record =
  si_event_name :: string
  si_new_image :: stored_item
  si_sequence_number :: string

datatype controller_outcome =
    RecordIgnored "json option"
  | Decided signal_decision string

record decision_in_scope =
  ds_img :: json
  ds_decision :: signal_decision
  ds_scope :: journal_scope
  ds_context :: signal_context

definition isConsumableInsert :: "stream_insert_record \<Rightarrow> bool" where
  "isConsumableInsert streamed \<longleftrightarrow>
     si_event_name streamed = ''INSERT''
     \<and> own_member (si_new_image streamed) ''record_type'' = Some (JString CALLER_TIMEOUT_RECORD_TYPE)"

text \<open>\<^verbatim>\<open>composeTreatmentController\<close>: a journal is opened with a new source instance.\<close>

definition CONTROLLER_JOURNAL_DEFINITIVE_RETRIES :: nat where "CONTROLLER_JOURNAL_DEFINITIVE_RETRIES = 2"

definition controller_journal :: "'w controller_deps \<Rightarrow> journal_scope \<Rightarrow> uuid4 \<Rightarrow> 'w journal_writer_deps" where
  "controller_journal deps scope instance_id =
     \<lparr>jd_port = createDurableJournalPort (kd_store deps) ExperimentJournalTable, jd_source = ''treatment_controller'',
      jd_instance = instance_id, jd_scope = scope, jd_clock = kd_wall deps, jd_ids = kd_ids deps,
      jd_max_retries = CONTROLLER_JOURNAL_DEFINITIVE_RETRIES\<rparr>"

definition controller_openJournal ::
  "'w controller_deps \<Rightarrow> journal_scope \<Rightarrow> (journal_writer \<times> 'w, 'w journal_writer_deps) io" where
  "controller_openJournal deps scope =
     io_bind (io_lift (kd_ids deps)) (\<lambda>instance_id.
     io_bind (io_put new_journal_writer) (\<lambda>_. io_return (controller_journal deps scope instance_id)))"

definition controller_required :: "string \<Rightarrow> unit + 'a \<Rightarrow> js_throw + 'a" where
  "controller_required partitionKey read =
     (case read of Inl _ \<Rightarrow> Inl (ControllerFault STATE_UNREADABLE partitionKey) | Inr v \<Rightarrow> Inr v)"

definition experimentScope :: "execution_identity \<Rightarrow> controller_config_view \<Rightarrow> journal_scope" where
  "experimentScope deployment config =
     \<lparr>js_execution = deployment, js_manifest = kv_manifest config,
      js_partition = (case kv_trial config of
        None \<Rightarrow> ProbePartition
      | Some trial \<Rightarrow> TrialPartition (ct_trial_id trial) (ct_manifest trial))\<rparr>"

definition appendOrFail ::
  "'w journal_writer_deps \<Rightarrow> signal_decision \<Rightarrow> string \<Rightarrow> (journal_writer \<times> 'w, controller_outcome) io" where
  "appendOrFail jd decision partitionKey =
     io_bind (appendDecisionRecord jd decision) (\<lambda>appended.
     case appended of
       AppendStopped _ \<Rightarrow> io_throw (ControllerFault JOURNAL_STOPPED partitionKey)
     | Appended _ \<Rightarrow> io_return (Decided decision partitionKey))"

definition redecide ::
  "'w journal_writer_deps \<Rightarrow> decision_in_scope \<Rightarrow> controller_treatment option \<Rightarrow> string
   \<Rightarrow> (journal_writer \<times> 'w, controller_outcome) io" where
  "redecide jd planned treatment partitionKey =
     (case decideSignal (ds_img planned) (ds_context planned) treatment of
        Signal _ \<Rightarrow> io_throw (ControllerFault SIGNAL_REDECIDED_TO_SIGNAL partitionKey)
      | decision \<Rightarrow> appendOrFail jd decision partitionKey)"

text \<open>The end of \<^verbatim>\<open>#signal\<close>, once the put is confirmed.\<close>

definition judge_signal ::
  "'w journal_writer_deps \<Rightarrow> signal_data \<Rightarrow> decision_in_scope \<Rightarrow> string \<Rightarrow> write_outcome \<Rightarrow> confirm_result
   \<Rightarrow> (journal_writer \<times> 'w, controller_outcome) io" where
  "judge_signal jd decision planned partitionKey outcome confirmed =
     (case confirmed of
        Confirmed _ \<Rightarrow> io_return (Decided (Signal decision) partitionKey)
      | ConfirmStopped reason \<Rightarrow>
          io_throw (ControllerFault (if reason = AMBIGUOUS_APPEND then SIGNAL_AMBIGUOUS else JOURNAL_STOPPED) partitionKey)
      | NotApplied _ _ \<Rightarrow>
          (case outcome of
             ConditionFailed failed existing \<Rightarrow>
               if failed \<noteq> 0 then io_throw (ControllerFault SIGNAL_FAILED partitionKey)
               else (case decodeTreatmentAfterConflict existing of
                       Inl _ \<Rightarrow> io_throw (ControllerFault STATE_UNREADABLE partitionKey)
                     | Inr treatment \<Rightarrow> redecide jd planned treatment partitionKey)
           | _ \<Rightarrow> io_throw (ControllerFault SIGNAL_FAILED partitionKey)))"

definition controller_signal ::
  "'w controller_deps \<Rightarrow> 'w journal_writer_deps \<Rightarrow> signal_data \<Rightarrow> decision_in_scope \<Rightarrow> string
   \<Rightarrow> (journal_writer \<times> 'w, controller_outcome) io" where
  "controller_signal deps jd decision planned partitionKey =
     io_bind (prepareSignalRecord jd decision) (\<lambda>prepared.
     case prepared of
       PrepareStopped _ \<Rightarrow> io_throw (ControllerFault JOURNAL_STOPPED partitionKey)
     | Prepared put \<Rightarrow>
         io_bind (io_lift (kd_ids deps)) (\<lambda>token.
         io_bind (io_lift (state_signal (kd_store deps)
            \<lparr>st_partition = partitionKey, st_attempt_id = cer_attempt_id (sg_refs decision),
             st_caller_event_id = cer_event_id (sg_refs decision), st_event = put, st_token = token\<rparr>)) (\<lambda>outcome.
         io_bind (journal_confirm put outcome SIGNAL_JOURNAL_ACTION_INDEX) (\<lambda>confirmed.
         judge_signal jd decision planned partitionKey outcome confirmed))))"

definition controller_plan ::
  "'w controller_deps \<Rightarrow> stream_insert_record \<Rightarrow> controller_partition \<Rightarrow> ('w, decision_in_scope option) io" where
  "controller_plan deps streamed part =
     (let img = JObject (si_new_image streamed)
      in case part of
           CanaryKey _ \<Rightarrow>
             io_return (case own_member (si_new_image streamed) ''execution_manifest_sha256'' of
               Some (JString digest) \<Rightarrow>
                 if SHA256_HEX_PATTERN digest
                 then Some \<lparr>ds_img = img, ds_decision = decideSignal img (CanaryContext (kd_deployment deps)) None,
                        ds_scope = \<lparr>js_execution = kd_deployment deps, js_manifest = digest, js_partition = CanaryPartition\<rparr>,
                        ds_context = CanaryContext (kd_deployment deps)\<rparr>
                 else None
             | _ \<Rightarrow> None)
         | _ \<Rightarrow>
             io_bind (controller_loadConfiguration (kd_store deps) part) (\<lambda>read.
             io_bind (io_of (controller_required (controller_key part) read)) (\<lambda>configuration.
             case configuration of
               None \<Rightarrow> io_return None
             | Some config \<Rightarrow>
                 io_bind (controller_loadTreatment (kd_store deps) part) (\<lambda>read'.
                 io_bind (io_of (controller_required (controller_key part) read')) (\<lambda>treatment.
                 io_return (Some \<lparr>ds_img = img,
                    ds_decision = decideSignal img (ExperimentContext (kd_deployment deps) config) treatment,
                    ds_scope = experimentScope (kd_deployment deps) config,
                    ds_context = ExperimentContext (kd_deployment deps) config\<rparr>))))))"

definition controller_execute ::
  "'w controller_deps \<Rightarrow> decision_in_scope \<Rightarrow> string \<Rightarrow> (journal_writer \<times> 'w, controller_outcome) io" where
  "controller_execute deps planned partitionKey =
     io_bind (controller_openJournal deps (ds_scope planned)) (\<lambda>jd.
     case ds_decision planned of
       Signal decision \<Rightarrow> controller_signal deps jd decision planned partitionKey
     | decision \<Rightarrow> appendOrFail jd decision partitionKey)"

definition controller_handle ::
  "'w controller_deps \<Rightarrow> stream_insert_record \<Rightarrow> (journal_writer \<times> 'w, controller_outcome) io" where
  "controller_handle deps streamed =
     (if \<not> isConsumableInsert streamed then io_return (RecordIgnored None)
      else (case resolveControllerPartition (kd_deployment deps) (own_member (si_new_image streamed) ''pk'') of
              None \<Rightarrow> io_return (RecordIgnored (own_member (si_new_image streamed) ''pk''))
            | Some part \<Rightarrow>
                io_bind (io_lift (controller_plan deps streamed part)) (\<lambda>planned.
                case planned of
                  None \<Rightarrow> io_return (RecordIgnored (Some (JString (controller_key part))))
                | Some p \<Rightarrow> controller_execute deps p (controller_key part))))"

end
