(* ===== verification/Signal_Truth.thy ===== *)
theory Signal_Truth
  imports Treatment_Controller Journal_Client
begin

text \<open>
  What an invocation of the treatment controller does to the treatment item. The handler is
  specified over an environment in which the others may change the control table in any way except
  that they store no signal under an event identifier of this invocation; the specifications
  compose to the property that the outcome, or the fault, says whether the signal was given, to
  which treatment, and in which state that treatment was. The re-decision after a failed
  condition never asks for a second signal.
\<close>

subsection \<open>When the controller signals\<close>

lemma readOwnCallerTimeout_view:
  "readOwnCallerTimeout img expected = Inr view \<longleftrightarrow>
     \<not> firstProblem img expected \<and> \<not> recordShapeProblem img
     \<and> member_is isUuid4 (own_member img ''event_id'') \<and> member_is isUuid4 (own_member img ''attempt_id'')
     \<and> view = \<lparr>cto_event_id = text_member img ''event_id'', cto_attempt_id = text_member img ''attempt_id''\<rparr>"
  by (auto simp: readOwnCallerTimeout_def)

lemma uuid_member: "member_is isUuid4 (own_member img name) \<Longrightarrow> own_member img name = Some (JString (text_member img name))"
  by (cases "own_member img name") (auto simp: text_member_def isUuid4_text)

definition refs_of :: "json \<Rightarrow> caller_event_refs \<Rightarrow> bool" where
  "refs_of img refs \<longleftrightarrow> (\<exists>members. img = JObject members
     \<and> own_member members ''event_id'' = Some (JString (cer_event_id refs))
     \<and> own_member members ''attempt_id'' = Some (JString (cer_attempt_id refs)))"

lemma readCallerTimeout_refs: "readCallerTimeout img expected = Inr view \<Longrightarrow> refs_of img (callerRefs view)"
  by (cases img) (auto simp: readOwnCallerTimeout_view refs_of_def callerRefs_def dest: uuid_member)

lemma decideSignalled_answers [simp]: "decideSignalled refs state i \<noteq> Signal d"
  by (simp add: decideSignalled_def)

lemma decideOnTreatment_signal:
  "decideOnTreatment refs t = Signal d \<longleftrightarrow>
     (\<exists>commit. t = CtCommittedWaiting commit \<and> tc_targeted_attempt_id commit = cer_attempt_id refs
       \<and> d = \<lparr>sg_refs = refs, sg_causation = sortedPair (tc_commit_event_id commit) (cer_event_id refs),
               sg_provider_commit_id = tc_provider_commit_id commit, sg_commit_event_id = tc_commit_event_id commit\<rparr>)"
  by (cases t) (auto simp: decideCommittedWait_def)

lemma decideSignal_signal:
  "decideSignal img ctx t = Signal d \<longleftrightarrow>
     (\<exists>deployment config view commit. ctx = ExperimentContext deployment config
       \<and> readCallerTimeout img (experimentExpectation deployment config) = Inr view \<and> kv_scenario config \<noteq> CONTROL
       \<and> t = Some (CtCommittedWaiting commit) \<and> tc_targeted_attempt_id commit = cto_attempt_id view
       \<and> d = \<lparr>sg_refs = callerRefs view, sg_causation = sortedPair (tc_commit_event_id commit) (cto_event_id view),
               sg_provider_commit_id = tc_provider_commit_id commit, sg_commit_event_id = tc_commit_event_id commit\<rparr>)"
  by (cases ctx; cases t) (auto simp: Let_def decideOnTreatment_signal callerRefs_def split: sum.splits)

text \<open>A second decision on the same event that signals too names the same caller event and attempt.\<close>

lemma decideSignal_again:
  "decideSignal img ctx t = Signal d \<Longrightarrow> decideSignal img ctx t' = Signal d' \<Longrightarrow>
   sg_refs d' = sg_refs d \<and> (\<exists>commit. t' = Some (CtCommittedWaiting commit) \<and> tc_targeted_attempt_id commit = cer_attempt_id (sg_refs d))"
  by (auto simp: decideSignal_signal callerRefs_def)

subsection \<open>The moment of the signal\<close>

text \<open>No control item carries a signal under an identifier of ours.\<close>

definition unsignalled :: "(uuid4 \<Rightarrow> bool) \<Rightarrow> tables \<Rightarrow> bool" where
  "unsignalled mine db \<longleftrightarrow> (\<forall>k item i. db ControlTable k = Some item \<longrightarrow>
     own_member item ''signal_event_id'' = Some (JString i) \<longrightarrow> \<not> mine i)"

text \<open>
  The one write: the treatment waited for the caller of exactly this attempt, and becomes
  signalled with the two events; the rest of it, of its table and of the other tables stays. The
  journal is the subject of \<^verbatim>\<open>Event_Journal\<close>.
\<close>

definition signal_moment :: "string \<Rightarrow> caller_event_refs \<Rightarrow> uuid4 \<Rightarrow> tables \<Rightarrow> tables \<Rightarrow> bool" where
  "signal_moment part refs i db db' \<longleftrightarrow> (\<exists>item item'.
     db ControlTable (treatment_slot part) = Some item
     \<and> own_member item ''state'' = Some (JString (state_text COMMITTED_WAITING))
     \<and> own_member item ''targeted_attempt_id'' = Some (JString (cer_attempt_id refs))
     \<and> own_member item' ''state'' = Some (JString (state_text TIMEOUT_SIGNALLED))
     \<and> own_member item' ''signal_event_id'' = Some (JString i)
     \<and> own_member item' ''signal_caller_event_id'' = Some (JString (cer_event_id refs))
     \<and> (\<forall>name. name \<notin> {''state'', ''signal_event_id'', ''signal_caller_event_id'', ''version'', ''pk'', ''sk''} \<longrightarrow>
          own_member item' name = own_member item name)
     \<and> db' ControlTable = (db ControlTable)(treatment_slot part \<mapsto> item')
     \<and> (\<forall>t. t \<noteq> ControlTable \<longrightarrow> t \<noteq> ExperimentJournalTable \<longrightarrow> db' t = db t))"

text \<open>What the others, and the appends to the journal, make of the tables.\<close>

definition drift :: "(tables \<Rightarrow> tables \<Rightarrow> bool) \<Rightarrow> tables \<Rightarrow> tables \<Rightarrow> bool" where
  "drift others = (\<lambda>db db'. others db db' \<or> (\<forall>t. t \<noteq> ExperimentJournalTable \<longrightarrow> db' t = db t))\<^sup>*\<^sup>*"

definition signalled ::
  "(uuid4 \<Rightarrow> bool) \<Rightarrow> (tables \<Rightarrow> tables \<Rightarrow> bool) \<Rightarrow> string \<Rightarrow> caller_event_refs \<Rightarrow> tables \<Rightarrow> bool" where
  "signalled mine others part refs db \<longleftrightarrow>
     (\<exists>i db1 db2. mine i \<and> unsignalled mine db1 \<and> signal_moment part refs i db1 db2 \<and> drift others db2 db)"

text \<open>
  The truth of an outcome: a signal was given exactly when it says so; a fault means that none was
  given, except that an ambiguous signal, or an error that is no controller fault, leaves it open;
  and the fault of a second signal does not occur.
\<close>

definition controller_truth ::
  "(uuid4 \<Rightarrow> bool) \<Rightarrow> (tables \<Rightarrow> tables \<Rightarrow> bool) \<Rightarrow> json \<Rightarrow> js_throw + controller_outcome \<Rightarrow> tables \<Rightarrow> bool" where
  "controller_truth mine others img r db \<longleftrightarrow>
     (case r of
        Inr (Decided (Signal d) part) \<Rightarrow> refs_of img (sg_refs d) \<and> signalled mine others part (sg_refs d) db
      | Inr _ \<Rightarrow> unsignalled mine db
      | Inl (ControllerFault SIGNAL_REDECIDED_TO_SIGNAL _) \<Rightarrow> False
      | Inl (ControllerFault SIGNAL_AMBIGUOUS part) \<Rightarrow>
          unsignalled mine db \<or> (\<exists>refs. refs_of img refs \<and> signalled mine others part refs db)
      | Inl (ControllerFault _ _) \<Rightarrow> unsignalled mine db
      | Inl _ \<Rightarrow> unsignalled mine db \<or> (\<exists>part refs. refs_of img refs \<and> signalled mine others part refs db))"

fun no_controller_fault :: "js_throw \<Rightarrow> bool" where
  "no_controller_fault (ControllerFault _ _) \<longleftrightarrow> False"
| "no_controller_fault _ \<longleftrightarrow> True"

lemma truth_unsignalled:
  "unsignalled mine db \<Longrightarrow> no_controller_fault e \<Longrightarrow> controller_truth mine others img (Inl e) db"
  "unsignalled mine db \<Longrightarrow> code \<noteq> SIGNAL_REDECIDED_TO_SIGNAL \<Longrightarrow>
     controller_truth mine others img (Inl (ControllerFault code part)) db"
  "unsignalled mine db \<Longrightarrow> (\<And>d part. r \<noteq> Decided (Signal d) part) \<Longrightarrow> controller_truth mine others img (Inr r) db"
  by (auto simp: controller_truth_def split: js_throw.splits controller_fault_code.splits controller_outcome.splits
      signal_decision.splits)

lemma truth_maybe:
  "unsignalled mine db \<or> signalled mine others part refs db \<Longrightarrow> refs_of img refs \<Longrightarrow> no_controller_fault e \<Longrightarrow>
     controller_truth mine others img (Inl e) db"
  "unsignalled mine db \<or> signalled mine others part refs db \<Longrightarrow> refs_of img refs \<Longrightarrow>
     controller_truth mine others img (Inl (ControllerFault SIGNAL_AMBIGUOUS part)) db"
  by (auto simp: controller_truth_def split: js_throw.splits)

subsection \<open>The signal transaction\<close>

lemma signal_effect:
  assumes "transact_guard [signal_update t, journalPutAction ExperimentJournalTable put] db"
    and t: "st_partition t = part" "st_attempt_id t = cer_attempt_id refs" "st_caller_event_id t = cer_event_id refs"
      "text_member (je_event (st_event t)) ''event_id'' = i"
  shows "signal_moment part refs i db (transact_effect [signal_update t, journalPutAction ExperimentJournalTable put] db)"
proof -
  from assms(1) have guard: "action_guard (signal_update t) db" "\<not> action_refused db (signal_update t)"
    by (simp_all add: transact_guard_def)
  then obtain item where item: "db ControlTable (treatment_slot part) = Some item"
    "own_member item ''state'' = Some (JString (state_text COMMITTED_WAITING))"
    "own_member item ''targeted_attempt_id'' = Some (JString (cer_attempt_id refs))"
    by (auto simp: action_guard_def signal_update_def t bind_eq_Some_conv)
  from guard(2) item(1) obtain item' where upd: "applyUpdate (Some item) (treatment_slot part)
       [(''state'', JString (state_text TIMEOUT_SIGNALLED)), (''signal_event_id'', JString i),
        (''signal_caller_event_id'', JString (cer_event_id refs))] [(''version'', 1)] = Some item'"
    by (auto simp: action_refused_def signal_update_def t split: option.splits)
  note after = versioned_update [OF upd]
  have members: "own_member item' ''state'' = Some (JString (state_text TIMEOUT_SIGNALLED))"
    "own_member item' ''signal_event_id'' = Some (JString i)"
    "own_member item' ''signal_caller_event_id'' = Some (JString (cer_event_id refs))"
    by (simp_all add: after)
  have rest: "own_member item' name = own_member item name"
    if "name \<notin> {''state'', ''signal_event_id'', ''signal_caller_event_id'', ''version'', ''pk'', ''sk''}" for name
    using that by (simp add: after map_add_def)
  have eff: "transact_effect [signal_update t, journalPutAction ExperimentJournalTable put] db
      = set_item ExperimentJournalTable (je_key put) (je_item put) (set_item ControlTable (treatment_slot part) item' db)"
    using upd item(1) by (simp add: transact_effect_def signal_update_def t journalPutAction_def apply_commits_def)
  show ?thesis
    unfolding signal_moment_def eff using item members rest
    by (intro exI [of _ item] exI [of _ item']) (simp add: set_item_def)
qed

text \<open>An item that decodes as waiting for a caller satisfies the condition of the signal for it.\<close>

lemma waiting_decodes:
  assumes "decodeControllerTreatment item = Inr (CtCommittedWaiting commit)"
  shows "own_member item ''state'' = Some (JString (state_text COMMITTED_WAITING))
    \<and> own_member item ''targeted_attempt_id'' = Some (JString (tc_targeted_attempt_id commit))"
proof -
  from assms have "member_is (is_text_of state_text TREATMENT_STATES) (own_member item ''state'')"
    by (auto simp: decodeControllerTreatment_def split: if_splits)
  then obtain st where st: "own_member item ''state'' = Some (JString (state_text st))"
    by (auto simp: member_is_def is_text_of_def split: option.splits json.splits)
  then have "text_member item ''state'' = state_text st" by (simp add: text_member_def)
  with assms st show ?thesis
    by (auto simp: decodeControllerTreatment_def treatmentCommit_def requiredId_def Let_def
        split: if_splits sum.splits intro!: uuid_member)
qed

lemma drift_step:
  "drift others a b \<Longrightarrow> others b c \<or> (\<forall>t. t \<noteq> ExperimentJournalTable \<longrightarrow> c t = b t) \<Longrightarrow> drift others a c"
  unfolding drift_def by (rule rtranclp.rtrancl_into_rtrancl)

lemma unsignalled_journal:
  assumes "unsignalled mine db" and "\<forall>t. t \<noteq> ExperimentJournalTable \<longrightarrow> db' t = db t"
  shows "unsignalled mine db'"
proof -
  from assms(2) have "db' ControlTable = db ControlTable" by simp
  with assms(1) show ?thesis by (simp add: unsignalled_def)
qed

subsection \<open>The environment of one invocation\<close>

locale controller_environment =
  journal_client "kd_store deps" view sane rely "kd_ids deps" "kd_wall deps" "''treatment_controller''"
    CONTROLLER_JOURNAL_DEFINITIVE_RETRIES mine no_controller_fault
  for view :: "'w \<Rightarrow> tables" and sane :: "'w \<Rightarrow> bool" and rely :: "tables \<Rightarrow> tables \<Rightarrow> bool"
    and deps :: "'w controller_deps" and mine :: "uuid4 \<Rightarrow> bool" +
  assumes signals_alone: "rely db db' \<Longrightarrow> unsignalled mine db \<Longrightarrow> unsignalled mine db'"
begin

abbreviation none_given :: "tables \<Rightarrow> bool" where
  "none_given \<equiv> unsignalled mine"

abbreviation given :: "string \<Rightarrow> caller_event_refs \<Rightarrow> tables \<Rightarrow> bool" where
  "given \<equiv> signalled mine rely"

abbreviation truth :: "json \<Rightarrow> js_throw + controller_outcome \<Rightarrow> journal_writer \<times> 'w \<Rightarrow> bool" where
  "truth img r p \<equiv> controller_truth mine rely img r (view (snd p))"

lemma closed_none: "closed none_given"
  unfolding closed_def using signals_alone unsignalled_journal by blast

lemma closed_given: "closed (given part refs)"
  unfolding closed_def signalled_def using drift_step by blast

subsection \<open>Appends\<close>

lemma appendOrFail_spec:
  assumes "\<And>d. decision \<noteq> Signal d"
  shows "io_spec (idle jd none_given) (appendOrFail jd decision part) (\<lambda>r. truth img (Inr r)) (\<lambda>e. truth img (Inl e))"
proof -
  have keep: "io_spec (idle jd none_given) (appendDecisionRecord jd decision) (\<lambda>_. idle jd none_given)
      (\<lambda>e p. idle jd none_given p \<and> no_controller_fault e)"
    unfolding appendDecisionRecord_def
    by (auto intro!: append_spec io_spec_throw split: option.splits)
  have "io_spec (idle jd none_given) (appendDecisionRecord jd decision) (\<lambda>_. idle jd none_given) (\<lambda>e. truth img (Inl e))"
    by (rule io_spec_weaken [OF keep]) (auto simp: idle_def intro: truth_unsignalled)
  then show ?thesis
    unfolding appendOrFail_def
  proof (rule io_spec_bind)
    show "io_spec (idle jd none_given)
      (case r of AppendStopped _ \<Rightarrow> io_throw (ControllerFault JOURNAL_STOPPED part)
       | Appended _ \<Rightarrow> io_return (Decided decision part)) (\<lambda>r. truth img (Inr r)) (\<lambda>e. truth img (Inl e))" for r
      using assms by (cases r) (auto intro!: io_spec_throw io_spec_return truth_unsignalled simp: idle_def)
  qed
qed

lemma redecide_spec:
  assumes "\<nexists>d. decideSignal (ds_img planned) (ds_context planned) t = Signal d"
  shows "io_spec (idle jd none_given) (redecide jd planned t part) (\<lambda>r. truth img (Inr r)) (\<lambda>e. truth img (Inl e))"
  unfolding redecide_def
  using appendOrFail_spec assms by (cases "decideSignal (ds_img planned) (ds_context planned) t") auto

subsection \<open>The signal\<close>

definition signal_of :: "signal_data \<Rightarrow> string \<Rightarrow> journal_entry \<Rightarrow> uuid4 \<Rightarrow> signal_transition" where
  "signal_of d part put token =
     \<lparr>st_partition = part, st_attempt_id = cer_attempt_id (sg_refs d),
      st_caller_event_id = cer_event_id (sg_refs d), st_event = put, st_token = token\<rparr>"

lemma signal_of_sel [simp]:
  "st_partition (signal_of d part put token) = part" "st_attempt_id (signal_of d part put token) = cer_attempt_id (sg_refs d)"
  "st_caller_event_id (signal_of d part put token) = cer_event_id (sg_refs d)" "st_event (signal_of d part put token) = put"
  "st_token (signal_of d part put token) = token"
  by (simp_all add: signal_of_def)

text \<open>What the store answers to the signal.\<close>

lemma state_signal_spec:
  assumes "mine (text_member (je_event put) ''event_id'')"
  shows "io_spec (reserving jd put none_given) (io_lift (state_signal (kd_store deps) (signal_of d part put token)))
    (\<lambda>oc p. answered jd put SIGNAL_JOURNAL_ACTION_INDEX oc (outcome_view none_given (given part (sg_refs d)) (plain_class oc)) p
       \<and> (\<forall>e. oc = ConditionFailed 0 e \<longrightarrow> \<not> conditionHolds
            (AllOf [AttributeEquals ''state'' (SString (state_text COMMITTED_WAITING)),
                    AttributeEquals ''targeted_attempt_id'' (SString (cer_attempt_id (sg_refs d)))]) e))
    (\<lambda>e p. no_controller_fault e \<and> (none_given (view (snd p)) \<or> given part (sg_refs d) (view (snd p))))"
proof -
  let ?t = "signal_of d part put token"
  let ?as = "[signal_update ?t, journalPutAction ExperimentJournalTable put]"
  have "given part (sg_refs d) (transact_effect ?as db)" if "transact_guard ?as db" "none_given db" for db
    using signal_effect [OF that(1), of part "sg_refs d" "text_member (je_event put) ''event_id''"] assms that(2)
    unfolding signalled_def drift_def by auto
  note spec = transact_spec [of jd "[signal_update ?t]" "[]" "given part (sg_refs d)" ?as none_given put token,
      OF _ _ closed_given this]
  show ?thesis
    unfolding state_signal_def signal_of_sel
    by (rule io_spec_weaken [OF spec])
      (auto simp: leaves_slots_def signal_update_def SIGNAL_JOURNAL_ACTION_INDEX_def action_guard_def)
qed

text \<open>The end of the signal, once its put is confirmed.\<close>

lemma judge_signal_spec:
  assumes d: "decideSignal (ds_img planned) (ds_context planned) t0 = Signal d" and img: "ds_img planned = img"
    and confirmed: "case confirmed of
        Confirmed _ \<Rightarrow> plain_class oc = OutcomeApplied
      | ConfirmStopped reason \<Rightarrow> reason = AMBIGUOUS_APPEND \<and> plain_class oc = OutcomeAmbiguous
      | NotApplied _ _ \<Rightarrow> plain_class oc = OutcomeNotApplied"
    and refused: "\<And>e. oc = ConditionFailed 0 e \<Longrightarrow> \<not> conditionHolds
            (AllOf [AttributeEquals ''state'' (SString (state_text COMMITTED_WAITING)),
                    AttributeEquals ''targeted_attempt_id'' (SString (cer_attempt_id (sg_refs d)))]) e"
  shows "io_spec (idle jd (outcome_view none_given (given part (sg_refs d)) (plain_class oc)))
    (judge_signal jd d planned part oc confirmed) (\<lambda>r. truth img (Inr r)) (\<lambda>e. truth img (Inl e))"
proof (cases confirmed)
  case (Confirmed ev)
  have "refs_of img (sg_refs d)" using d img readCallerTimeout_refs by (auto simp: decideSignal_signal)
  with Confirmed confirmed show ?thesis
    by (auto simp: judge_signal_def idle_def controller_truth_def intro!: io_spec_return)
next
  case (ConfirmStopped reason)
  have "refs_of img (sg_refs d)" using d img readCallerTimeout_refs by (auto simp: decideSignal_signal)
  with ConfirmStopped confirmed show ?thesis
    by (auto simp: judge_signal_def idle_def intro!: io_spec_throw truth_maybe(2))
next
  case (NotApplied ev oc')
  have fault: "io_spec (idle jd none_given) (io_throw (ControllerFault code part)) (\<lambda>r. truth img (Inr r)) (\<lambda>e. truth img (Inl e))"
    if "code \<noteq> SIGNAL_REDECIDED_TO_SIGNAL" for code
    using that by (auto intro!: io_spec_throw truth_unsignalled(2) simp: idle_def)
  have again: "\<nexists>d'. decideSignal (ds_img planned) (ds_context planned) t = Signal d'"
    if failed: "oc = ConditionFailed 0 existing" and t: "decodeTreatmentAfterConflict existing = Inr t" for existing t
  proof
    assume "\<exists>d'. decideSignal (ds_img planned) (ds_context planned) t = Signal d'"
    with decideSignal_again [OF d] obtain commit where
      "t = Some (CtCommittedWaiting commit)" "tc_targeted_attempt_id commit = cer_attempt_id (sg_refs d)" by blast
    with t obtain item where "existing = Some item" "decodeControllerTreatment item = Inr (CtCommittedWaiting commit)"
      by (auto simp: decodeTreatmentAfterConflict_def control_decoded_def split: option.splits sum.splits)
    with waiting_decodes [of item commit] refused [OF failed] \<open>tc_targeted_attempt_id commit = cer_attempt_id (sg_refs d)\<close>
    show False by simp
  qed
  have oc: "plain_class oc = OutcomeNotApplied" using confirmed NotApplied by simp
  show ?thesis
    unfolding NotApplied judge_signal_def oc
    using fault redecide_spec [OF again]
    by (auto split: write_outcome.splits sum.splits)
qed

lemma controller_signal_spec:
  assumes d: "decideSignal (ds_img planned) (ds_context planned) t0 = Signal d" and img: "ds_img planned = img"
  shows "io_spec (idle jd none_given) (controller_signal deps jd d planned part) (\<lambda>r. truth img (Inr r)) (\<lambda>e. truth img (Inl e))"
proof (rule io_spec_pre)
  fix p assume "idle jd none_given p"
  then have good: "good_journal jd" by (simp add: idle_def)
  have refs: "refs_of img (sg_refs d)" using d img readCallerTimeout_refs by (auto simp: decideSignal_signal)
  have prep: "io_spec (idle jd none_given) (prepareSignalRecord jd d)
     (\<lambda>r p. (case r of Prepared put \<Rightarrow> reserving jd put none_given p | PrepareStopped _ \<Rightarrow> idle jd none_given p)
        \<and> (\<forall>put. r = Prepared put \<longrightarrow> mine (text_member (je_event put) ''event_id'')))
     (\<lambda>e. truth img (Inl e))"
    unfolding prepareSignalRecord_def
    by (rule io_spec_weaken [OF io_spec_conj [OF prepare_spec [of jd none_given] prepared_mine [OF good]]])
      (auto dest: quiet_part intro: truth_unsignalled)
  have draw: "io_spec (reserving jd put none_given) (io_lift (kd_ids deps)) (\<lambda>_. reserving jd put none_given) (\<lambda>e. truth img (Inl e))" for put
    by (rule io_spec_weaken [OF calm_own_calls(2) [OF stable_states(3)]]) (auto simp: reserving_def intro: truth_unsignalled)
  have send: "io_spec (reserving jd put none_given) (io_lift (state_signal (kd_store deps) (signal_of d part put token)))
    (\<lambda>oc p. answered jd put SIGNAL_JOURNAL_ACTION_INDEX oc (outcome_view none_given (given part (sg_refs d)) (plain_class oc)) p
       \<and> (\<forall>e. oc = ConditionFailed 0 e \<longrightarrow> \<not> conditionHolds
            (AllOf [AttributeEquals ''state'' (SString (state_text COMMITTED_WAITING)),
                    AttributeEquals ''targeted_attempt_id'' (SString (cer_attempt_id (sg_refs d)))]) e))
    (\<lambda>e. truth img (Inl e))" if "mine (text_member (je_event put) ''event_id'')" for put token
    by (rule io_spec_weaken [OF state_signal_spec [OF that]]) (auto intro: truth_maybe(1) [OF _ refs])
  have confirm: "io_spec (answered jd put k oc W) (journal_confirm put oc k)
     (\<lambda>r p. idle jd W p \<and> (case r of
        Confirmed _ \<Rightarrow> plain_class oc = OutcomeApplied
      | ConfirmStopped reason \<Rightarrow> reason = AMBIGUOUS_APPEND \<and> plain_class oc = OutcomeAmbiguous
      | NotApplied _ _ \<Rightarrow> plain_class oc = OutcomeNotApplied)) (\<lambda>e. truth img (Inl e))" for put k oc W
    by (rule io_spec_weaken [OF confirm_spec]) auto
  have "io_spec (idle jd none_given) (controller_signal deps jd d planned part) (\<lambda>r. truth img (Inr r)) (\<lambda>e. truth img (Inl e))"
    unfolding controller_signal_def
  proof (rule io_spec_bind [OF prep], rule io_spec_conj_pre)
    fix r assume own: "\<forall>put. r = Prepared put \<longrightarrow> mine (text_member (je_event put) ''event_id'')"
    show "io_spec (\<lambda>p. case r of Prepared put \<Rightarrow> reserving jd put none_given p | PrepareStopped _ \<Rightarrow> idle jd none_given p)
      (case r of
       PrepareStopped _ \<Rightarrow> io_throw (ControllerFault JOURNAL_STOPPED part)
     | Prepared put \<Rightarrow>
         io_bind (io_lift (kd_ids deps)) (\<lambda>token.
         io_bind (io_lift (state_signal (kd_store deps)
            \<lparr>st_partition = part, st_attempt_id = cer_attempt_id (sg_refs d),
             st_caller_event_id = cer_event_id (sg_refs d), st_event = put, st_token = token\<rparr>)) (\<lambda>outcome.
         io_bind (journal_confirm put outcome SIGNAL_JOURNAL_ACTION_INDEX) (\<lambda>confirmed.
         judge_signal jd d planned part outcome confirmed))))
      (\<lambda>r. truth img (Inr r)) (\<lambda>e. truth img (Inl e))"
    proof (cases r)
      case (PrepareStopped reason)
      then show ?thesis by (auto intro!: io_spec_throw truth_unsignalled(2) simp: idle_def)
    next
      case (Prepared put)
      show ?thesis
        unfolding Prepared prepare_result.case signal_of_def [symmetric]
        by (rule io_spec_bind [OF draw], rule io_spec_bind [OF send], use own Prepared in simp,
            rule io_spec_conj_pre, rule io_spec_bind [OF confirm], rule io_spec_conj_pre)
          (rule judge_signal_spec [OF d img]; blast)
    qed
  qed
  with \<open>idle jd none_given p\<close> show "\<exists>P. P p \<and> io_spec P (controller_signal deps jd d planned part) (\<lambda>r. truth img (Inr r)) (\<lambda>e. truth img (Inl e))"
    by blast
qed

subsection \<open>The handler\<close>

definition planned_on :: "json \<Rightarrow> decision_in_scope \<Rightarrow> bool" where
  "planned_on img planned \<longleftrightarrow> ds_img planned = img
     \<and> (\<exists>t. ds_decision planned = decideSignal (ds_img planned) (ds_context planned) t)"

lemma planned_onI [simp]:
  "planned_on img \<lparr>ds_img = img, ds_decision = decideSignal img ctx t, ds_scope = scope, ds_context = ctx\<rparr>"
  unfolding planned_on_def by (intro conjI exI [of _ t]) simp_all

lemma unopened_truth: "unopened none_given p \<Longrightarrow> no_controller_fault e \<Longrightarrow> truth img (Inl e) p"
  by (auto simp: unopened_def intro: truth_unsignalled)

lemma read_spec:
  "io_spec (unopened none_given) (io_lift (controller_readControl (kd_store deps) k s decode))
     (\<lambda>_. unopened none_given) (\<lambda>e. truth img (Inl e))"
proof -
  have "io_calm (unopened none_given) (io_lift (item_get (kd_store deps) t key))" for t key
    by (rule stable_call [OF stable_states(1) get_law])
  then have get: "io_spec (unopened none_given) (io_lift (item_get (kd_store deps) t key)) (\<lambda>_. unopened none_given)
      (\<lambda>e. truth img (Inl e))" for t key
    by (rule io_spec_weaken) (auto intro: unopened_truth)
  show ?thesis
    unfolding controller_readControl_def io_lift_bind io_lift_return
    by (rule io_spec_bind [OF get]) (rule io_spec_return)
qed

lemma required_spec:
  "io_spec (unopened none_given) (io_of (controller_required part read)) (\<lambda>_. unopened none_given) (\<lambda>e. truth img (Inl e))"
  by (rule io_spec_of) (auto simp: controller_required_def unopened_def intro: truth_unsignalled split: sum.splits)

lemma plan_spec:
  "io_spec (unopened none_given) (io_lift (controller_plan deps streamed part))
     (\<lambda>r p. unopened none_given p \<and> (\<forall>planned. r = Some planned \<longrightarrow> planned_on (JObject (si_new_image streamed)) planned))
     (\<lambda>e. truth img (Inl e))"
proof -
  have load: "io_spec (unopened none_given)
     (io_lift (io_bind (controller_loadConfiguration (kd_store deps) part) (\<lambda>read.
             io_bind (io_of (controller_required (controller_key part) read)) (\<lambda>configuration.
             case configuration of
               None \<Rightarrow> io_return None
             | Some config \<Rightarrow>
                 io_bind (controller_loadTreatment (kd_store deps) part) (\<lambda>read'.
                 io_bind (io_of (controller_required (controller_key part) read')) (\<lambda>treatment.
                 io_return (Some \<lparr>ds_img = JObject (si_new_image streamed),
                    ds_decision = decideSignal (JObject (si_new_image streamed)) (ExperimentContext (kd_deployment deps) config) treatment,
                    ds_scope = experimentScope (kd_deployment deps) config,
                    ds_context = ExperimentContext (kd_deployment deps) config\<rparr>)))))))
     (\<lambda>r p. unopened none_given p \<and> (\<forall>planned. r = Some planned \<longrightarrow> planned_on (JObject (si_new_image streamed)) planned))
     (\<lambda>e. truth img (Inl e))" for part
    unfolding controller_loadConfiguration_def controller_loadTreatment_def io_lift_bind io_lift_of
    by (rule io_spec_bind [OF read_spec], rule io_spec_bind [OF required_spec])
      (auto intro!: io_spec_return io_spec_bind [OF read_spec] io_spec_bind [OF required_spec]
        simp: io_lift_bind io_lift_of io_lift_return simp del: decideSignal.simps split: option.splits)
  show ?thesis
  proof (cases "\<exists>canary. part = CanaryKey canary")
    case True
    then show ?thesis
      by (auto simp: controller_plan_def Let_def io_lift_return simp del: decideSignal.simps
          intro!: io_spec_return split: option.splits json.splits)
  next
    case False
    then show ?thesis
      unfolding controller_plan_def Let_def by (cases part) (simp_all only: controller_partition.case load, blast)
  qed
qed

lemma execute_spec:
  assumes "planned_on img planned"
  shows "io_spec (unopened none_given) (controller_execute deps planned part) (\<lambda>r. truth img (Inr r)) (\<lambda>e. truth img (Inl e))"
proof -
  have "io_spec (unopened none_given) (controller_openJournal deps scope) (\<lambda>jd. idle jd none_given) (\<lambda>e. truth img (Inl e))" for scope
    unfolding controller_openJournal_def controller_journal_def client_journal_def [symmetric]
    by (rule io_spec_weaken [OF open_spec]) (auto intro: truth_unsignalled)
  then show ?thesis
    unfolding controller_execute_def
  proof (rule io_spec_bind)
    fix jd
    from assms obtain t where t: "ds_decision planned = decideSignal (ds_img planned) (ds_context planned) t" "ds_img planned = img"
      by (auto simp: planned_on_def)
    show "io_spec (idle jd none_given)
      (case ds_decision planned of
         Signal decision \<Rightarrow> controller_signal deps jd decision planned part
       | decision \<Rightarrow> appendOrFail jd decision part) (\<lambda>r. truth img (Inr r)) (\<lambda>e. truth img (Inl e))"
      using controller_signal_spec [OF t(1) [symmetric, THEN trans] t(2)] appendOrFail_spec
      by (cases "ds_decision planned") auto
  qed
qed

lemma handle_spec:
  "io_spec (unopened none_given) (controller_handle deps streamed)
     (\<lambda>r. truth (JObject (si_new_image streamed)) (Inr r)) (\<lambda>e. truth (JObject (si_new_image streamed)) (Inl e))"
proof -
  let ?img = "JObject (si_new_image streamed)"
  have ignored: "io_spec (unopened none_given) (io_return (RecordIgnored i)) (\<lambda>r. truth ?img (Inr r)) (\<lambda>e. truth ?img (Inl e))" for i
    by (rule io_spec_return) (auto simp: unopened_def intro: truth_unsignalled)
  have run: "io_spec (unopened none_given)
     (io_bind (io_lift (controller_plan deps streamed part)) (\<lambda>planned.
                case planned of
                  None \<Rightarrow> io_return (RecordIgnored (Some (JString (controller_key part))))
                | Some p \<Rightarrow> controller_execute deps p (controller_key part)))
     (\<lambda>r. truth ?img (Inr r)) (\<lambda>e. truth ?img (Inl e))" for part
    by (rule io_spec_bind [OF plan_spec], rule io_spec_conj_pre) (auto intro: ignored execute_spec split: option.splits)
  show ?thesis
    unfolding controller_handle_def by (auto intro: ignored run split: option.splits)
qed

end

subsection \<open>The scripted instance\<close>

definition world_controller :: "execution_identity \<Rightarrow> world controller_deps" where
  "world_controller deployment =
     \<lparr>kd_deployment = deployment, kd_store = world_store, kd_ids = world_uuid, kd_wall = world_clock\<rparr>"

text \<open>The others store no signal under an identifier of ours.\<close>

definition no_signal :: "(uuid4 \<Rightarrow> bool) \<Rightarrow> stored_item \<Rightarrow> bool" where
  "no_signal mine item \<longleftrightarrow> (\<forall>i. own_member item ''signal_event_id'' = Some (JString i) \<longrightarrow> \<not> mine i)"

fun gives_no_signal :: "(uuid4 \<Rightarrow> bool) \<Rightarrow> write_action \<Rightarrow> bool" where
  "gives_no_signal mine (Put _ _ item _) \<longleftrightarrow> no_signal mine item"
| "gives_no_signal mine (Update _ _ sets _ _) \<longleftrightarrow> (\<forall>i. (''signal_event_id'', JString i) \<in> set sets \<longrightarrow> \<not> mine i)"
| "gives_no_signal mine (ConditionCheck _ _ _) \<longleftrightarrow> True"

definition leaves_signals :: "(uuid4 \<Rightarrow> bool) \<Rightarrow> write_action list \<Rightarrow> bool" where
  "leaves_signals mine as \<longleftrightarrow> leaves_journal ''treatment_controller'' mine as
     \<and> list_all (\<lambda>a. action_table a = ControlTable \<longrightarrow> gives_no_signal mine a) as"

abbreviation controller_world :: "(uuid4 \<Rightarrow> bool) \<Rightarrow> world \<Rightarrow> bool" where
  "controller_world mine \<equiv> client_world (leaves_signals mine) mine no_controller_fault"

lemma add_increments_text:
  "add_increments existing incs obj = Some obj' \<Longrightarrow> own_member obj' name = Some (JString s) \<Longrightarrow>
   own_member obj name = Some (JString s)"
  by (induction existing incs obj rule: add_increments.induct)
    (fastforce split: option.splits json.splits js_number.splits if_splits)+

lemma applyUpdate_text:
  assumes "applyUpdate previous k sets incs = Some item" and "own_member item name = Some (JString s)"
    and "name \<notin> {''pk'', ''sk''}"
  shows "(name, JString s) \<in> set sets \<or> (\<exists>old. previous = Some old \<and> own_member old name = Some (JString s))"
proof -
  from assms(1) obtain obj where "add_increments previous incs
      (obj_merge (case previous of None \<Rightarrow> key_members k | Some i \<Rightarrow> i) sets) = Some obj"
    and item: "item = obj_merge obj (key_members k)"
    by (auto simp: applyUpdate_def)
  from add_increments_text [OF this(1), of name s] assms(2,3)
  show ?thesis
    by (auto simp: item map_of_obj_merge key_members_def map_add_def split: option.splits dest: map_of_SomeD)
qed

lemma gives_no_signal_image:
  assumes "gives_no_signal mine a" and "nextImage a previous = Inr (Some item)"
    and "\<And>old. previous = Some old \<Longrightarrow> no_signal mine old"
  shows "no_signal mine item"
proof (cases a)
  case (Update t k sets incs c)
  with assms(2) have upd: "applyUpdate previous k sets incs = Some item" by (simp split: option.splits)
  show ?thesis
    unfolding no_signal_def
    using applyUpdate_text [OF upd, of "''signal_event_id''"] assms(1,3) Update by (auto simp: no_signal_def)
qed (use assms in auto)

lemma unsignalled_slots:
  "unsignalled mine db \<longleftrightarrow> (\<forall>k item. db ControlTable k = Some item \<longrightarrow> no_signal mine item)"
  by (auto simp: unsignalled_def no_signal_def)

lemma unsignalled_commits:
  "list_all (\<lambda>(t, k, item). t = ControlTable \<longrightarrow> no_signal mine item) commits \<Longrightarrow> unsignalled mine db \<Longrightarrow>
   unsignalled mine (apply_commits commits db)"
proof (induction commits arbitrary: db)
  case (Cons c commits)
  obtain t k item where c: "c = (t, k, item)" by (metis prod_cases3)
  with Cons.prems have "unsignalled mine (set_item t k item db)"
    by (auto simp: unsignalled_slots set_item_def split: if_splits)
  with Cons show ?case by (simp add: apply_commits_def c)
qed (simp add: apply_commits_def)

lemma others_unsignalled:
  assumes "(foreign_move (leaves_signals mine))\<^sup>*\<^sup>* db db'" and "unsignalled mine db"
  shows "unsignalled mine db'"
  using assms
proof (induction rule: rtranclp_induct)
  case (step db1 db2)
  then obtain as f where as: "leaves_signals mine as" and db2: "db2 = snd (store_transact f as db1)"
    by (auto simp: foreign_move_def)
  have clean: "unsignalled mine db1" using step by blast
  have "unsignalled mine (transact_effect as db1)"
    unfolding transact_effect_def
  proof (rule unsignalled_commits [OF _ clean])
    have "no_signal mine item"
      if "a \<in> set as" "nextImage a (db1 ControlTable (action_key a)) = Inr (Some item)" "action_table a = ControlTable" for a item
      using gives_no_signal_image [OF _ that(2)] that(1,3) as clean
      by (auto simp: leaves_signals_def list_all_iff unsignalled_slots)
    then show "list_all (\<lambda>(t, k, item). t = ControlTable \<longrightarrow> no_signal mine item) (concat (map (action_commits db1) as))"
      by (auto simp: list_all_iff split: sum.splits option.splits)
  qed
  then show ?case
    unfolding db2 using transaction.state_after [of f as db1 "fst (store_transact f as db1)" "snd (store_transact f as db1)"] clean
    by auto
qed

lemma world_controller_sel [simp]:
  "kd_store (world_controller deployment) = world_store" "kd_ids (world_controller deployment) = world_uuid"
  "kd_wall (world_controller deployment) = world_clock"
  by (simp_all add: world_controller_def)

interpretation scripted_controller: controller_environment
    wd_tables "controller_world mine" "(foreign_move (leaves_signals mine))\<^sup>*\<^sup>*" "world_controller deployment" mine
  for mine deployment
proof (intro controller_environment.intro controller_environment_axioms.intro, unfold world_controller_sel)
  show "journal_client world_store wd_tables (controller_world mine) (foreign_move (leaves_signals mine))\<^sup>*\<^sup>*
     world_uuid world_clock ''treatment_controller'' mine no_controller_fault"
    by (rule client_world_is_client) (simp_all add: leaves_signals_def)
  show "unsignalled mine db'" if "(foreign_move (leaves_signals mine))\<^sup>*\<^sup>* db db'" "unsignalled mine db" for db db'
    using others_unsignalled [OF that] .
qed

text \<open>
  C2: the controller tells the truth about the signal. Whatever the other writers do to the tables,
  however the store calls fail, and whatever the stream delivers: an outcome that says the signal
  was given means that at one moment the treatment of that partition waited for the caller of
  exactly the event's attempt, was not yet signalled by this invocation, and became
  TIMEOUT_SIGNALLED with the event of this record, nothing else of the control table changing; any
  other outcome and any fault means that this invocation gave no signal, only an ambiguous signal
  or an error from outside leaves it open; and the fault of a second decision to signal never
  occurs.
\<close>

theorem controller_tells_the_truth:
  assumes "controller_world mine w" and "unsignalled mine (wd_tables w)"
    and "\<forall>i scope n. mine i \<longrightarrow> wd_tables w ExperimentJournalTable
      (own_key (controller_journal (world_controller deployment) scope i) n) = None"
    and "run_state (controller_handle (world_controller deployment) streamed) (jw, w) = (r, (jw', w'))"
  shows "controller_truth mine (foreign_move (leaves_signals mine))\<^sup>*\<^sup>* (JObject (si_new_image streamed)) r (wd_tables w')"
  using io_specD [OF scripted_controller.handle_spec [of mine] _ assms(4)] assms(1-3) scripted_controller.closed_none [of mine]
  by (auto simp: scripted_controller.unopened_def own_key_def controller_journal_def split: sum.splits)

text \<open>A probe's treatment waits for the caller of attempt 901, whose timeout the stream delivers.\<close>

definition sample_timeout :: stream_insert_record where
  "sample_timeout = \<lparr>si_event_name = ''INSERT'', si_new_image =
     [(''pk'', JString (sample_id 900 @ ''#probe'')), (''sk'', JString ''probe_caller''),
      (''schema_version'', JNumber (JsInt 1)), (''record_type'', JString ''caller_timeout_recorded''),
      (''event_id'', JString (sample_id 903)), (''transport_probe_id'', JString (sample_id 900)),
      (''execution_manifest_sha256'', JString sample_digest), (''source'', JString ''probe_caller''),
      (''attempt_id'', JString (sample_id 901)), (''occurred_at'', JString ''2025-01-01T00:00:02.000Z''),
      (''source_instance_id'', JString (sample_id 904)), (''source_sequence'', JNumber (JsInt 1)),
      (''causation_event_ids'', JArray [JString (sample_id 905)]), (''provider_request_id'', JString (sample_id 902)),
      (''refund_request_id'', JString ''refund-1''), (''elapsed_ns'', JString ''2000000000''),
      (''monotonic_origin_event_id'', JString (sample_id 905)), (''dispatch_at'', JString ''2025-01-01T00:00:00.000Z''),
      (''deadline_at'', JString ''2025-01-01T00:00:02.000Z''), (''timer_fired_at'', JString ''2025-01-01T00:00:02.000Z''),
      (''abort_requested_at'', JString ''2025-01-01T00:00:02.000Z''), (''recorded_at'', JString ''2025-01-01T00:00:02.000Z''),
      (''arbiter_winner'', JString ''TIMER''), (''transport_settled_at_claim'', JBool False)],
     si_sequence_number = ''1''\<rparr>"

definition sample_treatments :: "item_key \<Rightarrow> stored_item option" where
  "sample_treatments =
     [\<lparr>pk = sample_id 900 @ ''#probe'', sk = ''config''\<rparr> \<mapsto>
        [(''execution_manifest_sha256'', JString sample_digest), (''registered_caller_id'', JString ''probe''),
         (''scenario'', JString ''COMMIT_THEN_TIMEOUT'')],
      \<lparr>pk = sample_id 900 @ ''#probe'', sk = TREATMENT_SORT_KEY\<rparr> \<mapsto>
        [(''state'', JString ''COMMITTED_WAITING''), (''version'', JNumber (JsInt 2)),
         (''targeted_attempt_id'', JString (sample_id 901)), (''provider_commit_id'', JString (sample_id 906)),
         (''commit_event_id'', JString (sample_id 907))]]"

definition sample_controller_world :: world where
  "sample_controller_world =
     \<lparr>wd_tables = (\<lambda>_ _. None)(ControlTable := sample_treatments), wd_calls = [],
      wd_now = 0, wd_ticks = [], wd_wall = [], wd_ids = sample_id, wd_drawn = 0, wd_slept = []\<rparr>"

theorem controller_tells_the_truth_witness:
  "\<exists>r jw' w'. run_state (controller_handle (world_controller sample_deployment) sample_timeout)
       (new_journal_writer, sample_controller_world) = (r, (jw', w'))
     \<and> controller_truth (\<lambda>i. i \<in> range sample_id) (foreign_move (leaves_signals (\<lambda>i. i \<in> range sample_id)))\<^sup>*\<^sup>*
          (JObject (si_new_image sample_timeout)) r (wd_tables w')"
proof -
  obtain r jw' w' where run: "run_state (controller_handle (world_controller sample_deployment) sample_timeout)
       (new_journal_writer, sample_controller_world) = (r, (jw', w'))" by (metis prod_cases3)
  have "controller_world (\<lambda>i. i \<in> range sample_id) sample_controller_world"
    by (auto simp: client_world_def script_allows_def sample_controller_world_def)
  moreover have "unsignalled (\<lambda>i. i \<in> range sample_id) (wd_tables sample_controller_world)"
    by (auto simp: unsignalled_def sample_controller_world_def sample_treatments_def split: if_splits)
  moreover have "wd_tables sample_controller_world ExperimentJournalTable k = None" for k
    by (simp add: sample_controller_world_def)
  ultimately show ?thesis
    using controller_tells_the_truth [of "\<lambda>i. i \<in> range sample_id" sample_controller_world sample_deployment
        sample_timeout new_journal_writer r jw' w'] run by auto
qed

end
