(* ===== verification/Control_Release.thy ===== *)
theory Control_Release
  imports Treatment_Items Journal_Client
begin

text \<open>
  The release of the treatment barriers by the cleanup (\<^verbatim>\<open>cleanup/control-barrier-release.ts\<close>): a
  bounded read-and-release loop over one treatment item, with a write conditioned on the state and
  version just read. The text of a failure's detail is not modelled.
\<close>

datatype barrier_release_outcome =
    ReleasedFrom treatment_state
  | NotHeld "treatment_state option"
  | ReleaseFailed

datatype release_decision = Release treatment_state int | ReleaseDone barrier_release_outcome

definition MAX_RELEASE_ATTEMPTS :: nat where "MAX_RELEASE_ATTEMPTS = 3"

definition isNonterminal :: "treatment_state \<Rightarrow> bool" where
  "isNonterminal state \<longleftrightarrow> state \<in> set NONTERMINAL_TREATMENT_STATES"

definition isTreatmentState :: "json option \<Rightarrow> bool" where
  "isTreatmentState state \<longleftrightarrow> member_is (is_text_of state_text TREATMENT_STATES) state"

definition isTreatmentVersion :: "json option \<Rightarrow> bool" where
  "isTreatmentVersion version \<longleftrightarrow> member_is is_positive_safe_number version"

definition decideFromItem :: "stored_item \<Rightarrow> release_decision" where
  "decideFromItem item =
     (if \<not> isTreatmentState (own_member item ''state'') \<or> \<not> isTreatmentVersion (own_member item ''version'')
      then ReleaseDone ReleaseFailed
      else (let state = of_text state_text TREATMENT_STATES ARMED (text_member item ''state'')
            in if \<not> isNonterminal state then ReleaseDone (NotHeld (Some state))
               else Release state (int_member item ''version'')))"

definition releaseAction :: "string \<Rightarrow> treatment_state \<Rightarrow> int \<Rightarrow> write_action" where
  "releaseAction part from version =
     Update ControlTable \<lparr>pk = part, sk = TREATMENT_SORT_KEY\<rparr>
       [(''state'', JString (state_text SAFETY_RELEASED)),
        (''safety_release_cause'', JString (cause_text CLEANUP_REQUEST))]
       [(''version'', 1)]
       (AllOf [AttributeEquals ''state'' (SString (state_text from)),
               AttributeEquals ''version'' (SNumber (JsInt version))])"

definition releaseOutcome :: "treatment_state \<Rightarrow> write_outcome \<Rightarrow> nat \<Rightarrow> barrier_release_outcome option" where
  "releaseOutcome from written attempt =
     (case written of
        Applied \<Rightarrow> Some (ReleasedFrom from)
      | ConditionFailed _ _ \<Rightarrow> if attempt < MAX_RELEASE_ATTEMPTS then None else Some ReleaseFailed
      | _ \<Rightarrow> Some ReleaseFailed)"

definition release_decide :: "'w durable_item_store \<Rightarrow> string \<Rightarrow> ('w, release_decision) io" where
  "release_decide store part =
     io_bind (item_get store ControlTable \<lparr>pk = part, sk = TREATMENT_SORT_KEY\<rparr>) (\<lambda>read.
     io_return (case read of
       Inl _ \<Rightarrow> ReleaseDone ReleaseFailed
     | Inr None \<Rightarrow> ReleaseDone (NotHeld None)
     | Inr (Some item) \<Rightarrow> decideFromItem item))"

function attemptRelease :: "'w durable_item_store \<Rightarrow> string \<Rightarrow> nat \<Rightarrow> ('w, barrier_release_outcome) io" where
  "attemptRelease store part attempt =
     io_bind (release_decide store part) (\<lambda>decision.
     case decision of
       ReleaseDone outcome \<Rightarrow> io_return outcome
     | Release from version \<Rightarrow>
         io_bind (item_write store (releaseAction part from version)) (\<lambda>written.
         case releaseOutcome from written attempt of
           Some outcome \<Rightarrow> io_return outcome
         | None \<Rightarrow> attemptRelease store part (attempt + 1)))"
  by pat_completeness auto
termination
  by (relation "measure (\<lambda>(_, _, attempt). MAX_RELEASE_ATTEMPTS - attempt)")
    (auto simp: releaseOutcome_def split: write_outcome.splits if_splits)

definition requestSafetyRelease :: "'w durable_item_store \<Rightarrow> string \<Rightarrow> ('w, barrier_release_outcome) io" where
  "requestSafetyRelease store part = attemptRelease store part 1"

declare attemptRelease.simps [simp del]

subsection \<open>The truth of a release\<close>

text \<open>The write of a release: out of a nonterminal state, at the version read, and nothing else.\<close>

definition release_moment :: "string \<Rightarrow> treatment_state \<Rightarrow> tables \<Rightarrow> tables \<Rightarrow> bool" where
  "release_moment part from db db' \<longleftrightarrow> (\<exists>item item' version.
     db ControlTable (treatment_slot part) = Some item
     \<and> own_member item ''state'' = Some (JString (state_text from)) \<and> isNonterminal from
     \<and> own_member item ''version'' = Some (JNumber (JsInt version))
     \<and> own_member item' ''state'' = Some (JString (state_text SAFETY_RELEASED))
     \<and> own_member item' ''safety_release_cause'' = Some (JString (cause_text CLEANUP_REQUEST))
     \<and> own_member item' ''version'' = Some (JNumber (JsInt (version + 1)))
     \<and> (\<forall>name. name \<notin> {''state'', ''safety_release_cause'', ''version'', ''pk'', ''sk''} \<longrightarrow>
          own_member item' name = own_member item name)
     \<and> db' = set_item ControlTable (treatment_slot part) item' db)"

definition release_truth ::
  "(tables \<Rightarrow> tables \<Rightarrow> bool) \<Rightarrow> string \<Rightarrow> tables \<Rightarrow> barrier_release_outcome \<Rightarrow> tables \<Rightarrow> bool" where
  "release_truth others part db outcome db' \<longleftrightarrow>
     (case outcome of
        ReleasedFrom from \<Rightarrow> \<exists>db1 db2. others\<^sup>*\<^sup>* db db1 \<and> release_moment part from db1 db2 \<and> others\<^sup>*\<^sup>* db2 db'
      | NotHeld None \<Rightarrow> \<exists>db1. others\<^sup>*\<^sup>* db db1 \<and> db1 ControlTable (treatment_slot part) = None \<and> others\<^sup>*\<^sup>* db1 db'
      | NotHeld (Some s) \<Rightarrow> \<exists>db1 item. others\<^sup>*\<^sup>* db db1 \<and> db1 ControlTable (treatment_slot part) = Some item
          \<and> own_member item ''state'' = Some (JString (state_text s)) \<and> \<not> isNonterminal s \<and> others\<^sup>*\<^sup>* db1 db'
      | ReleaseFailed \<Rightarrow> others\<^sup>*\<^sup>* db db'
          \<or> (\<exists>from db1 db2. others\<^sup>*\<^sup>* db db1 \<and> release_moment part from db1 db2 \<and> others\<^sup>*\<^sup>* db2 db'))"

lemma decideFromItem_release:
  "decideFromItem item = Release from version \<longleftrightarrow>
     own_member item ''state'' = Some (JString (state_text from)) \<and> isNonterminal from
     \<and> own_member item ''version'' = Some (JNumber (JsInt version)) \<and> 1 \<le> version \<and> version \<le> MAX_SAFE_INTEGER"
  by (auto simp: decideFromItem_def isTreatmentState_def isTreatmentVersion_def member_is_def is_text_of_state
      is_positive_safe_number_int text_member_def int_member_def Let_def split: option.splits)

lemma decideFromItem_done:
  "decideFromItem item = ReleaseDone (NotHeld s) \<longleftrightarrow>
     (\<exists>state. s = Some state \<and> own_member item ''state'' = Some (JString (state_text state)) \<and> \<not> isNonterminal state
       \<and> isTreatmentVersion (own_member item ''version''))"
  "decideFromItem item \<noteq> ReleaseDone (ReleasedFrom st)"
  by (auto simp: decideFromItem_def isTreatmentState_def member_is_def is_text_of_state
      text_member_def Let_def split: option.splits)

lemma release_effect:
  assumes "action_guard (releaseAction part from version) db" and "isNonterminal from"
    and "nextImage (releaseAction part from version) (db ControlTable (treatment_slot part)) = Inr (Some item')"
  shows "release_moment part from db (set_item ControlTable (treatment_slot part) item' db)"
proof -
  let ?sets = "[(''state'', JString (state_text SAFETY_RELEASED)), (''safety_release_cause'', JString (cause_text CLEANUP_REQUEST))]"
  from assms(1) obtain item where item: "db ControlTable (treatment_slot part) = Some item"
    "own_member item ''state'' = Some (JString (state_text from))"
    "own_member item ''version'' = Some (JNumber (JsInt version))"
    by (auto simp: action_guard_def releaseAction_def bind_eq_Some_conv)
  with assms(3) have upd: "applyUpdate (Some item) (treatment_slot part) ?sets [(''version'', 1)] = Some item'"
    by (simp add: releaseAction_def split: option.splits)
  note after = versioned_update [OF upd]
  have "own_member item' ''version'' = Some (JNumber (JsInt (version + 1)))"
    using bumped_version [OF upd item(3)] by simp
  moreover have "own_member item' name = own_member item name"
    if "name \<notin> {''state'', ''safety_release_cause'', ''version'', ''pk'', ''sk''}" for name
    using that by (simp add: after map_add_def)
  moreover have "own_member item' ''state'' = Some (JString (state_text SAFETY_RELEASED))"
    "own_member item' ''safety_release_cause'' = Some (JString (cause_text CLEANUP_REQUEST))"
    by (simp_all add: after)
  ultimately show ?thesis unfolding release_moment_def using item assms(2) by blast
qed

lemma release_truth_star: "release_truth others\<^sup>*\<^sup>* = release_truth others"
  by (intro ext) (unfold release_truth_def rtranclp_idemp, rule refl)

lemma decided_truth:
  assumes "others\<^sup>*\<^sup>* db db1" and "db1 ControlTable (treatment_slot part) = Some item"
  shows "case decideFromItem item of
      Release from version \<Rightarrow> isNonterminal from
    | ReleaseDone outcome \<Rightarrow> release_truth others part db outcome db1"
proof (cases "decideFromItem item")
  case (Release st version)
  moreover from this have "isNonterminal st" by (simp add: decideFromItem_release)
  ultimately show ?thesis by simp
next
  case (ReleaseDone outcome)
  show ?thesis
  proof (cases outcome)
    case (NotHeld s)
    with ReleaseDone obtain state where s: "s = Some state" "own_member item ''state'' = Some (JString (state_text state))"
      "\<not> isNonterminal state"
      by (auto simp: decideFromItem_done(1))
    have "release_truth others part db (NotHeld (Some state)) db1"
      unfolding release_truth_def barrier_release_outcome.case option.case
      using assms s(2,3) by (intro exI [of _ db1] exI [of _ item]) simp
    with ReleaseDone NotHeld s(1) show ?thesis by simp
  next
    case (ReleasedFrom st)
    with ReleaseDone decideFromItem_done(2) show ?thesis by simp
  next
    case ReleaseFailed
    with ReleaseDone assms(1) show ?thesis by (simp add: release_truth_def)
  qed
qed

context store_environment
begin

lemma rely_read: "rely\<^sup>*\<^sup>* db (view w) \<Longrightarrow> rely (view w) (view w') \<Longrightarrow> rely\<^sup>*\<^sup>* db (view w')"
  by (rule rtranclp.rtrancl_into_rtrancl)

lemma release_decide_spec:
  "io_spec (\<lambda>w. sane w \<and> rely\<^sup>*\<^sup>* db (view w)) (release_decide store part)
    (\<lambda>d w. sane w \<and> rely\<^sup>*\<^sup>* db (view w) \<and> (case d of
        Release from version \<Rightarrow> isNonterminal from
      | ReleaseDone outcome \<Rightarrow> release_truth rely part db outcome (view w)))
    (\<lambda>_ w. rely\<^sup>*\<^sup>* db (view w))"
proof (rule io_spec_caseI)
  fix w r w' assume w: "sane w \<and> rely\<^sup>*\<^sup>* db (view w)" and run: "run_state (release_decide store part) w = (r, w')"
  obtain a where read: "run_state (item_get store ControlTable (treatment_slot part)) w = (a, w')"
    using run by (auto simp: release_decide_def split: prod.splits sum.splits)
  note law = read_law [OF w [THEN conjunct1] read]
  then have d: "rely\<^sup>*\<^sup>* db (view w')" using w rely_read by blast
  show "case r of Inr d \<Rightarrow> sane w' \<and> rely\<^sup>*\<^sup>* db (view w') \<and> (case d of
        Release from version \<Rightarrow> isNonterminal from
      | ReleaseDone outcome \<Rightarrow> release_truth rely part db outcome (view w'))
    | Inl _ \<Rightarrow> rely\<^sup>*\<^sup>* db (view w')"
  proof (cases a)
    case (Inl e)
    with run read d show ?thesis by (auto simp: release_decide_def)
  next
    case (Inr v)
    show ?thesis
    proof (cases v)
      case (Inl code)
      with Inr run read d law show ?thesis by (auto simp: release_decide_def release_truth_def)
    next
      case (Inr found)
      with law \<open>a = Inr v\<close> have found: "found = view w' ControlTable (treatment_slot part)" by simp
      from run read \<open>a = Inr v\<close> Inr
      have r: "r = Inr (case found of None \<Rightarrow> ReleaseDone (NotHeld None) | Some item \<Rightarrow> decideFromItem item)"
        by (auto simp: release_decide_def)
      show ?thesis
      proof (cases found)
        case None
        then have "release_truth rely part db (NotHeld None) (view w')"
          unfolding release_truth_def barrier_release_outcome.case option.case using found d by auto
        with r None law d show ?thesis by simp
      next
        case (Some item)
        with decided_truth [OF d, of part item] found
        have "case decideFromItem item of
            Release from version \<Rightarrow> isNonterminal from
          | ReleaseDone outcome \<Rightarrow> release_truth rely part db outcome (view w')" by simp
        with r Some law d show ?thesis by simp
      qed
    qed
  qed
qed

text \<open>The write: released, not applied, or either of them.\<close>

lemma release_write_spec:
  assumes "isNonterminal from"
  shows "io_spec (\<lambda>w. sane w \<and> rely\<^sup>*\<^sup>* db (view w)) (item_write store (releaseAction part from version))
    (\<lambda>written w. sane w \<and> (case releaseOutcome from written attempt of
        Some outcome \<Rightarrow> release_truth rely part db outcome (view w)
      | None \<Rightarrow> rely\<^sup>*\<^sup>* db (view w)))
    (\<lambda>_ w. release_truth rely part db ReleaseFailed (view w))"
proof (rule io_spec_caseI)
  let ?a = "releaseAction part from version"
  fix w r w' assume w: "sane w \<and> rely\<^sup>*\<^sup>* db (view w)" and run: "run_state (item_write store ?a) w = (r, w')"
  from write_law [OF w [THEN conjunct1] run] obtain db1 where law: "sane w'" "rely (view w) db1"
    "case r of Inr outcome \<Rightarrow> (\<exists>f. store_write f ?a db1 = (outcome, view w'))
     | Inl _ \<Rightarrow> view w' = db1 \<or> (action_guard ?a db1 \<and> view w' = action_effect ?a db1)" by blast
  from w law(2) have d: "rely\<^sup>*\<^sup>* db db1" by auto
  have moved: "view w' = db1 \<or> release_moment part from db1 (view w')"
    if "action_guard ?a db1" "view w' = action_effect ?a db1"
    using release_effect [OF that(1) assms] that(2)
    by (auto simp: action_effect_def releaseAction_def split: option.splits)
  have maybe: "release_truth rely part db ReleaseFailed (view w')"
    if "view w' = db1 \<or> (action_guard ?a db1 \<and> view w' = action_effect ?a db1)"
    using that moved d unfolding release_truth_def barrier_release_outcome.case by (metis rtranclp.rtrancl_refl)
  show "case r of
      Inr written \<Rightarrow> sane w' \<and> (case releaseOutcome from written attempt of
        Some outcome \<Rightarrow> release_truth rely part db outcome (view w')
      | None \<Rightarrow> rely\<^sup>*\<^sup>* db (view w'))
    | Inl _ \<Rightarrow> release_truth rely part db ReleaseFailed (view w')"
  proof (cases r)
    case (Inl e)
    with law maybe show ?thesis by simp
  next
    case (Inr written)
    with law obtain f where f: "store_write f ?a db1 = (written, view w')" by auto
    show ?thesis
    proof (cases written)
      case Applied
      with f have ap: "action_guard ?a db1" "view w' = action_effect ?a db1" using single_write.applied by auto
      with f Applied have "\<exists>i. nextImage ?a (db1 ControlTable (treatment_slot part)) = Inr (Some i)"
        by (auto simp: store_write_cases execute_single releaseAction_def split: option.splits scripted_fault.splits if_splits)
      with release_effect [OF ap(1) assms] ap(2) have "release_moment part from db1 (view w')"
        by (auto simp: action_effect_def releaseAction_def)
      with Applied Inr law(1) d show ?thesis by (auto simp: releaseOutcome_def release_truth_def)
    next
      case (ConditionFailed n e)
      with f have "view w' = db1" using single_write.not_applied by auto
      with ConditionFailed Inr law(1) d show ?thesis by (auto simp: releaseOutcome_def release_truth_def)
    next
      case (DefinitiveFailure c)
      with Inr law(1) maybe single_write.state_after [OF f] show ?thesis by (auto simp: releaseOutcome_def)
    next
      case (Ambiguous c)
      with Inr law(1) maybe single_write.state_after [OF f] show ?thesis by (auto simp: releaseOutcome_def)
    qed
  qed
qed

lemma attemptRelease_spec:
  "io_spec (\<lambda>w. sane w \<and> rely\<^sup>*\<^sup>* db (view w)) (attemptRelease store part attempt)
    (\<lambda>outcome w. release_truth rely part db outcome (view w))
    (\<lambda>_ w. release_truth rely part db ReleaseFailed (view w))"
proof (induction "MAX_RELEASE_ATTEMPTS - attempt" arbitrary: attempt rule: less_induct)
  case less
  have decide: "io_spec (\<lambda>w. sane w \<and> rely\<^sup>*\<^sup>* db (view w)) (release_decide store part)
    (\<lambda>d w. sane w \<and> rely\<^sup>*\<^sup>* db (view w) \<and> (case d of
        Release from version \<Rightarrow> isNonterminal from
      | ReleaseDone outcome \<Rightarrow> release_truth rely part db outcome (view w)))
    (\<lambda>_ w. release_truth rely part db ReleaseFailed (view w))"
    by (rule io_spec_weaken [OF release_decide_spec]) (auto simp: release_truth_def)
  have again: "io_spec (\<lambda>w. sane w \<and> rely\<^sup>*\<^sup>* db (view w)) (attemptRelease store part (attempt + 1))
      (\<lambda>outcome w. release_truth rely part db outcome (view w))
      (\<lambda>_ w. release_truth rely part db ReleaseFailed (view w))" if "releaseOutcome st written attempt = None" for st written
    by (rule less) (use that in \<open>auto simp: releaseOutcome_def split: write_outcome.splits if_splits\<close>)
  show ?case
    unfolding attemptRelease.simps [of store part attempt]
  proof (rule io_spec_bind [OF decide])
    fix d
    let ?post = "\<lambda>outcome w. release_truth rely part db outcome (view w)"
    let ?fail = "\<lambda>_ w. release_truth rely part db ReleaseFailed (view w)"
    show "io_spec (\<lambda>w. sane w \<and> rely\<^sup>*\<^sup>* db (view w) \<and> (case d of
        Release from version \<Rightarrow> isNonterminal from | ReleaseDone outcome \<Rightarrow> ?post outcome w))
      (case d of
         ReleaseDone outcome \<Rightarrow> io_return outcome
       | Release from version \<Rightarrow>
           io_bind (item_write store (releaseAction part from version)) (\<lambda>written.
           case releaseOutcome from written attempt of
             Some outcome \<Rightarrow> io_return outcome
           | None \<Rightarrow> attemptRelease store part (attempt + 1))) ?post ?fail"
    proof (cases d)
      case (ReleaseDone outcome)
      then show ?thesis by (auto intro!: io_spec_return)
    next
      case (Release st version)
      have next_try: "io_spec (\<lambda>w. sane w \<and> (case releaseOutcome st written attempt of
            Some outcome \<Rightarrow> ?post outcome w | None \<Rightarrow> rely\<^sup>*\<^sup>* db (view w)))
        (case releaseOutcome st written attempt of
           Some outcome \<Rightarrow> io_return outcome | None \<Rightarrow> attemptRelease store part (attempt + 1)) ?post ?fail" for written
        using again [of st written] by (cases "releaseOutcome st written attempt") (auto intro!: io_spec_return)
      have "io_spec (\<lambda>w. sane w \<and> rely\<^sup>*\<^sup>* db (view w))
        (io_bind (item_write store (releaseAction part st version)) (\<lambda>written.
           case releaseOutcome st written attempt of
             Some outcome \<Rightarrow> io_return outcome
           | None \<Rightarrow> attemptRelease store part (attempt + 1))) ?post ?fail" if "isNonterminal st"
        by (rule io_spec_bind [OF release_write_spec [OF that] next_try])
      then show ?thesis using Release by (auto simp: io_spec_def)
    qed
  qed
qed

end


text \<open>The controller signals between the cleanup's first read and its write; the second attempt releases.\<close>

definition sample_release_world :: world where
  "sample_release_world =
     \<lparr>wd_tables = (\<lambda>_ _. None)(ControlTable := [treatment_slot ''p'' \<mapsto>
        [(''state'', JString ''COMMITTED_WAITING''), (''version'', JNumber (JsInt 2))]]),
      wd_calls = [quiet_call, quiet_call\<lparr>wc_foreign := [[Update ControlTable (treatment_slot ''p'')
         [(''state'', JString ''TIMEOUT_SIGNALLED'')] [(''version'', 1)] (AllOf [])]]\<rparr>],
      wd_now = 0, wd_ticks = [], wd_wall = [], wd_ids = sample_id, wd_drawn = 0, wd_slept = []\<rparr>"


end
