(* ===== verification/Treatment_Protocol.thy ===== *)
theory Treatment_Protocol
  imports Refund_Provider Treatment_Controller Control_Release
begin

text \<open>
  The treatment as a protocol between the provider, the controller and the cleanup. Its abstract
  specification is a step relation on treatments; every transaction the three of them build, with
  any outcome of the store, is one step or none on the decoded item. What holds of every run of
  the relation therefore holds of the stored treatment: the fields present follow the state, no
  identity is ever replaced, a released response was signalled and observed before, and no
  treatment takes more than four steps.
\<close>

subsection \<open>The abstract protocol\<close>

definition advance :: "treatment_item \<Rightarrow> treatment_state \<Rightarrow> (string \<rightharpoonup> uuid4) \<Rightarrow> treatment_item" where
  "advance t state ids = t\<lparr>ti_state := state, ti_version := ti_version t + 1, ti_ids := ti_ids t ++ ids\<rparr>"

definition commit_fields :: "string set" where
  "commit_fields = {''targeted_attempt_id'', ''provider_request_id'', ''provider_call_id'', ''provider_commit_id'',
     ''provider_transaction_id'', ''commit_event_id''}"

definition signal_fields :: "string set" where
  "signal_fields = {''signal_event_id'', ''signal_caller_event_id''}"

definition observe_fields :: "string set" where "observe_fields = {''observed_event_id''}"

definition respond_fields :: "string set" where "respond_fields = {''release_event_id''}"

lemma fields_disjoint:
  "commit_fields \<inter> signal_fields = {}" "(commit_fields \<union> signal_fields) \<inter> observe_fields = {}"
  "(commit_fields \<union> signal_fields \<union> observe_fields) \<inter> respond_fields = {}"
  by (simp_all add: commit_fields_def signal_fields_def observe_fields_def respond_fields_def)

inductive treatment_step :: "treatment_item \<Rightarrow> treatment_item \<Rightarrow> bool" where
  committed: "ti_state t = ARMED \<Longrightarrow> dom ids = commit_fields \<Longrightarrow> treatment_step t (advance t COMMITTED_WAITING ids)"
| signalled: "ti_state t = COMMITTED_WAITING \<Longrightarrow> dom ids = signal_fields \<Longrightarrow>
    treatment_step t (advance t TIMEOUT_SIGNALLED ids)"
| observed: "ti_state t = TIMEOUT_SIGNALLED \<Longrightarrow> dom ids = observe_fields \<Longrightarrow>
    treatment_step t (advance t TIMEOUT_OBSERVED ids)"
| responded: "ti_state t = TIMEOUT_OBSERVED \<Longrightarrow> dom ids = respond_fields \<Longrightarrow>
    treatment_step t (advance t RESPONSE_RELEASED ids)"
| expired: "ti_state t \<in> {COMMITTED_WAITING, TIMEOUT_SIGNALLED} \<Longrightarrow>
    treatment_step t (advance t SAFETY_RELEASED Map.empty\<lparr>ti_cause := Some SAFETY_DEADLINE\<rparr>)"
| cleaned: "isNonterminal (ti_state t) \<Longrightarrow>
    treatment_step t (advance t SAFETY_RELEASED Map.empty\<lparr>ti_cause := Some CLEANUP_REQUEST\<rparr>)"

inductive_cases treatment_stepE: "treatment_step t t'"

subsection \<open>What holds of every run\<close>

text \<open>The identities an item of a state has recorded.\<close>

fun fields_of :: "treatment_state \<Rightarrow> string set set" where
  "fields_of ARMED = {{}}"
| "fields_of COMMITTED_WAITING = {commit_fields}"
| "fields_of TIMEOUT_SIGNALLED = {commit_fields \<union> signal_fields}"
| "fields_of TIMEOUT_OBSERVED = {commit_fields \<union> signal_fields \<union> observe_fields}"
| "fields_of RESPONSE_RELEASED = {commit_fields \<union> signal_fields \<union> observe_fields \<union> respond_fields}"
| "fields_of SAFETY_RELEASED =
     {{}, commit_fields, commit_fields \<union> signal_fields, commit_fields \<union> signal_fields \<union> observe_fields}"

definition treatment_ok :: "treatment_item \<Rightarrow> bool" where
  "treatment_ok t \<longleftrightarrow> dom (ti_ids t) \<in> fields_of (ti_state t) \<and> (ti_cause t \<noteq> None \<longleftrightarrow> ti_state t = SAFETY_RELEASED)"

lemma nonterminal_fields: "isNonterminal s \<Longrightarrow> fields_of s \<subseteq> fields_of SAFETY_RELEASED"
  by (cases s) (simp_all add: isNonterminal_def NONTERMINAL_TREATMENT_STATES_def)

lemma nonterminal_cases: "isNonterminal s \<longleftrightarrow> s \<noteq> RESPONSE_RELEASED \<and> s \<noteq> SAFETY_RELEASED"
  by (cases s) (simp_all add: isNonterminal_def NONTERMINAL_TREATMENT_STATES_def)

lemma step_ok: "treatment_step t t' \<Longrightarrow> treatment_ok t \<Longrightarrow> treatment_ok t'"
proof (induction rule: treatment_step.induct)
  case (expired t)
  then have "isNonterminal (ti_state t)" by (auto simp: nonterminal_cases)
  from nonterminal_fields [OF this] expired show ?case
    by (simp add: treatment_ok_def advance_def subset_iff del: fields_of.simps)
next
  case (cleaned t)
  with nonterminal_fields [OF cleaned(1)] show ?case
    by (simp add: treatment_ok_def advance_def subset_iff del: fields_of.simps)
qed (simp_all add: treatment_ok_def advance_def Un_ac)

lemma step_keeps_ids: "treatment_step t t' \<Longrightarrow> treatment_ok t \<Longrightarrow> ti_ids t \<subseteq>\<^sub>m ti_ids t'"
proof -
  have keep: "m \<subseteq>\<^sub>m m ++ m'" if "dom m \<inter> dom m' = {}" for m m' :: "string \<rightharpoonup> uuid4"
    using map_add_comm [OF that] by (metis map_le_map_add)
  assume "treatment_step t t'" and "treatment_ok t"
  then show ?thesis
    by (elim treatment_stepE) (simp_all add: treatment_ok_def advance_def keep fields_disjoint)
qed

text \<open>How many steps are left at most.\<close>

fun steps_left :: "treatment_state \<Rightarrow> nat" where
  "steps_left ARMED = 4"
| "steps_left COMMITTED_WAITING = 3"
| "steps_left TIMEOUT_SIGNALLED = 2"
| "steps_left TIMEOUT_OBSERVED = 1"
| "steps_left RESPONSE_RELEASED = 0"
| "steps_left SAFETY_RELEASED = 0"

lemma step_measure:
  "treatment_step t t' \<Longrightarrow> steps_left (ti_state t') < steps_left (ti_state t) \<and> ti_version t' = ti_version t + 1"
  by (erule treatment_stepE) (auto simp: advance_def isNonterminal_def NONTERMINAL_TREATMENT_STATES_def)

lemma run_ok: "treatment_step\<^sup>*\<^sup>* t t' \<Longrightarrow> treatment_ok t \<Longrightarrow> treatment_ok t' \<and> ti_ids t \<subseteq>\<^sub>m ti_ids t'"
  by (induction rule: rtranclp_induct) (auto dest: step_ok step_keeps_ids intro: map_le_trans)

lemma run_measure:
  "treatment_step\<^sup>*\<^sup>* t t' \<Longrightarrow>
   ti_version t \<le> ti_version t' \<and> ti_version t' + int (steps_left (ti_state t')) \<le> ti_version t + int (steps_left (ti_state t))"
  by (induction rule: rtranclp_induct) (auto dest!: step_measure)

lemma run_terminal: "treatment_step\<^sup>*\<^sup>* t t' \<Longrightarrow> \<not> isNonterminal (ti_state t) \<Longrightarrow> t' = t"
  by (induction rule: converse_rtranclp_induct)
    (auto elim!: treatment_stepE simp: isNonterminal_def NONTERMINAL_TREATMENT_STATES_def)

subsection \<open>Stored items and treatments\<close>

definition represents :: "stored_item \<Rightarrow> treatment_item \<Rightarrow> bool" where
  "represents item t \<longleftrightarrow>
     own_member item ''state'' = Some (JString (state_text (ti_state t)))
     \<and> own_member item ''version'' = Some (JNumber (JsInt (ti_version t)))
     \<and> 1 \<le> ti_version t \<and> ti_version t \<le> MAX_SAFE_INTEGER
     \<and> (\<forall>f\<in>set TREATMENT_ID_FIELDS. own_member item f = map_option JString (ti_ids t f))
     \<and> (\<forall>f i. ti_ids t f = Some i \<longrightarrow> f \<in> set TREATMENT_ID_FIELDS \<and> UUID4_PATTERN i)
     \<and> own_member item ''safety_release_cause'' = map_option (\<lambda>c. JString (cause_text c)) (ti_cause t)"

lemma treatmentOf_ids:
  "treatmentOf st n item c = t \<Longrightarrow> (\<forall>f\<in>set TREATMENT_ID_FIELDS. \<forall>v. own_member item f = Some v \<longrightarrow> isUuid4 v) \<Longrightarrow>
   (\<forall>f\<in>set TREATMENT_ID_FIELDS. own_member item f = map_option JString (ti_ids t f))
   \<and> (\<forall>f i. ti_ids t f = Some i \<longrightarrow> f \<in> set TREATMENT_ID_FIELDS \<and> UUID4_PATTERN i)"
  by (force simp: treatmentOf_def member_is_def text_member_def isUuid4_text split: option.splits)

lemma decodeTreatmentItem_represents: "decodeTreatmentItem item = Inr t \<longleftrightarrow> represents item t"
proof
  let ?bad = "List.find (\<lambda>fld. own_member item fld \<noteq> None \<and> \<not> member_is isUuid4 (own_member item fld)) TREATMENT_ID_FIELDS"
  have bad: "?bad = None \<longleftrightarrow> (\<forall>f\<in>set TREATMENT_ID_FIELDS. \<forall>v. own_member item f = Some v \<longrightarrow> isUuid4 v)"
    by (auto simp: find_None_all member_is_def split: option.splits)
  {
    assume dec: "decodeTreatmentItem item = Inr t"
    then have st: "member_is (is_text_of state_text TREATMENT_STATES) (own_member item ''state'')"
      and vn: "member_is is_positive_safe_number (own_member item ''version'')" and ok: "?bad = None"
      by (auto simp: decodeTreatmentItem_def split: if_splits option.splits)
    from st obtain s where s: "own_member item ''state'' = Some (JString (state_text s))"
      by (auto simp: member_is_def is_text_of_state split: option.splits)
    from vn obtain n where n: "own_member item ''version'' = Some (JNumber (JsInt n))" "1 \<le> n" "n \<le> MAX_SAFE_INTEGER"
      by (auto simp: member_is_def is_positive_safe_number_int split: option.splits)
    let ?cause = "own_member item ''safety_release_cause''"
    from dec st vn ok obtain c where c: "?cause = map_option (\<lambda>c. JString (cause_text c)) c" "t = treatmentOf s n item c"
      by (cases ?cause) (auto simp: decodeTreatmentItem_def Let_def member_is_def is_text_of_cause text_member_def int_member_def s n
          split: if_splits, metis option.map(2))
    with s n treatmentOf_ids [OF c(2) [symmetric]] ok bad show "represents item t"
      by (auto simp: represents_def treatmentOf_def)
  }
  assume rep: "represents item t"
  then have "\<forall>f\<in>set TREATMENT_ID_FIELDS. \<forall>v. own_member item f = Some v \<longrightarrow> isUuid4 v"
    by (auto simp: represents_def isUuid4_text)
  then have ok: "?bad = None" by (simp only: bad)
  have ids: "(\<lambda>f. if f \<in> set TREATMENT_ID_FIELDS \<and> member_is isUuid4 (own_member item f) then Some (text_member item f) else None) = ti_ids t"
  proof
    fix f
    show "(if f \<in> set TREATMENT_ID_FIELDS \<and> member_is isUuid4 (own_member item f) then Some (text_member item f) else None) = ti_ids t f"
      using rep by (cases "ti_ids t f") (auto simp: represents_def member_is_def text_member_def isUuid4_text)
  qed
  have "of_text cause_text SAFETY_RELEASE_CAUSES CLEANUP_REQUEST (text_member item ''safety_release_cause'') = c"
    if "ti_cause t = Some c" for c using rep that by (simp add: represents_def text_member_def)
  with rep ok ids show "decodeTreatmentItem item = Inr t"
    by (cases "ti_cause t")
      (auto simp: decodeTreatmentItem_def represents_def treatmentOf_def member_is_def is_text_of_state is_text_of_cause
        is_positive_safe_number_int text_member_def int_member_def Let_def)
qed

text \<open>An update that sets the state, some identities and perhaps a cause, one version up.\<close>

lemma update_represents:
  assumes upd: "applyUpdate (Some item) k sets [(''version'', 1)] = Some item'" and rep: "represents item t"
    and state: "map_of (rev sets) ''state'' = Some (JString (state_text s))"
    and ids: "\<forall>f\<in>set TREATMENT_ID_FIELDS. map_of (rev sets) f = map_option JString (ids f)"
      "\<forall>f i. ids f = Some i \<longrightarrow> f \<in> set TREATMENT_ID_FIELDS \<and> UUID4_PATTERN i"
    and cause: "map_of (rev sets) ''safety_release_cause'' = map_option (\<lambda>c. JString (cause_text c)) cause"
  shows "represents item' (advance t s ids\<lparr>ti_cause := (case cause of None \<Rightarrow> ti_cause t | c \<Rightarrow> c)\<rparr>)"
proof -
  note after = versioned_update [OF upd]
  have "own_member item' ''version'' = Some (JNumber (JsInt (ti_version t + 1))) \<and> \<bar>ti_version t + 1\<bar> \<le> MAX_SAFE_INTEGER"
    using bumped_version [OF upd] rep by (simp add: represents_def)
  moreover have "own_member item' ''state'' = Some (JString (state_text s))"
    using after [of "''state''"] state by (simp add: map_add_def)
  moreover have "own_member item' f = map_option JString ((ti_ids t ++ ids) f)" if "f \<in> set TREATMENT_ID_FIELDS" for f
  proof -
    from that have "f \<notin> {''version'', ''pk'', ''sk''}" by (auto simp: TREATMENT_ID_FIELDS_def)
    from after [OF this] ids(1) that rep show ?thesis
      by (cases "ids f") (auto simp: represents_def map_add_def)
  qed
  moreover have "own_member item' ''safety_release_cause'' =
      map_option (\<lambda>c. JString (cause_text c)) (case cause of None \<Rightarrow> ti_cause t | c \<Rightarrow> c)"
    using after [of "''safety_release_cause''"] cause rep
    by (cases cause) (simp_all add: represents_def map_add_def)
  ultimately show ?thesis
    using rep ids(2) unfolding represents_def advance_def
    by (auto simp: map_add_def split: option.splits)
qed

subsection \<open>The transactions of the writers\<close>

text \<open>
  The transactions the provider's commit, its barrier, the controller and the cleanup build (with
  identifiers that are UUIDs, which the drawing of identifiers and the readers of requests and
  events ensure), and those of everybody else, which do not touch this treatment.
\<close>

inductive protocol_transaction :: "string \<Rightarrow> write_action list \<Rightarrow> bool" for part where
  by_commit: "in_partition inp = part \<Longrightarrow>
    list_all UUID4_PATTERN [acc_attempt_id (in_call inp), acc_provider_request_id (in_call inp), in_call_id inp,
      cid_commit_id (in_identities inp), cid_transaction_id (in_identities inp), event_id_of (je_event (in_commit_event inp))] \<Longrightarrow>
    protocol_transaction part (pl_actions (planCommit inp))"
| by_barrier: "tt_partition t = part \<Longrightarrow> UUID4_PATTERN i \<Longrightarrow> tt_set t = transition_sets (tt_to t) attr i \<Longrightarrow>
    (tt_from t, tt_to t, attr) \<in> {(TIMEOUT_SIGNALLED, TIMEOUT_OBSERVED, Some ''observed_event_id''),
      (TIMEOUT_OBSERVED, RESPONSE_RELEASED, Some ''release_event_id''), (COMMITTED_WAITING, SAFETY_RELEASED, None),
      (TIMEOUT_SIGNALLED, SAFETY_RELEASED, None)} \<Longrightarrow>
    protocol_transaction part [transition_update t, journalPutAction ExperimentJournalTable (tt_event t)]"
| by_controller: "st_partition s = part \<Longrightarrow>
    list_all UUID4_PATTERN [text_member (je_event (st_event s)) ''event_id'', st_caller_event_id s] \<Longrightarrow>
    protocol_transaction part [signal_update s, journalPutAction ExperimentJournalTable (st_event s)]"
| by_cleanup: "isNonterminal state \<Longrightarrow> protocol_transaction part [releaseAction part state version]"
| by_others: "list_all (\<lambda>a. action_table a \<noteq> ControlTable \<or> action_key a \<noteq> treatment_slot part) as \<Longrightarrow>
    protocol_transaction part as"

text \<open>A transaction whose only action on the treatment is a versioned update.\<close>

lemma apply_commits_other: "\<forall>c\<in>set cs. fst c \<noteq> t \<or> fst (snd c) \<noteq> k \<Longrightarrow> apply_commits cs db t k = db t k"
  by (induction cs arbitrary: db) (auto simp: apply_commits_def set_item_def split: prod.splits)

lemma apply_commits_append: "apply_commits (cs @ cs') db = apply_commits cs' (apply_commits cs db)"
  by (simp add: apply_commits_def)

lemma apply_commits_Cons: "apply_commits ((t, k, i) # cs) db = apply_commits cs (set_item t k i db)"
  by (simp add: apply_commits_def)

lemma other_commits:
  "list_all (\<lambda>a. action_table a \<noteq> t \<or> action_key a \<noteq> k) as \<Longrightarrow>
   \<forall>c\<in>set (concat (map (action_commits db) as)). fst c \<noteq> t \<or> fst (snd c) \<noteq> k"
  by (auto simp: list_all_iff split: sum.splits option.splits)

lemma versioned_transaction:
  assumes store: "store_transact f as db = (oc, db')"
    and item: "db ControlTable (treatment_slot part) = Some item"
    and split: "as = before @ Update ControlTable (treatment_slot part) sets [(''version'', 1)] c # after"
    and others: "list_all (\<lambda>a. action_table a \<noteq> ControlTable \<or> action_key a \<noteq> treatment_slot part) before"
      "list_all (\<lambda>a. action_table a \<noteq> ControlTable \<or> action_key a \<noteq> treatment_slot part) after"
  shows "db' ControlTable (treatment_slot part) = Some item
    \<or> (\<exists>item'. conditionHolds c (Some item) \<and> db' ControlTable (treatment_slot part) = Some item'
       \<and> applyUpdate (Some item) (treatment_slot part) sets [(''version'', 1)] = Some item')"
proof -
  let ?u = "Update ControlTable (treatment_slot part) sets [(''version'', 1)] c"
  consider "db' = db" | "transact_guard as db" "db' = transact_effect as db"
    using transaction.state_after [OF store] by blast
  then show ?thesis
  proof cases
    case 2
    then have "action_guard ?u db" "\<not> action_refused db ?u" by (simp_all add: transact_guard_def split)
    with item obtain item' where u: "conditionHolds c (Some item)"
      "applyUpdate (Some item) (treatment_slot part) sets [(''version'', 1)] = Some item'"
      by (auto simp: action_guard_def action_refused_def split: option.splits)
    then have "concat (map (action_commits db) as) = concat (map (action_commits db) before)
        @ (ControlTable, treatment_slot part, item') # concat (map (action_commits db) after)"
      using item by (simp add: split)
    with 2(2) have "db' = apply_commits (concat (map (action_commits db) after))
        (set_item ControlTable (treatment_slot part) item' (apply_commits (concat (map (action_commits db) before)) db))"
      by (simp only: transact_effect_def apply_commits_append apply_commits_Cons)
    then have "db' ControlTable (treatment_slot part) = Some item'"
      by (simp only: apply_commits_other [OF other_commits [OF others(2)]]) (simp add: set_item_def)
    with u show ?thesis by blast
  qed (simp add: item)
qed

lemma protocol_update:
  assumes store: "store_transact f as db = (oc, db')"
    and item: "db ControlTable (treatment_slot part) = Some item" and rep: "represents item t"
    and split: "as = before @ Update ControlTable (treatment_slot part) sets [(''version'', 1)] c # after"
    and others: "list_all (\<lambda>a. action_table a \<noteq> ControlTable \<or> action_key a \<noteq> treatment_slot part) before"
      "list_all (\<lambda>a. action_table a \<noteq> ControlTable \<or> action_key a \<noteq> treatment_slot part) after"
    and sets: "map_of (rev sets) ''state'' = Some (JString (state_text s))"
      "\<forall>f\<in>set TREATMENT_ID_FIELDS. map_of (rev sets) f = map_option JString (ids f)"
      "\<forall>f i. ids f = Some i \<longrightarrow> f \<in> set TREATMENT_ID_FIELDS \<and> UUID4_PATTERN i"
      "map_of (rev sets) ''safety_release_cause'' = map_option (\<lambda>c. JString (cause_text c)) cause"
    and step: "conditionHolds c (Some item) \<Longrightarrow>
      treatment_step t (advance t s ids\<lparr>ti_cause := (case cause of None \<Rightarrow> ti_cause t | c \<Rightarrow> c)\<rparr>)"
  shows "\<exists>item' t'. db' ControlTable (treatment_slot part) = Some item' \<and> represents item' t' \<and> treatment_step\<^sup>=\<^sup>= t t'"
  using versioned_transaction [OF store item split others] rep step update_represents [OF _ rep sets] by blast

lemma advance_same_cause [simp]: "advance t s ids\<lparr>ti_cause := ti_cause t\<rparr> = advance t s ids"
  by (simp add: advance_def)

lemma state_condition:
  "represents item t \<Longrightarrow> conditionHolds (AttributeEquals ''state'' (SString (state_text s))) (Some item) \<longleftrightarrow> ti_state t = s"
  by (auto simp: represents_def simp del: state_text.simps)

text \<open>The identities a list of members sets, when all of them are identities.\<close>

lemma id_members:
  assumes "list_all (\<lambda>(f, i). f \<in> set TREATMENT_ID_FIELDS \<and> UUID4_PATTERN i) ids"
  shows "\<forall>f i. map_of (rev ids) f = Some i \<longrightarrow> f \<in> set TREATMENT_ID_FIELDS \<and> UUID4_PATTERN i"
  using assms by (auto simp: list_all_iff dest!: map_of_SomeD)

lemma commit_step:
  assumes store: "store_transact f (pl_actions (planCommit inp)) db = (oc, db')"
    and item: "db ControlTable (treatment_slot part) = Some item" and rep: "represents item t"
    and part: "in_partition inp = part"
    and uuids: "list_all UUID4_PATTERN [acc_attempt_id (in_call inp), acc_provider_request_id (in_call inp), in_call_id inp,
      cid_commit_id (in_identities inp), cid_transaction_id (in_identities inp), event_id_of (je_event (in_commit_event inp))]"
  shows "\<exists>item' t'. db' ControlTable (treatment_slot part) = Some item' \<and> represents item' t' \<and> treatment_step\<^sup>=\<^sup>= t t'"
proof (cases "in_kind inp = Untargeted")
  case True
  then have "list_all (\<lambda>a. action_table a \<noteq> ControlTable \<or> action_key a \<noteq> treatment_slot part) (pl_actions (planCommit inp))"
    by (simp add: planCommit_def Let_def ledger_put_def journalPutAction_def)
  from transact_other_key [OF this, of f db] store item rep show ?thesis by auto
next
  case False
  let ?ids = "[(''targeted_attempt_id'', acc_attempt_id (in_call inp)), (''provider_request_id'', acc_provider_request_id (in_call inp)),
    (''provider_call_id'', in_call_id inp), (''provider_commit_id'', cid_commit_id (in_identities inp)),
    (''provider_transaction_id'', cid_transaction_id (in_identities inp)),
    (''commit_event_id'', event_id_of (je_event (in_commit_event inp)))]"
  let ?sets = "(''state'', JString (state_text COMMITTED_WAITING)) # map (\<lambda>(n, i). (n, JString i)) ?ids"
  have acts: "pl_actions (planCommit inp) = [ledger_put inp, journalPutAction ExperimentJournalTable (in_commit_event inp)]
      @ Update ControlTable (treatment_slot part) ?sets [(''version'', 1)]
          (AttributeEquals ''state'' (SString (state_text ARMED))) # []"
    using False by (simp add: planCommit_def Let_def consumeTreatment_def treatment_key_def part)
  show ?thesis
  proof (rule protocol_update [OF store item rep acts, where s = COMMITTED_WAITING and cause = None and ids = "map_of (rev ?ids)"])
    show "\<forall>f i. map_of (rev ?ids) f = Some i \<longrightarrow> f \<in> set TREATMENT_ID_FIELDS \<and> UUID4_PATTERN i"
      by (rule id_members) (use uuids in \<open>simp add: TREATMENT_ID_FIELDS_def\<close>)
    show "treatment_step t (advance t COMMITTED_WAITING (map_of (rev ?ids))\<lparr>ti_cause := (case None of None \<Rightarrow> ti_cause t | c \<Rightarrow> c)\<rparr>)"
      if "conditionHolds (AttributeEquals ''state'' (SString (state_text ARMED))) (Some item)"
      using that [unfolded state_condition [OF rep]]
      by (simp, intro treatment_step.committed) (auto simp: commit_fields_def)
  qed (simp_all add: TREATMENT_ID_FIELDS_def ledger_put_def journalPutAction_def Let_def)
qed

lemma signal_step:
  assumes store: "store_transact f [signal_update s, journalPutAction ExperimentJournalTable (st_event s)] db = (oc, db')"
    and item: "db ControlTable (treatment_slot part) = Some item" and rep: "represents item t"
    and part: "st_partition s = part"
    and uuids: "list_all UUID4_PATTERN [text_member (je_event (st_event s)) ''event_id'', st_caller_event_id s]"
  shows "\<exists>item' t'. db' ControlTable (treatment_slot part) = Some item' \<and> represents item' t' \<and> treatment_step\<^sup>=\<^sup>= t t'"
proof -
  let ?ids = "[(''signal_event_id'', text_member (je_event (st_event s)) ''event_id''),
    (''signal_caller_event_id'', st_caller_event_id s)]"
  let ?sets = "(''state'', JString (state_text TIMEOUT_SIGNALLED)) # map (\<lambda>(n, i). (n, JString i)) ?ids"
  let ?c = "AllOf [AttributeEquals ''state'' (SString (state_text COMMITTED_WAITING)),
               AttributeEquals ''targeted_attempt_id'' (SString (st_attempt_id s))]"
  have acts: "[signal_update s, journalPutAction ExperimentJournalTable (st_event s)] = []
      @ Update ControlTable (treatment_slot part) ?sets [(''version'', 1)] ?c
        # [journalPutAction ExperimentJournalTable (st_event s)]"
    by (simp add: signal_update_def part)
  show ?thesis
  proof (rule protocol_update [OF store item rep acts, where s = TIMEOUT_SIGNALLED and cause = None and ids = "map_of (rev ?ids)"])
    show "\<forall>f i. map_of (rev ?ids) f = Some i \<longrightarrow> f \<in> set TREATMENT_ID_FIELDS \<and> UUID4_PATTERN i"
      by (rule id_members) (use uuids in \<open>simp add: TREATMENT_ID_FIELDS_def\<close>)
    show "treatment_step t (advance t TIMEOUT_SIGNALLED (map_of (rev ?ids))\<lparr>ti_cause := (case None of None \<Rightarrow> ti_cause t | c \<Rightarrow> c)\<rparr>)"
      if "conditionHolds ?c (Some item)"
    proof -
      from that have "conditionHolds (AttributeEquals ''state'' (SString (state_text COMMITTED_WAITING))) (Some item)" by simp
      then show ?thesis
        unfolding state_condition [OF rep] by (simp, intro treatment_step.signalled) (auto simp: signal_fields_def)
    qed
  qed (simp_all add: TREATMENT_ID_FIELDS_def journalPutAction_def)
qed

lemma cleanup_step:
  assumes store: "store_transact f [releaseAction part state version] db = (oc, db')"
    and item: "db ControlTable (treatment_slot part) = Some item" and rep: "represents item t"
    and state: "isNonterminal state"
  shows "\<exists>item' t'. db' ControlTable (treatment_slot part) = Some item' \<and> represents item' t' \<and> treatment_step\<^sup>=\<^sup>= t t'"
proof -
  let ?sets = "[(''state'', JString (state_text SAFETY_RELEASED)), (''safety_release_cause'', JString (cause_text CLEANUP_REQUEST))]"
  let ?c = "AllOf [AttributeEquals ''state'' (SString (state_text state)), AttributeEquals ''version'' (SNumber (JsInt version))]"
  have acts: "[releaseAction part state version] = [] @ Update ControlTable (treatment_slot part) ?sets [(''version'', 1)] ?c # []"
    by (simp add: releaseAction_def)
  show ?thesis
  proof (rule protocol_update [OF store item rep acts, where s = SAFETY_RELEASED and cause = "Some CLEANUP_REQUEST" and ids = Map.empty])
    show "treatment_step t (advance t SAFETY_RELEASED Map.empty
        \<lparr>ti_cause := (case Some CLEANUP_REQUEST of None \<Rightarrow> ti_cause t | c \<Rightarrow> c)\<rparr>)" if "conditionHolds ?c (Some item)"
    proof -
      from that have "conditionHolds (AttributeEquals ''state'' (SString (state_text state))) (Some item)"
        by (simp del: state_text.simps)
      with state show ?thesis unfolding state_condition [OF rep] by (auto intro: treatment_step.cleaned)
    qed
  qed (simp_all add: TREATMENT_ID_FIELDS_def)
qed

lemma barrier_step_refines:
  assumes store: "store_transact f [transition_update u, journalPutAction ExperimentJournalTable (tt_event u)] db = (oc, db')"
    and item: "db ControlTable (treatment_slot part) = Some item" and rep: "represents item t"
    and part: "tt_partition u = part" and uuid: "UUID4_PATTERN i" and set_attr: "tt_set u = transition_sets (tt_to u) attr i"
    and move: "(tt_from u, tt_to u, attr) \<in> {(TIMEOUT_SIGNALLED, TIMEOUT_OBSERVED, Some ''observed_event_id''),
      (TIMEOUT_OBSERVED, RESPONSE_RELEASED, Some ''release_event_id''), (COMMITTED_WAITING, SAFETY_RELEASED, None),
      (TIMEOUT_SIGNALLED, SAFETY_RELEASED, None)}"
  shows "\<exists>item' t'. db' ControlTable (treatment_slot part) = Some item' \<and> represents item' t' \<and> treatment_step\<^sup>=\<^sup>= t t'"
proof -
  let ?sets = "transition_sets (tt_to u) attr i @ [(''state'', JString (state_text (tt_to u)))]"
  let ?c = "AttributeEquals ''state'' (SString (state_text (tt_from u)))"
  let ?ids = "case attr of None \<Rightarrow> Map.empty | Some name \<Rightarrow> [name \<mapsto> i]"
  let ?cause = "if tt_to u = SAFETY_RELEASED then Some SAFETY_DEADLINE else None"
  have acts: "[transition_update u, journalPutAction ExperimentJournalTable (tt_event u)] = []
      @ Update ControlTable (treatment_slot part) ?sets [(''version'', 1)] ?c
        # [journalPutAction ExperimentJournalTable (tt_event u)]"
    by (simp add: transition_update_def treatment_key_def part set_attr)
  show ?thesis
  proof (rule protocol_update [OF store item rep acts, where s = "tt_to u" and cause = ?cause and ids = ?ids])
    show "treatment_step t (advance t (tt_to u) ?ids\<lparr>ti_cause := (case ?cause of None \<Rightarrow> ti_cause t | c \<Rightarrow> c)\<rparr>)"
      if "conditionHolds ?c (Some item)"
      using that [unfolded state_condition [OF rep]] move
      by (auto intro!: treatment_step.observed treatment_step.responded treatment_step.expired
          simp: observe_fields_def respond_fields_def split: if_splits)
    show "\<forall>f i'. ?ids f = Some i' \<longrightarrow> f \<in> set TREATMENT_ID_FIELDS \<and> UUID4_PATTERN i'"
      using move uuid by (auto simp: TREATMENT_ID_FIELDS_def split: if_splits)
  qed (use move in \<open>auto simp: transition_sets_def TREATMENT_ID_FIELDS_def journalPutAction_def\<close>)
qed

text \<open>Every transaction of the protocol, whatever the store makes of it, is one step or none.\<close>

lemma protocol_step:
  assumes "protocol_transaction part as" and "store_transact f as db = (oc, db')"
    and "db ControlTable (treatment_slot part) = Some item" and "represents item t"
  shows "\<exists>item' t'. db' ControlTable (treatment_slot part) = Some item' \<and> represents item' t' \<and> treatment_step\<^sup>=\<^sup>= t t'"
  using assms(1)
proof cases
  case (by_commit inp)
  then show ?thesis using commit_step [OF assms(2) [unfolded by_commit(1)] assms(3,4)] by blast
next
  case (by_barrier u i attr)
  then show ?thesis using barrier_step_refines [OF assms(2) [unfolded by_barrier(1)] assms(3,4)] by blast
next
  case (by_controller s)
  then show ?thesis using signal_step [OF assms(2) [unfolded by_controller(1)] assms(3,4)] by blast
next
  case (by_cleanup state version)
  then show ?thesis using cleanup_step [OF assms(2) [unfolded by_cleanup(1)] assms(3,4)] by blast
next
  case by_others
  from transact_other_key [OF by_others, of f db] assms(2-4) show ?thesis by auto
qed

subsection \<open>Runs\<close>

definition stored_treatment :: "tables \<Rightarrow> string \<Rightarrow> treatment_item option" where
  "stored_treatment db part =
     (case db ControlTable (treatment_slot part) of
        None \<Rightarrow> None
      | Some item \<Rightarrow> (case decodeTreatmentItem item of Inr t \<Rightarrow> Some t | Inl _ \<Rightarrow> None))"

lemma stored_treatment_iff:
  "stored_treatment db part = Some t \<longleftrightarrow> (\<exists>item. db ControlTable (treatment_slot part) = Some item \<and> represents item t)"
  by (auto simp: stored_treatment_def decodeTreatmentItem_represents [symmetric] split: option.splits sum.splits)

text \<open>A sequence of transactions, each with the fault the store has for it.\<close>

definition store_run :: "(scripted_fault option \<times> write_action list) list \<Rightarrow> tables \<Rightarrow> tables" where
  "store_run ts db = foldl (\<lambda>db (f, as). snd (store_transact f as db)) db ts"

lemma store_run_refines:
  assumes "\<forall>(f, as)\<in>set ts. protocol_transaction part as"
    and "db ControlTable (treatment_slot part) = Some item" and "represents item t"
  shows "\<exists>item' t'. store_run ts db ControlTable (treatment_slot part) = Some item' \<and> represents item' t'
    \<and> treatment_step\<^sup>*\<^sup>* t t'"
  using assms
proof (induction ts arbitrary: db item t)
  case Nil
  then show ?case by (auto simp: store_run_def)
next
  case (Cons x ts)
  obtain f as where x: "x = (f, as)" by fastforce
  obtain oc db1 where st: "store_transact f as db = (oc, db1)" by fastforce
  from Cons.prems x have "protocol_transaction part as" by simp
  from protocol_step [OF this st Cons.prems(2,3)] obtain item1 t1 where
    1: "db1 ControlTable (treatment_slot part) = Some item1" "represents item1 t1" "treatment_step\<^sup>=\<^sup>= t t1" by blast
  from Cons.prems(1) have "\<forall>(f, as)\<in>set ts. protocol_transaction part as" by simp
  from Cons.IH [of db1 item1 t1, OF this 1(1) 1(2)] obtain item' t' where
    2: "store_run ts db1 ControlTable (treatment_slot part) = Some item'" "represents item' t'" "treatment_step\<^sup>*\<^sup>* t1 t'" by blast
  have "treatment_step\<^sup>*\<^sup>* t t'" using 1(3) 2(3) by (auto intro: converse_rtranclp_into_rtranclp)
  with 2 show ?case by (auto simp: store_run_def x st)
qed

text \<open>
  C3: the stored treatment refines the protocol. Take any sequence of transactions of the provider,
  the controller, the cleanup and the rest of the system, in any order and with any outcome of the
  store for each of them; a treatment that decodes before it decodes after it, and the two are
  related by steps of the abstract protocol.
\<close>

theorem treatment_refines_protocol:
  assumes "\<forall>(f, as)\<in>set ts. protocol_transaction part as"
    and "stored_treatment db part = Some t"
  shows "\<exists>t'. stored_treatment (store_run ts db) part = Some t' \<and> treatment_step\<^sup>*\<^sup>* t t'"
  using store_run_refines [OF assms(1)] assms(2) unfolding stored_treatment_iff by blast


text \<open>One treatment through commit, signal, observation and response, with a cleanup that comes too late.\<close>

definition armed_sample :: treatment_item where
  "armed_sample = \<lparr>ti_state = ARMED, ti_version = 1, ti_ids = Map.empty, ti_cause = None\<rparr>"

definition committed_sample :: treatment_item where
  "committed_sample = advance armed_sample COMMITTED_WAITING (map_of (map (\<lambda>f. (f, sample_id 1))
     [''targeted_attempt_id'', ''provider_request_id'', ''provider_call_id'', ''provider_commit_id'',
      ''provider_transaction_id'', ''commit_event_id'']))"


definition release_sample :: "(scripted_fault option \<times> write_action list) list" where
  "release_sample = [(Some (FaultAmbiguous ''Timeout'' True), [releaseAction ''p'' ARMED 1]), (None, [releaseAction ''p'' ARMED 1])]"

definition release_tables :: tables where
  "release_tables = (\<lambda>_ _. None)(ControlTable := [treatment_slot ''p'' \<mapsto>
     [(''state'', JString ''ARMED''), (''version'', JNumber (JsInt 1))]])"

theorem treatment_refines_protocol_witness:
  "\<exists>t'. stored_treatment (store_run release_sample release_tables) ''p'' = Some t' \<and> treatment_step\<^sup>*\<^sup>* armed_sample t'"
proof (rule treatment_refines_protocol)
  show "\<forall>(f, as)\<in>set release_sample. protocol_transaction ''p'' as"
    by (auto simp: release_sample_def isNonterminal_def NONTERMINAL_TREATMENT_STATES_def intro: protocol_transaction.by_cleanup)
  have "represents [(''state'', JString ''ARMED''), (''version'', JNumber (JsInt 1))] armed_sample"
    by (simp add: represents_def armed_sample_def TREATMENT_ID_FIELDS_def MAX_SAFE_INTEGER_def)
  then show "stored_treatment release_tables ''p'' = Some armed_sample"
    by (simp add: stored_treatment_iff release_tables_def)
qed

end
