(* ===== verification/Attribute_Codec.thy ===== *)
theory Attribute_Codec
  imports Item_Store
begin

text \<open>
  The codec between JSON and DynamoDB's attribute values, and the limits of an attribute value
  (\<^verbatim>\<open>durable-store/attribute-value-codec.ts\<close> and \<^verbatim>\<open>attribute-value-limits.ts\<close>).

  An attribute value is the JSON object the SDK takes and returns, for example
  \<^verbatim>\<open>{ M: { n: { N: '10' } } }\<close>. How ECMAScript writes a number as text and reads it back is a
  parameter (\<open>number_format\<close>); the round trip assumes of it, for the numbers of the value at hand,
  what the language specifies. Values whose properties throw when read, the text of errors and
  the paths in it are not modelled. Strings are lists of characters below U+0100, so each takes
  one or two bytes in UTF-8 and none is a surrogate.
\<close>

record number_format =
  nf_text :: "js_number \<Rightarrow> string"
  nf_value :: "string \<Rightarrow> js_number"

subsection \<open>Limits (\<^verbatim>\<open>attribute-value-limits.ts\<close>)\<close>

definition MAX_NESTING_DEPTH :: nat where "MAX_NESTING_DEPTH = 32"

definition MAX_ITEM_BYTES :: nat where "MAX_ITEM_BYTES = 400 * 1024"

definition MIN_NUMBER_MAGNITUDE :: rat where "MIN_NUMBER_MAGNITUDE = 1 / 10 ^ 130"

definition SCALAR_FLAG_BYTES :: nat where "SCALAR_FLAG_BYTES = 1"

definition CONTAINER_OVERHEAD_BYTES :: nat where "CONTAINER_OVERHEAD_BYTES = 3"

definition ELEMENT_OVERHEAD_BYTES :: nat where "ELEMENT_OVERHEAD_BYTES = 1"

text \<open>Whether there is a reason; the reason's text is not modelled.\<close>

fun unencodableNumberReason :: "js_number \<Rightarrow> bool" where
  "unencodableNumberReason (Num q) \<longleftrightarrow>
     (rat_is_int q \<and> \<not> isSafeInteger (Num q)) \<or> (q \<noteq> 0 \<and> \<bar>q\<bar> < MIN_NUMBER_MAGNITUDE)"
| "unencodableNumberReason _ \<longleftrightarrow> True"

datatype value_violation = UnstorableNumber | NestedTooDeep

fun valueViolations :: "json \<Rightarrow> nat \<Rightarrow> value_violation list"
  and elementViolations :: "json list \<Rightarrow> nat \<Rightarrow> value_violation list"
  and memberViolations :: "(string \<times> json) list \<Rightarrow> nat \<Rightarrow> value_violation list" where
  "valueViolations (JNumber n) depth = (if unencodableNumberReason n then [UnstorableNumber] else [])"
| "valueViolations (JArray vs) depth =
     (if depth \<ge> MAX_NESTING_DEPTH then [NestedTooDeep] else elementViolations vs (depth + 1))"
| "valueViolations (JObject ms) depth =
     (if depth \<ge> MAX_NESTING_DEPTH then [NestedTooDeep] else memberViolations ms (depth + 1))"
| "valueViolations JNull depth = []"
| "valueViolations (JBool b) depth = []"
| "valueViolations (JString s) depth = []"
| "elementViolations [] depth = []"
| "elementViolations (v # vs) depth = valueViolations v depth @ elementViolations vs depth"
| "memberViolations [] depth = []"
| "memberViolations ((name, v) # ms) depth = valueViolations v depth @ memberViolations ms depth"

definition storableValueViolations :: "json \<Rightarrow> value_violation list" where
  "storableValueViolations v = valueViolations v 0"

subsection \<open>The codec (\<^verbatim>\<open>attribute-value-codec.ts\<close>)\<close>

definition attr :: "string \<Rightarrow> json \<Rightarrow> json" where
  "attr member content = JObject [(member, content)]"

definition encodeNumber :: "number_format \<Rightarrow> js_number \<Rightarrow> js_throw + string" where
  "encodeNumber nf n = (if unencodableNumberReason n then Inl RangeError else Inr (nf_text nf n))"

fun encodeAttributeValue :: "number_format \<Rightarrow> json \<Rightarrow> js_throw + json"
  and encodeAttributeList :: "number_format \<Rightarrow> json list \<Rightarrow> js_throw + json list"
  and encodeAttributeMap :: "number_format \<Rightarrow> (string \<times> json) list \<Rightarrow> js_throw + (string \<times> json) list" where
  "encodeAttributeValue nf JNull = Inr (attr ''NULL'' (JBool True))"
| "encodeAttributeValue nf (JBool b) = Inr (attr ''BOOL'' (JBool b))"
| "encodeAttributeValue nf (JString s) = Inr (attr ''S'' (JString s))"
| "encodeAttributeValue nf (JNumber n) =
     (case encodeNumber nf n of Inl e \<Rightarrow> Inl e | Inr t \<Rightarrow> Inr (attr ''N'' (JString t)))"
| "encodeAttributeValue nf (JObject ms) =
     (case encodeAttributeMap nf ms of Inl e \<Rightarrow> Inl e | Inr as \<Rightarrow> Inr (attr ''M'' (JObject as)))"
| "encodeAttributeValue nf (JArray vs) =
     (case encodeAttributeList nf vs of Inl e \<Rightarrow> Inl e | Inr as \<Rightarrow> Inr (attr ''L'' (JArray as)))"
| "encodeAttributeList nf [] = Inr []"
| "encodeAttributeList nf (v # vs) =
     (case encodeAttributeValue nf v of
        Inl e \<Rightarrow> Inl e
      | Inr a \<Rightarrow> (case encodeAttributeList nf vs of Inl e \<Rightarrow> Inl e | Inr as \<Rightarrow> Inr (a # as)))"
| "encodeAttributeMap nf [] = Inr []"
| "encodeAttributeMap nf ((name, v) # ms) =
     (case encodeAttributeValue nf v of
        Inl e \<Rightarrow> Inl e
      | Inr a \<Rightarrow> (case encodeAttributeMap nf ms of Inl e \<Rightarrow> Inl e | Inr as \<Rightarrow> Inr ((name, a) # as)))"

text \<open>\<^verbatim>\<open>/^-?\d+(\.\d+)?([eE][+-]?\d+)?$/\<close>\<close>

definition digits_then :: "(string \<Rightarrow> bool) \<Rightarrow> string \<Rightarrow> bool" where
  "digits_then rest s \<longleftrightarrow> s \<noteq> [] \<and> is_digit (hd s) \<and> rest (dropWhile is_digit s)"

definition number_exponent :: "string \<Rightarrow> bool" where
  "number_exponent s \<longleftrightarrow>
     (case s of
        [] \<Rightarrow> True
      | c # t \<Rightarrow> c \<in> set ''eE''
          \<and> digits_then (\<lambda>r. r = []) (case t of [] \<Rightarrow> [] | d # u \<Rightarrow> if d \<in> set ''+-'' then u else t))"

definition number_fraction :: "string \<Rightarrow> bool" where
  "number_fraction s \<longleftrightarrow>
     (case s of c # t \<Rightarrow> if c = CHR ''.'' then digits_then number_exponent t else number_exponent s | [] \<Rightarrow> True)"

definition DYNAMODB_NUMBER_PATTERN :: "string \<Rightarrow> bool" where
  "DYNAMODB_NUMBER_PATTERN s \<longleftrightarrow>
     digits_then number_fraction (case s of c # t \<Rightarrow> if c = CHR ''-'' then t else s | [] \<Rightarrow> [])"

definition decodeNumber :: "number_format \<Rightarrow> json \<Rightarrow> unit + json" where
  "decodeNumber nf content =
     (case content of
        JString t \<Rightarrow>
          if \<not> DYNAMODB_NUMBER_PATTERN t \<or> unencodableNumberReason (nf_value nf t) then Inl ()
          else Inr (JNumber (nf_value nf t))
      | _ \<Rightarrow> Inl ())"

fun decodeAtDepth :: "number_format \<Rightarrow> json \<Rightarrow> nat \<Rightarrow> unit + json"
  and decodeMember :: "number_format \<Rightarrow> string \<Rightarrow> json \<Rightarrow> nat \<Rightarrow> unit + json"
  and decodeList :: "number_format \<Rightarrow> json list \<Rightarrow> nat \<Rightarrow> unit + json list"
  and decodeMapMembers :: "number_format \<Rightarrow> (string \<times> json) list \<Rightarrow> nat \<Rightarrow> unit + json_object" where
  "decodeAtDepth nf (JObject [(member, content)]) depth = decodeMember nf member content depth"
| "decodeAtDepth nf _ depth = Inl ()"
| "decodeMember nf member content depth =
     (if member = ''S'' then (case content of JString s \<Rightarrow> Inr content | _ \<Rightarrow> Inl ())
      else if member = ''N'' then decodeNumber nf content
      else if member = ''BOOL'' then (case content of JBool b \<Rightarrow> Inr content | _ \<Rightarrow> Inl ())
      else if member = ''NULL'' then (if content = JBool True then Inr JNull else Inl ())
      else if member = ''L'' then
        (if depth < MAX_NESTING_DEPTH then
           (case content of
              JArray elements \<Rightarrow>
                (case decodeList nf elements (depth + 1) of Inl e \<Rightarrow> Inl e | Inr vs \<Rightarrow> Inr (JArray vs))
            | _ \<Rightarrow> Inl ())
         else Inl ())
      else if member = ''M'' then
        (if depth < MAX_NESTING_DEPTH then
           (case content of
              JObject members \<Rightarrow>
                (case decodeMapMembers nf members (depth + 1) of Inl e \<Rightarrow> Inl e | Inr ms \<Rightarrow> Inr (JObject ms))
            | _ \<Rightarrow> Inl ())
         else Inl ())
      else Inl ())"
| "decodeList nf [] depth = Inr []"
| "decodeList nf (a # as) depth =
     (case decodeAtDepth nf a depth of
        Inl e \<Rightarrow> Inl e
      | Inr v \<Rightarrow> (case decodeList nf as depth of Inl e \<Rightarrow> Inl e | Inr vs \<Rightarrow> Inr (v # vs)))"
| "decodeMapMembers nf [] depth = Inr []"
| "decodeMapMembers nf ((name, a) # as) depth =
     (case decodeAtDepth nf a depth of
        Inl e \<Rightarrow> Inl e
      | Inr v \<Rightarrow> (case decodeMapMembers nf as depth of Inl e \<Rightarrow> Inl e | Inr ms \<Rightarrow> Inr ((name, v) # ms)))"

definition decodeAttributeValue :: "number_format \<Rightarrow> json \<Rightarrow> unit + json" where
  "decodeAttributeValue nf value = decodeAtDepth nf value 0"

text \<open>The members of an object have different names, so defining each as an own member appends it.\<close>

definition decodeStoredItem :: "number_format \<Rightarrow> json option \<Rightarrow> unit + stored_item" where
  "decodeStoredItem nf value =
     (case value of
        Some (JObject members) \<Rightarrow>
          (case decodeMapMembers nf members 0 of
             Inl e \<Rightarrow> Inl e
           | Inr item \<Rightarrow>
               (case (own_member item ''pk'', own_member item ''sk'') of
                  (Some (JString _), Some (JString _)) \<Rightarrow> Inr item
                | _ \<Rightarrow> Inl ()))
      | _ \<Rightarrow> Inl ())"

subsection \<open>Sizes (\<^verbatim>\<open>attribute-value-limits.ts\<close>)\<close>

definition utf8Bytes :: "string \<Rightarrow> nat" where
  "utf8Bytes s = sum_list (map (\<lambda>c. if of_char c < (128 :: nat) then 1 else 2) s)"

fun js_abs :: "js_number \<Rightarrow> js_number" where
  "js_abs (Num q) = Num \<bar>q\<bar>"
| "js_abs (Infinite _) = Infinite True"
| "js_abs NaN = NaN"

definition significantDigits :: "number_format \<Rightarrow> js_number \<Rightarrow> nat" where
  "significantDigits nf value =
     (let mantissa = takeWhile (\<lambda>c. c \<noteq> CHR ''e'') (nf_text nf (js_abs value));
          digits = takeWhile (\<lambda>c. c \<noteq> CHR ''.'') mantissa @ tl (dropWhile (\<lambda>c. c \<noteq> CHR ''.'') mantissa);
          leading = dropWhile (\<lambda>c. c = CHR ''0'') digits;
          trailing = rev (dropWhile (\<lambda>c. c = CHR ''0'') (rev leading))
      in max (length trailing) 1)"

fun ownBytes :: "number_format \<Rightarrow> json \<Rightarrow> nat" where
  "ownBytes nf (JString s) = utf8Bytes s"
| "ownBytes nf (JNumber n) = (significantDigits nf n + 1) div 2 + 1"
| "ownBytes nf JNull = SCALAR_FLAG_BYTES"
| "ownBytes nf (JBool b) = SCALAR_FLAG_BYTES"
| "ownBytes nf (JArray vs) = CONTAINER_OVERHEAD_BYTES"
| "ownBytes nf (JObject ms) = CONTAINER_OVERHEAD_BYTES"

fun containerEntries :: "json \<Rightarrow> (string \<times> json) list" where
  "containerEntries (JArray vs) = map (\<lambda>v. ('''', v)) vs"
| "containerEntries (JObject ms) = ms"
| "containerEntries _ = []"

text \<open>The loop over the stack of pending values; its top is the head of the list.\<close>

lemma size_entries: "sum_list (map (\<lambda>x. Suc (size (snd x))) (containerEntries v)) \<le> size v"
proof (cases v)
  case (JArray vs)
  have "sum_list (map (\<lambda>v. Suc (size v)) vs) \<le> size_list size vs" by (induction vs) auto
  with JArray show ?thesis by (simp add: comp_def)
next
  case (JObject ms)
  have "sum_list (map (\<lambda>x. Suc (size (snd x))) ms) \<le> size_list (size_prod (\<lambda>x. 0) size) ms" by (induction ms) auto
  with JObject show ?thesis by simp
qed simp_all

function estimated_loop :: "number_format \<Rightarrow> json list \<Rightarrow> nat \<Rightarrow> nat" where
  "estimated_loop nf [] sum_bytes = sum_bytes"
| "estimated_loop nf (v # pending) sum_bytes =
     estimated_loop nf (rev (map snd (containerEntries v)) @ pending)
       (sum_bytes + ownBytes nf v + sum_list (map (\<lambda>(name, _). utf8Bytes name + ELEMENT_OVERHEAD_BYTES) (containerEntries v)))"
  by pat_completeness auto
termination
proof (relation "measure (\<lambda>(_, pending, _). sum_list (map (\<lambda>v. Suc (size v)) pending))")
  fix nf v pending sum_bytes
  show "((nf, rev (map snd (containerEntries v)) @ pending, sum_bytes + ownBytes nf v
        + sum_list (map (\<lambda>(name, _). utf8Bytes name + ELEMENT_OVERHEAD_BYTES) (containerEntries v))), (nf, v # pending, sum_bytes))
      \<in> measure (\<lambda>(_, pending, _). sum_list (map (\<lambda>v. Suc (size v)) pending))"
    using size_entries [of v] by (simp add: rev_map [symmetric] sum_list_rev comp_def case_prod_beta)
qed simp

definition estimatedValueBytes :: "number_format \<Rightarrow> json \<Rightarrow> nat" where
  "estimatedValueBytes nf v = estimated_loop nf [v] 0"

definition estimatedItemBytes :: "number_format \<Rightarrow> json_object \<Rightarrow> nat" where
  "estimatedItemBytes nf attributes = foldl (\<lambda>sum_bytes (name, v). sum_bytes + (utf8Bytes name + estimatedValueBytes nf v)) 0 attributes"

definition itemSizeViolation :: "number_format \<Rightarrow> json_object \<Rightarrow> bool" where
  "itemSizeViolation nf attributes \<longleftrightarrow> estimatedItemBytes nf attributes > MAX_ITEM_BYTES"

text \<open>The size by structural recursion, as the sizing rules are documented.\<close>

fun value_bytes :: "number_format \<Rightarrow> json \<Rightarrow> nat"
  and element_bytes :: "number_format \<Rightarrow> json list \<Rightarrow> nat"
  and member_bytes :: "number_format \<Rightarrow> (string \<times> json) list \<Rightarrow> nat" where
  "value_bytes nf (JArray vs) = 3 + element_bytes nf vs"
| "value_bytes nf (JObject ms) = 3 + member_bytes nf ms"
| "value_bytes nf (JString s) = utf8Bytes s"
| "value_bytes nf (JNumber n) = (significantDigits nf n + 1) div 2 + 1"
| "value_bytes nf JNull = 1"
| "value_bytes nf (JBool b) = 1"
| "element_bytes nf [] = 0"
| "element_bytes nf (v # vs) = 1 + value_bytes nf v + element_bytes nf vs"
| "member_bytes nf [] = 0"
| "member_bytes nf ((name, v) # ms) = utf8Bytes name + 1 + value_bytes nf v + member_bytes nf ms"

lemma value_bytes_entries:
  "value_bytes nf v = ownBytes nf v + sum_list (map (\<lambda>(name, _). utf8Bytes name + ELEMENT_OVERHEAD_BYTES) (containerEntries v))
     + sum_list (map (value_bytes nf \<circ> snd) (containerEntries v))"
proof -
  have "element_bytes nf vs = length vs + sum_list (map (value_bytes nf) vs)" for vs by (induction vs) auto
  moreover have "member_bytes nf ms = sum_list (map (\<lambda>(name, _). utf8Bytes name + 1) ms) + sum_list (map (value_bytes nf \<circ> snd) ms)" for ms
    by (induction ms) auto
  ultimately show ?thesis
    by (cases v) (simp_all add: comp_def utf8Bytes_def CONTAINER_OVERHEAD_BYTES_def SCALAR_FLAG_BYTES_def ELEMENT_OVERHEAD_BYTES_def
        sum_list_triv)
qed

lemma estimated_loop_total: "estimated_loop nf pending sum_bytes = sum_bytes + sum_list (map (value_bytes nf) pending)"
proof (induction nf pending sum_bytes rule: estimated_loop.induct)
  case (2 nf v pending sum_bytes)
  then show ?case
    using value_bytes_entries [of nf v] by (simp add: rev_map [symmetric] sum_list_rev comp_def)
qed simp

lemma estimatedValueBytes_eq: "estimatedValueBytes nf v = value_bytes nf v"
  by (simp add: estimatedValueBytes_def estimated_loop_total)

lemma estimatedItemBytes_eq: "estimatedItemBytes nf ms = sum_list (map (\<lambda>(name, v). utf8Bytes name + value_bytes nf v) ms)"
proof -
  have "foldl (\<lambda>sum_bytes (name, v). sum_bytes + (utf8Bytes name + estimatedValueBytes nf v)) t ms
      = t + sum_list (map (\<lambda>(name, v). utf8Bytes name + value_bytes nf v) ms)" for t
    by (induction ms arbitrary: t) (auto simp: estimatedValueBytes_eq)
  then show ?thesis by (simp add: estimatedItemBytes_def)
qed

subsection \<open>Whatever may be written can be read back\<close>

definition format_exact :: "number_format \<Rightarrow> js_number \<Rightarrow> bool" where
  "format_exact nf n \<longleftrightarrow> DYNAMODB_NUMBER_PATTERN (nf_text nf n) \<and> nf_value nf (nf_text nf n) = n"

fun all_numbers :: "(js_number \<Rightarrow> bool) \<Rightarrow> json \<Rightarrow> bool"
  and all_element_numbers :: "(js_number \<Rightarrow> bool) \<Rightarrow> json list \<Rightarrow> bool"
  and all_member_numbers :: "(js_number \<Rightarrow> bool) \<Rightarrow> (string \<times> json) list \<Rightarrow> bool" where
  "all_numbers P (JNumber n) = P n"
| "all_numbers P (JArray vs) = all_element_numbers P vs"
| "all_numbers P (JObject ms) = all_member_numbers P ms"
| "all_numbers P JNull = True"
| "all_numbers P (JBool b) = True"
| "all_numbers P (JString s) = True"
| "all_element_numbers P [] = True"
| "all_element_numbers P (v # vs) = (all_numbers P v \<and> all_element_numbers P vs)"
| "all_member_numbers P [] = True"
| "all_member_numbers P ((name, v) # ms) = (all_numbers P v \<and> all_member_numbers P ms)"

lemma decode_attr [simp]: "decodeAtDepth nf (attr member content) depth = decodeMember nf member content depth"
  by (simp add: attr_def)

lemma encode_then_decode:
  "valueViolations v d = [] \<Longrightarrow> all_numbers (format_exact nf) v \<Longrightarrow>
     \<exists>a. encodeAttributeValue nf v = Inr a \<and> decodeAtDepth nf a d = Inr v"
  "elementViolations vs d = [] \<Longrightarrow> all_element_numbers (format_exact nf) vs \<Longrightarrow>
     \<exists>as. encodeAttributeList nf vs = Inr as \<and> decodeList nf as d = Inr vs"
  "memberViolations ms d = [] \<Longrightarrow> all_member_numbers (format_exact nf) ms \<Longrightarrow>
     \<exists>as. encodeAttributeMap nf ms = Inr as \<and> decodeMapMembers nf as d = Inr ms"
proof (induction v d and vs d and ms d rule: valueViolations_elementViolations_memberViolations.induct)
  case (1 n depth)
  then show ?case by (simp add: encodeNumber_def decodeNumber_def format_exact_def split: if_splits)
next
  case (2 vs depth)
  then obtain as where "encodeAttributeList nf vs = Inr as" "decodeList nf as (Suc depth) = Inr vs"
    by (auto split: if_splits)
  with 2 show ?case by (simp split: if_splits)
next
  case (3 ms depth)
  then obtain as where "encodeAttributeMap nf ms = Inr as" "decodeMapMembers nf as (Suc depth) = Inr ms"
    by (auto split: if_splits)
  with 3 show ?case by (simp split: if_splits)
next
  case (8 v vs depth)
  then show ?case by auto
next
  case (10 name v ms depth)
  then show ?case by auto
qed auto

lemma decoded_is_storable:
  "decodeAtDepth nf a d = Inr v \<Longrightarrow> valueViolations v d = []"
  "decodeMember nf m a d = Inr v \<Longrightarrow> valueViolations v d = []"
  "decodeList nf as d = Inr vs \<Longrightarrow> elementViolations vs d = []"
  "decodeMapMembers nf ms d = Inr ns \<Longrightarrow> memberViolations ns d = []"
proof (induction nf a d and nf m a d and nf as d and nf ms d arbitrary: v and v and vs and ns
    rule: decodeAtDepth_decodeMember_decodeList_decodeMapMembers.induct)
  case (3 nf member content depth)
  then show ?case
    by (cases content) (auto simp: decodeNumber_def split: if_splits sum.splits)
qed (auto split: sum.splits)

text \<open>How deep lists and maps nest in a value.\<close>

fun nesting :: "json \<Rightarrow> nat"
  and element_nesting :: "json list \<Rightarrow> nat"
  and member_nesting :: "(string \<times> json) list \<Rightarrow> nat" where
  "nesting (JArray vs) = Suc (element_nesting vs)"
| "nesting (JObject ms) = Suc (member_nesting ms)"
| "nesting JNull = 0"
| "nesting (JBool b) = 0"
| "nesting (JString s) = 0"
| "nesting (JNumber n) = 0"
| "element_nesting [] = 0"
| "element_nesting (v # vs) = max (nesting v) (element_nesting vs)"
| "member_nesting [] = 0"
| "member_nesting ((name, v) # ms) = max (nesting v) (member_nesting ms)"

lemma violations_iff:
  "valueViolations v d = [] \<longleftrightarrow> all_numbers (\<lambda>n. \<not> unencodableNumberReason n) v \<and> (nesting v = 0 \<or> d + nesting v \<le> MAX_NESTING_DEPTH)"
  "elementViolations vs d = [] \<longleftrightarrow> all_element_numbers (\<lambda>n. \<not> unencodableNumberReason n) vs
     \<and> (element_nesting vs = 0 \<or> d + element_nesting vs \<le> MAX_NESTING_DEPTH)"
  "memberViolations ms d = [] \<longleftrightarrow> all_member_numbers (\<lambda>n. \<not> unencodableNumberReason n) ms
     \<and> (member_nesting ms = 0 \<or> d + member_nesting ms \<le> MAX_NESTING_DEPTH)"
  by (induction v d and vs d and ms d rule: valueViolations_elementViolations_memberViolations.induct)
    (auto simp: max_def)


text \<open>Integers, as the language writes and reads them.\<close>

definition integer_format :: number_format where
  "integer_format = \<lparr>nf_text = (\<lambda>n. int_text (int_of_number n)),
     nf_value = (\<lambda>t. JsInt (if t \<noteq> [] \<and> hd t = CHR ''-'' then - int (parse_nat (tl t)) else int (parse_nat t)))\<rparr>"

lemma digits_then_all:
  assumes "s \<noteq> []" and "list_all is_digit s" and "rest []"
  shows "digits_then rest s"
proof -
  have "dropWhile is_digit s = []" using assms(2) by (simp add: list_all_iff)
  moreover have "is_digit (hd s)" using assms(1,2) by (cases s) simp_all
  ultimately show ?thesis using assms(1,3) unfolding digits_then_def by metis
qed

lemma hd_nat_text_digit: "hd (nat_text n) \<noteq> CHR ''-''"
proof -
  have "is_digit (hd (nat_text n))"
    using nat_text_digits [of n] nat_text_nonempty [of n] by (cases "nat_text n") auto
  then show ?thesis by (auto simp: is_digit_def)
qed

lemma integer_format_exact: "format_exact integer_format (JsInt n)"
proof -
  have d: "digits_then number_fraction (nat_text k)" for k
    by (rule digits_then_all) (simp_all add: nat_text_nonempty nat_text_digits number_fraction_def)
  show ?thesis
  proof (cases "n < 0")
    case True
    with d show ?thesis
      by (simp add: format_exact_def integer_format_def int_text_def DYNAMODB_NUMBER_PATTERN_def)
  next
    case False
    have "(case nat_text k of [] \<Rightarrow> [] | c # t \<Rightarrow> if c = CHR ''-'' then t else nat_text k) = nat_text k" for k
      using hd_nat_text_digit [of k] nat_text_nonempty [of k] by (cases "nat_text k") auto
    with False d hd_nat_text_digit show ?thesis
      by (simp add: format_exact_def integer_format_def int_text_def DYNAMODB_NUMBER_PATTERN_def)
  qed
qed


end
