(* ===== verification/Store_Expressions.thy ===== *)
theory Store_Expressions
  imports Attribute_Codec "HOL-Library.List_Lexorder" "HOL-Library.Char_ord"
begin

text \<open>
  Conditions and updates as DynamoDB expressions (\<^verbatim>\<open>durable-store/condition-expression.ts\<close>,
  \<^verbatim>\<open>update-expression.ts\<close> and \<^verbatim>\<open>expression-limits.ts\<close>): the renderers with their stack and their
  allocator of placeholders, the iterative measures of a condition, and the limits. The text of a
  violation and the location in it are not modelled.
\<close>

subsection \<open>Conditions (\<^verbatim>\<open>condition-expression.ts\<close>)\<close>

record expression_parts =
  ep_expression :: string
  ep_names :: "(string \<times> string) list"
  ep_values :: "(string \<times> json) list"

record placeholder_allocator =
  al_names :: "(string \<times> string) list"
  al_values :: "(string \<times> json) list"
  al_name_count :: nat
  al_value_count :: nat

text \<open>A stack is a list with its top as head.\<close>

definition pushEach :: "'a list \<Rightarrow> 'a list \<Rightarrow> 'a list" where
  "pushEach target items = foldl (\<lambda>stack item. item # stack) target items"

lemma pushEach_eq: "pushEach target items = rev items @ target"
proof -
  have "foldl (\<lambda>stack item. item # stack) t xs = rev xs @ t" for t and xs :: "'a list"
    by (induction xs arbitrary: t) auto
  then show ?thesis by (simp add: pushEach_def)
qed

definition namePlaceholder :: "placeholder_allocator \<Rightarrow> string \<Rightarrow> string \<times> placeholder_allocator" where
  "namePlaceholder al name =
     (let placeholder = ''#c'' @ nat_text (al_name_count al)
      in (placeholder, al\<lparr>al_name_count := al_name_count al + 1, al_names := obj_set placeholder name (al_names al)\<rparr>))"

definition valuePlaceholder :: "placeholder_allocator \<Rightarrow> json \<Rightarrow> string \<times> placeholder_allocator" where
  "valuePlaceholder al v =
     (let placeholder = '':c'' @ nat_text (al_value_count al)
      in (placeholder, al\<lparr>al_value_count := al_value_count al + 1, al_values := obj_set placeholder v (al_values al)\<rparr>))"

fun scalarAttributeValue :: "number_format \<Rightarrow> attr_scalar \<Rightarrow> json" where
  "scalarAttributeValue nf (SString s) = attr ''S'' (JString s)"
| "scalarAttributeValue nf (SNumber n) = attr ''N'' (JString (nf_text nf n))"
| "scalarAttributeValue nf (SBool b) = attr ''BOOL'' (JBool b)"

fun value_placeholders :: "placeholder_allocator \<Rightarrow> string list \<Rightarrow> string list \<times> placeholder_allocator" where
  "value_placeholders al [] = ([], al)"
| "value_placeholders al (v # vs) =
     (let (p, al') = valuePlaceholder al (attr ''S'' (JString v));
          (ps, al'') = value_placeholders al' vs
      in (p # ps, al''))"

definition joined :: "string \<Rightarrow> string list \<Rightarrow> string" where
  "joined separator texts = (case texts of [] \<Rightarrow> [] | t # ts \<Rightarrow> t @ concat (map (\<lambda>u. separator @ u) ts))"

fun renderLeaf :: "number_format \<Rightarrow> condition \<Rightarrow> placeholder_allocator \<Rightarrow> string \<times> placeholder_allocator" where
  "renderLeaf nf ItemAbsent al =
     (let (p, al') = namePlaceholder al ''pk'' in (''attribute_not_exists('' @ p @ '')'', al'))"
| "renderLeaf nf (AttributeEquals name v) al =
     (let (p, al') = namePlaceholder al name;
          (q, al'') = valuePlaceholder al' (scalarAttributeValue nf v)
      in (p @ '' = '' @ q, al''))"
| "renderLeaf nf (AttributeIn name vs) al =
     (let (p, al') = namePlaceholder al name;
          (qs, al'') = value_placeholders al' vs
      in (p @ '' IN ('' @ joined '', '' qs @ '')'', al''))"
| "renderLeaf nf (AllOf cs) al = ([], al)"

datatype render_piece = TextPiece string | ConditionPiece condition

fun all_pieces_from :: "nat \<Rightarrow> condition list \<Rightarrow> render_piece list" where
  "all_pieces_from index [] = []"
| "all_pieces_from index (c # cs) =
     TextPiece (if index = 0 then ''('' else '' AND ('') # ConditionPiece c # TextPiece '')'' # all_pieces_from (index + 1) cs"

definition allPieces :: "condition list \<Rightarrow> render_piece list" where
  "allPieces cs = rev (all_pieces_from 0 cs)"

fun piece_weight :: "render_piece \<Rightarrow> nat" where
  "piece_weight (TextPiece _) = 1"
| "piece_weight (ConditionPiece c) = 4 * size c + 1"

lemma all_pieces_weight: "sum_list (map piece_weight (all_pieces_from i cs)) \<le> 4 * size_list size cs"
  by (induction i cs rule: all_pieces_from.induct) auto

function render_loop ::
  "number_format \<Rightarrow> render_piece list \<Rightarrow> placeholder_allocator \<Rightarrow> string \<Rightarrow> string \<times> placeholder_allocator" where
  "render_loop nf [] al expression = (expression, al)"
| "render_loop nf (TextPiece t # pending) al expression = render_loop nf pending al (expression @ t)"
| "render_loop nf (ConditionPiece c # pending) al expression =
     (case c of
        AllOf cs \<Rightarrow> render_loop nf (pushEach pending (allPieces cs)) al expression
      | leaf \<Rightarrow> (let (t, al') = renderLeaf nf leaf al in render_loop nf pending al' (expression @ t)))"
  by pat_completeness auto
termination
  by (relation "measure (\<lambda>(_, pending, _, _). sum_list (map piece_weight pending))")
    (auto simp: pushEach_eq allPieces_def intro: le_less_trans [OF all_pieces_weight])

definition render :: "number_format \<Rightarrow> condition \<Rightarrow> placeholder_allocator \<Rightarrow> string \<times> placeholder_allocator" where
  "render nf c al = render_loop nf [ConditionPiece c] al []"

definition toConditionExpression :: "number_format \<Rightarrow> condition \<Rightarrow> expression_parts" where
  "toConditionExpression nf c =
     (let (expression, al) = render nf c \<lparr>al_names = [], al_values = [], al_name_count = 0, al_value_count = 0\<rparr>
      in \<lparr>ep_expression = expression, ep_names = al_names al, ep_values = al_values al\<rparr>)"

subsection \<open>Updates (\<^verbatim>\<open>update-expression.ts\<close>)\<close>

definition sortedEntries :: "(string \<times> 'v) list \<Rightarrow> (string \<times> 'v) list" where
  "sortedEntries entries = sort_key fst entries"

text \<open>The terms of one clause; the placeholders are numbered by the names allocated so far.\<close>

fun update_terms ::
  "number_format \<Rightarrow> string \<Rightarrow> (string \<times> json) list \<Rightarrow> (string \<times> string) list \<Rightarrow> (string \<times> json) list
   \<Rightarrow> js_throw + (string list \<times> (string \<times> string) list \<times> (string \<times> json) list)" where
  "update_terms nf separator [] names values = Inr ([], names, values)"
| "update_terms nf separator ((name, v) # entries) names values =
     (let index = nat_text (length names)
      in case encodeAttributeValue nf v of
           Inl e \<Rightarrow> Inl e
         | Inr a \<Rightarrow>
             (case update_terms nf separator entries (obj_set (''#u'' @ index) name names) (obj_set ('':u'' @ index) a values) of
                Inl e \<Rightarrow> Inl e
              | Inr (terms, names', values') \<Rightarrow>
                  Inr ((''#u'' @ index @ separator @ '':u'' @ index) # terms, names', values')))"

definition update_clause :: "string \<Rightarrow> string list \<Rightarrow> string" where
  "update_clause keyword terms = (if terms = [] then [] else keyword @ '' '' @ joined '', '' terms)"

definition toUpdateExpression ::
  "number_format \<Rightarrow> (string \<times> json) list \<Rightarrow> (string \<times> int) list \<Rightarrow> js_throw + expression_parts" where
  "toUpdateExpression nf sets increments =
     (case update_terms nf '' = '' (sortedEntries sets) [] [] of
        Inl e \<Rightarrow> Inl e
      | Inr (setTerms, names, values) \<Rightarrow>
          (case update_terms nf '' '' (map (\<lambda>(n, i). (n, JNumber (JsInt i))) (sortedEntries increments)) names values of
             Inl e \<Rightarrow> Inl e
           | Inr (addTerms, names', values') \<Rightarrow>
               Inr \<lparr>ep_expression = joined '' '' (filter (\<lambda>t. t \<noteq> []) [update_clause ''SET'' setTerms, update_clause ''ADD'' addTerms]),
                    ep_names = names', ep_values = values'\<rparr>))"

subsection \<open>Measures and limits (\<^verbatim>\<open>expression-limits.ts\<close>)\<close>

definition MAX_EXPRESSION_BYTES :: nat where "MAX_EXPRESSION_BYTES = 4 * 1024"

definition MAX_EXPRESSION_OPERATORS :: nat where "MAX_EXPRESSION_OPERATORS = 300"

definition MAX_SUBSTITUTION_BYTES :: nat where "MAX_SUBSTITUTION_BYTES = 2 * 1024 * 1024"

definition MAX_TRANSACTION_DATA_BYTES :: nat where "MAX_TRANSACTION_DATA_BYTES = 4 * 1024 * 1024"

definition SHORTEST_LEAF_BYTES :: nat where "SHORTEST_LEAF_BYTES = 9"

definition MAX_CONDITION_NESTING :: nat where
  "MAX_CONDITION_NESTING = (MAX_EXPRESSION_BYTES - SHORTEST_LEAF_BYTES) div 2"

fun nested_conditions :: "condition \<Rightarrow> condition list" where
  "nested_conditions (AllOf cs) = cs"
| "nested_conditions _ = []"

lemma size_nested: "sum_list (map (\<lambda>c. Suc (size c)) (nested_conditions c)) \<le> size c"
proof (cases c)
  case (AllOf cs)
  have "sum_list (map (\<lambda>c. Suc (size c)) cs) \<le> size_list size cs" by (induction cs) auto
  with AllOf show ?thesis by simp
qed simp_all

function nesting_loop :: "(condition \<times> nat) list \<Rightarrow> nat \<Rightarrow> nat" where
  "nesting_loop [] deepest = deepest"
| "nesting_loop ((c, depth) # pending) deepest =
     nesting_loop (pushEach pending (map (\<lambda>n. (n, depth + 1)) (nested_conditions c))) (max deepest depth)"
  by pat_completeness auto
termination
proof (relation "measure (\<lambda>(pending, _). sum_list (map (\<lambda>(c, _). Suc (size c)) pending))")
  fix c :: condition and depth pending deepest
  show "((pushEach pending (map (\<lambda>n. (n, depth + 1)) (nested_conditions c)), max deepest depth), ((c, depth) # pending, deepest))
      \<in> measure (\<lambda>(pending, _). sum_list (map (\<lambda>(c, _). Suc (size c)) pending))"
    using size_nested [of c] by (simp add: pushEach_eq rev_map [symmetric] sum_list_rev comp_def)
qed simp

definition conditionNesting :: "condition \<Rightarrow> nat" where
  "conditionNesting c = nesting_loop [(c, 0)] 0"

function nodes_loop :: "condition list \<Rightarrow> condition list \<Rightarrow> condition list" where
  "nodes_loop [] nodes = nodes"
| "nodes_loop (c # pending) nodes = nodes_loop (pushEach pending (nested_conditions c)) (nodes @ [c])"
  by pat_completeness auto
termination
proof (relation "measure (\<lambda>(pending, _). sum_list (map (\<lambda>c. Suc (size c)) pending))")
  fix c :: condition and pending nodes
  show "((pushEach pending (nested_conditions c), nodes @ [c]), (c # pending, nodes))
      \<in> measure (\<lambda>(pending, _). sum_list (map (\<lambda>c. Suc (size c)) pending))"
    using size_nested [of c] by (simp add: pushEach_eq rev_map [symmetric] sum_list_rev comp_def)
qed simp

definition conditionNodes :: "condition \<Rightarrow> condition list" where
  "conditionNodes c = nodes_loop [c] []"

definition node_operators :: "condition \<Rightarrow> nat" where
  "node_operators c = (case c of AllOf cs \<Rightarrow> length cs - 1 | _ \<Rightarrow> 1)"

definition conditionOperatorCount :: "condition \<Rightarrow> nat" where
  "conditionOperatorCount c = foldl (\<lambda>count node. count + node_operators node) 0 (conditionNodes c)"

text \<open>\<^verbatim>\<open>Math.max(length - 1, 0)\<close> is the truncated difference.\<close>

fun scalar_json :: "attr_scalar \<Rightarrow> json" where
  "scalar_json (SString s) = JString s"
| "scalar_json (SNumber n) = JNumber n"
| "scalar_json (SBool b) = JBool b"

fun node_operands :: "condition \<Rightarrow> string list \<times> json list" where
  "node_operands ItemAbsent = ([''pk''], [])"
| "node_operands (AttributeEquals name v) = ([name], [scalar_json v])"
| "node_operands (AttributeIn name vs) = ([name], map JString vs)"
| "node_operands (AllOf _) = ([], [])"

definition conditionOperands :: "condition \<Rightarrow> string list \<times> json list" where
  "conditionOperands c =
     foldl (\<lambda>(names, values) node. (names @ fst (node_operands node), values @ snd (node_operands node))) ([], []) (conditionNodes c)"

definition substitutionBytes :: "number_format \<Rightarrow> write_action \<Rightarrow> nat" where
  "substitutionBytes nf action =
     (let (names, values) = (case action_condition action of None \<Rightarrow> ([], []) | Some c \<Rightarrow> conditionOperands c);
          (names', values') = (case action of
             Update _ _ sets increments _ \<Rightarrow>
               (map fst sets @ map fst increments, map snd sets @ map (\<lambda>(_, i). JNumber (JsInt i)) increments)
           | _ \<Rightarrow> ([], []))
      in sum_list (map utf8Bytes (names @ names')) + sum_list (map (estimatedValueBytes nf) (values @ values')))"

fun actionDataBytes :: "number_format \<Rightarrow> write_action \<Rightarrow> nat" where
  "actionDataBytes nf (Put _ _ item _) = estimatedItemBytes nf item"
| "actionDataBytes nf (Update _ key sets increments _) =
     estimatedItemBytes nf (obj_merge (obj_merge sets (map (\<lambda>(n, i). (n, JNumber (JsInt i))) increments)) (key_members key))"
| "actionDataBytes nf (ConditionCheck _ _ _) = 0"

definition transactionDataBytes :: "number_format \<Rightarrow> write_action list \<Rightarrow> nat" where
  "transactionDataBytes nf actions = foldl (\<lambda>sum action. sum + actionDataBytes nf action) 0 actions"

datatype expression_violation = ExpressionTooLong | TooManyOperators | SubstitutionTooLarge

definition expressionLengthViolation :: "expression_parts \<Rightarrow> expression_violation list" where
  "expressionLengthViolation parts = (if utf8Bytes (ep_expression parts) \<le> MAX_EXPRESSION_BYTES then [] else [ExpressionTooLong])"

definition conditionLimitViolations :: "number_format \<Rightarrow> condition \<Rightarrow> expression_violation list" where
  "conditionLimitViolations nf c =
     expressionLengthViolation (toConditionExpression nf c)
     @ (if conditionOperatorCount c > MAX_EXPRESSION_OPERATORS then [TooManyOperators] else [])"

text \<open>Only called on an otherwise valid action, whose values can all be encoded.\<close>

definition expressionLimitViolations :: "number_format \<Rightarrow> write_action \<Rightarrow> js_throw + expression_violation list" where
  "expressionLimitViolations nf action =
     (let condition_part = (case action_condition action of None \<Rightarrow> [] | Some c \<Rightarrow> conditionLimitViolations nf c);
          substitution = (if substitutionBytes nf action > MAX_SUBSTITUTION_BYTES then [SubstitutionTooLarge] else [])
      in case action of
           Update _ _ sets increments _ \<Rightarrow>
             (case toUpdateExpression nf sets increments of
                Inl e \<Rightarrow> Inl e
              | Inr parts \<Rightarrow> Inr (condition_part @ expressionLengthViolation parts @ substitution))
         | _ \<Rightarrow> Inr (condition_part @ substitution))"

subsection \<open>The renderer without its stack\<close>

fun render_condition :: "number_format \<Rightarrow> condition \<Rightarrow> placeholder_allocator \<Rightarrow> string \<times> placeholder_allocator"
  and render_members :: "number_format \<Rightarrow> nat \<Rightarrow> condition list \<Rightarrow> placeholder_allocator \<Rightarrow> string \<times> placeholder_allocator" where
  "render_condition nf (AllOf cs) al = render_members nf 0 cs al"
| "render_condition nf ItemAbsent al = renderLeaf nf ItemAbsent al"
| "render_condition nf (AttributeEquals name v) al = renderLeaf nf (AttributeEquals name v) al"
| "render_condition nf (AttributeIn name vs) al = renderLeaf nf (AttributeIn name vs) al"
| "render_members nf i [] al = ([], al)"
| "render_members nf i (c # cs) al =
     (let (t, al1) = render_condition nf c al; (u, al2) = render_members nf (i + 1) cs al1
      in ((if i = 0 then ''('' else '' AND ('') @ t @ '')'' @ u, al2))"

lemma render_loop_piece:
  "render_loop nf (ConditionPiece c # pending) al e =
     render_loop nf pending (snd (render_condition nf c al)) (e @ fst (render_condition nf c al))"
  "render_loop nf (all_pieces_from i cs @ pending) al e =
     render_loop nf pending (snd (render_members nf i cs al)) (e @ fst (render_members nf i cs al))"
proof (induction nf c al and nf i cs al arbitrary: pending e and pending e rule: render_condition_render_members.induct)
  case (6 nf i c cs al)
  obtain t al1 where 1: "render_condition nf c al = (t, al1)" by fastforce
  have members: "render_loop nf (all_pieces_from (Suc i) cs @ p) al1 x
      = render_loop nf p (snd (render_members nf (Suc i) cs al1)) (x @ fst (render_members nf (Suc i) cs al1))" for p x
    using 6(2) [OF 1 [symmetric] refl] by simp
  show ?case
    by (cases "i = 0") (use members in \<open>simp_all add: 6(1) 1 case_prod_beta del: render_loop.simps(3)\<close>)
qed (simp_all add: pushEach_eq allPieces_def case_prod_beta Let_def del: renderLeaf.simps)

lemma render_eq: "render nf c al = render_condition nf c al"
  unfolding render_def render_loop_piece(1) by (simp del: render_condition.simps)

subsection \<open>Placeholders\<close>

text \<open>The allocator after the names and values given, in order.\<close>

definition numbered :: "string \<Rightarrow> 'a list \<Rightarrow> (string \<times> 'a) list" where
  "numbered prefix xs = map (\<lambda>i. (prefix @ nat_text i, xs ! i)) [0..<length xs]"

definition allocated :: "string list \<Rightarrow> json list \<Rightarrow> placeholder_allocator" where
  "allocated ns vs = \<lparr>al_names = numbered ''#c'' ns, al_values = numbered '':c'' vs, al_name_count = length ns, al_value_count = length vs\<rparr>"

lemma nat_text_inject [simp]: "nat_text m = nat_text n \<longleftrightarrow> m = n"
  by (metis parse_nat_text)

lemma numbered_snoc: "numbered p (xs @ [x]) = numbered p xs @ [(p @ nat_text (length xs), x)]"
  by (simp add: numbered_def nth_append)

lemma numbered_names: "fst ` set (numbered p xs) = (\<lambda>i. p @ nat_text i) ` {..<length xs}"
  by (auto simp: numbered_def image_image lessThan_atLeast0)

lemma obj_set_new: "k \<notin> fst ` set obj \<Longrightarrow> obj_set k v obj = obj @ [(k, v)]"
  by (induction obj) auto

lemma obj_set_numbered: "obj_set (p @ nat_text (length xs)) x (numbered p xs) = numbered p (xs @ [x])"
  by (subst obj_set_new) (auto simp: numbered_names numbered_snoc)

lemma map_of_numbered: "i < length xs \<Longrightarrow> map_of (numbered p xs) (p @ nat_text i) = Some (xs ! i)"
proof (induction xs arbitrary: i rule: rev_induct)
  case (snoc x xs)
  have new: "map_of (numbered p xs) (p @ nat_text (length xs)) = None"
    by (auto simp: map_of_eq_None_iff numbered_names)
  show ?case
  proof (cases "i < length xs")
    case True
    with snoc.IH show ?thesis by (auto simp: numbered_snoc nth_append map_add_def split: option.splits)
  next
    case False
    with snoc.prems have "i = length xs" by simp
    with new show ?thesis by (simp add: numbered_snoc map_add_def)
  qed
qed simp

lemma namePlaceholder_allocated:
  "namePlaceholder (allocated ns vs) name = (''#c'' @ nat_text (length ns), allocated (ns @ [name]) vs)"
  unfolding namePlaceholder_def allocated_def Let_def by (simp add: obj_set_numbered del: append_Cons)

lemma valuePlaceholder_allocated:
  "valuePlaceholder (allocated ns vs) v = ('':c'' @ nat_text (length vs), allocated ns (vs @ [v]))"
  unfolding valuePlaceholder_def allocated_def Let_def by (simp add: obj_set_numbered del: append_Cons)

lemma value_placeholders_allocated:
  "value_placeholders (allocated ns vs) ss =
     (map (\<lambda>i. '':c'' @ nat_text i) [length vs..<length vs + length ss], allocated ns (vs @ map (\<lambda>s. attr ''S'' (JString s)) ss))"
  by (induction ss arbitrary: vs) (simp_all add: valuePlaceholder_allocated Let_def upt_conv_Cons del: upt_Suc)

subsection \<open>What an expression means\<close>

text \<open>
  The expressions the renderer writes, as DynamoDB documents them: their syntax with numbered
  placeholders, their text, and when they hold of an item. Comparison is by type and value.
\<close>

datatype dyn_expr = NotExists nat | EqualsTo nat nat | OneOf nat "nat list" | Conjunction "dyn_expr list"

fun dyn_text :: "dyn_expr \<Rightarrow> string" and dyn_texts :: "nat \<Rightarrow> dyn_expr list \<Rightarrow> string" where
  "dyn_text (NotExists n) = ''attribute_not_exists(#c'' @ nat_text n @ '')''"
| "dyn_text (EqualsTo n v) = ''#c'' @ nat_text n @ '' = :c'' @ nat_text v"
| "dyn_text (OneOf n vs) = ''#c'' @ nat_text n @ '' IN ('' @ joined '', '' (map (\<lambda>i. '':c'' @ nat_text i) vs) @ '')''"
| "dyn_text (Conjunction ds) = dyn_texts 0 ds"
| "dyn_texts i [] = []"
| "dyn_texts i (d # ds) = (if i = 0 then ''('' else '' AND ('') @ dyn_text d @ '')'' @ dyn_texts (i + 1) ds"

fun attribute_equal :: "json \<Rightarrow> json \<Rightarrow> bool" where
  "attribute_equal (JNumber m) (JNumber n) \<longleftrightarrow> js_strict_eq m n"
| "attribute_equal x y \<longleftrightarrow> x = y"

definition operand_matches :: "number_format \<Rightarrow> json option \<Rightarrow> json \<Rightarrow> bool" where
  "operand_matches nf x operand \<longleftrightarrow>
     (case (x, decodeAttributeValue nf operand) of (Some v, Inr w) \<Rightarrow> attribute_equal v w | _ \<Rightarrow> False)"

fun dyn_holds :: "number_format \<Rightarrow> (nat \<Rightarrow> string) \<Rightarrow> (nat \<Rightarrow> json) \<Rightarrow> stored_item option \<Rightarrow> dyn_expr \<Rightarrow> bool"
  and dyn_all :: "number_format \<Rightarrow> (nat \<Rightarrow> string) \<Rightarrow> (nat \<Rightarrow> json) \<Rightarrow> stored_item option \<Rightarrow> dyn_expr list \<Rightarrow> bool" where
  "dyn_holds nf names values item (NotExists n) \<longleftrightarrow> Option.bind item (\<lambda>i. own_member i (names n)) = None"
| "dyn_holds nf names values item (EqualsTo n v) \<longleftrightarrow>
     operand_matches nf (Option.bind item (\<lambda>i. own_member i (names n))) (values v)"
| "dyn_holds nf names values item (OneOf n vs) \<longleftrightarrow>
     list_ex (\<lambda>v. operand_matches nf (Option.bind item (\<lambda>i. own_member i (names n))) (values v)) vs"
| "dyn_holds nf names values item (Conjunction ds) \<longleftrightarrow> dyn_all nf names values item ds"
| "dyn_all nf names values item [] \<longleftrightarrow> True"
| "dyn_all nf names values item (d # ds) \<longleftrightarrow> dyn_holds nf names values item d \<and> dyn_all nf names values item ds"

text \<open>The expression of a condition and its operands, from left to right.\<close>

fun cond_names :: "condition \<Rightarrow> string list" and conds_names :: "condition list \<Rightarrow> string list" where
  "cond_names ItemAbsent = [''pk'']"
| "cond_names (AttributeEquals name v) = [name]"
| "cond_names (AttributeIn name vs) = [name]"
| "cond_names (AllOf cs) = conds_names cs"
| "conds_names [] = []"
| "conds_names (c # cs) = cond_names c @ conds_names cs"

fun cond_values :: "number_format \<Rightarrow> condition \<Rightarrow> json list" and conds_values :: "number_format \<Rightarrow> condition list \<Rightarrow> json list" where
  "cond_values nf ItemAbsent = []"
| "cond_values nf (AttributeEquals name v) = [scalarAttributeValue nf v]"
| "cond_values nf (AttributeIn name vs) = map (\<lambda>s. attr ''S'' (JString s)) vs"
| "cond_values nf (AllOf cs) = conds_values nf cs"
| "conds_values nf [] = []"
| "conds_values nf (c # cs) = cond_values nf c @ conds_values nf cs"

fun dyn_of :: "number_format \<Rightarrow> condition \<Rightarrow> nat \<Rightarrow> nat \<Rightarrow> dyn_expr"
  and dyns_of :: "number_format \<Rightarrow> condition list \<Rightarrow> nat \<Rightarrow> nat \<Rightarrow> dyn_expr list" where
  "dyn_of nf ItemAbsent n v = NotExists n"
| "dyn_of nf (AttributeEquals name x) n v = EqualsTo n v"
| "dyn_of nf (AttributeIn name xs) n v = OneOf n [v..<v + length xs]"
| "dyn_of nf (AllOf cs) n v = Conjunction (dyns_of nf cs n v)"
| "dyns_of nf [] n v = []"
| "dyns_of nf (c # cs) n v =
     dyn_of nf c n v # dyns_of nf cs (n + length (cond_names c)) (v + length (cond_values nf c))"

lemma render_condition_allocated:
  "render_condition nf c (allocated ns vs) =
     (dyn_text (dyn_of nf c (length ns) (length vs)), allocated (ns @ cond_names c) (vs @ cond_values nf c))"
  "render_members nf i cs (allocated ns vs) =
     (dyn_texts i (dyns_of nf cs (length ns) (length vs)), allocated (ns @ conds_names cs) (vs @ conds_values nf cs))"
proof (induction c and cs arbitrary: ns vs and i ns vs rule: cond_names_conds_names.induct)
  case (6 c cs)
  then show ?case by (simp add: Let_def)
qed (simp_all add: namePlaceholder_allocated valuePlaceholder_allocated value_placeholders_allocated Let_def)

lemma toConditionExpression_parts:
  "toConditionExpression nf c =
     \<lparr>ep_expression = dyn_text (dyn_of nf c 0 0), ep_names = numbered ''#c'' (cond_names c), ep_values = numbered '':c'' (cond_values nf c)\<rparr>"
proof -
  have "\<lparr>al_names = [], al_values = [], al_name_count = 0, al_value_count = 0\<rparr> = allocated [] []"
    by (simp add: allocated_def numbered_def)
  then show ?thesis
    using render_condition_allocated(1) [of nf c "[]" "[]"]
    by (simp add: toConditionExpression_def render_eq allocated_def Let_def)
qed

text \<open>The placeholders of an expression, and the ones DynamoDB refuses to parse: an empty list.\<close>

fun dyn_names :: "dyn_expr \<Rightarrow> nat list" and dyns_names :: "dyn_expr list \<Rightarrow> nat list" where
  "dyn_names (NotExists n) = [n]"
| "dyn_names (EqualsTo n v) = [n]"
| "dyn_names (OneOf n vs) = [n]"
| "dyn_names (Conjunction ds) = dyns_names ds"
| "dyns_names [] = []"
| "dyns_names (d # ds) = dyn_names d @ dyns_names ds"

fun dyn_values :: "dyn_expr \<Rightarrow> nat list" and dyns_values :: "dyn_expr list \<Rightarrow> nat list" where
  "dyn_values (NotExists n) = []"
| "dyn_values (EqualsTo n v) = [v]"
| "dyn_values (OneOf n vs) = vs"
| "dyn_values (Conjunction ds) = dyns_values ds"
| "dyns_values [] = []"
| "dyns_values (d # ds) = dyn_values d @ dyns_values ds"

fun dyn_parses :: "dyn_expr \<Rightarrow> bool" where
  "dyn_parses (OneOf n vs) \<longleftrightarrow> vs \<noteq> []"
| "dyn_parses (Conjunction ds) \<longleftrightarrow> ds \<noteq> [] \<and> list_all dyn_parses ds"
| "dyn_parses _ \<longleftrightarrow> True"

fun renderable :: "number_format \<Rightarrow> condition \<Rightarrow> bool" where
  "renderable nf (AttributeEquals name (SNumber n)) \<longleftrightarrow> \<not> unencodableNumberReason n \<and> format_exact nf n"
| "renderable nf (AttributeIn name vs) \<longleftrightarrow> vs \<noteq> []"
| "renderable nf (AllOf cs) \<longleftrightarrow> cs \<noteq> [] \<and> list_all (renderable nf) cs"
| "renderable nf _ \<longleftrightarrow> True"

lemma dyn_placeholders:
  "dyn_names (dyn_of nf c n v) = [n..<n + length (cond_names c)] \<and> dyn_values (dyn_of nf c n v) = [v..<v + length (cond_values nf c)]"
  "dyns_names (dyns_of nf cs n v) = [n..<n + length (conds_names cs)] \<and> dyns_values (dyns_of nf cs n v) = [v..<v + length (conds_values nf cs)]"
proof (induction c and cs arbitrary: n v and n v rule: cond_names_conds_names.induct)
  case (6 c cs)
  then show ?case by (simp add: upt_add_eq_append [symmetric] add.assoc [symmetric])
qed simp_all

lemma dyns_of_nonempty [simp]: "dyns_of nf cs n v = [] \<longleftrightarrow> cs = []"
  by (cases cs) simp_all

lemma dyn_of_parses:
  "renderable nf c \<Longrightarrow> dyn_parses (dyn_of nf c n v)"
  "list_all (renderable nf) cs \<Longrightarrow> list_all dyn_parses (dyns_of nf cs n v)"
proof (induction c and cs arbitrary: n v and n v rule: cond_names_conds_names.induct)
  case (2 name x)
  then show ?case by simp
qed simp_all

lemma operand_matches_scalar:
  assumes "renderable nf (AttributeEquals name x)"
  shows "operand_matches nf current (scalarAttributeValue nf x) \<longleftrightarrow> scalar_matches current x"
proof (cases x)
  case (SString s)
  then show ?thesis
    by (auto simp: operand_matches_def decodeAttributeValue_def split: option.splits elim!: attribute_equal.elims)
next
  case (SNumber n)
  with assms have "decodeAttributeValue nf (scalarAttributeValue nf x) = Inr (JNumber n)"
    by (simp add: decodeAttributeValue_def decodeNumber_def format_exact_def)
  with SNumber show ?thesis
    by (cases current) (auto simp: operand_matches_def elim!: attribute_equal.elims scalar_matches.elims)
next
  case (SBool b)
  then show ?thesis
    by (cases current) (auto simp: operand_matches_def decodeAttributeValue_def elim!: attribute_equal.elims scalar_matches.elims)
qed

lemma operand_matches_string:
  "operand_matches nf current (attr ''S'' (JString s)) \<longleftrightarrow> current = Some (JString s)"
  using operand_matches_scalar [of nf name "SString s" current] by simp

lemma dyn_holds_of:
  "\<lbrakk>renderable nf c; case item of None \<Rightarrow> True | Some i \<Rightarrow> own_member i ''pk'' \<noteq> None\<rbrakk> \<Longrightarrow>
     dyn_holds nf ((!) (ns @ cond_names c @ ns')) ((!) (vs @ cond_values nf c @ vs')) item (dyn_of nf c (length ns) (length vs))
       \<longleftrightarrow> conditionHolds c item"
  "\<lbrakk>list_all (renderable nf) cs; case item of None \<Rightarrow> True | Some i \<Rightarrow> own_member i ''pk'' \<noteq> None\<rbrakk> \<Longrightarrow>
     dyn_all nf ((!) (ns @ conds_names cs @ ns')) ((!) (vs @ conds_values nf cs @ vs')) item (dyns_of nf cs (length ns) (length vs))
       \<longleftrightarrow> list_all (\<lambda>c. conditionHolds c item) cs"
proof (induction c and cs arbitrary: ns ns' vs vs' and ns ns' vs vs' rule: cond_names_conds_names.induct)
  case 1
  then show ?case by (auto split: option.splits)
next
  case (2 name x)
  then show ?case by (simp add: operand_matches_scalar)
next
  case (3 name xs)
  have "list_ex (\<lambda>v. operand_matches nf y ((vs @ map (\<lambda>s. attr ''S'' (JString s)) xs @ vs') ! v)) [length vs..<length vs + length xs]
      \<longleftrightarrow> (\<exists>i < length xs. operand_matches nf y (attr ''S'' (JString (xs ! i))))" for y
  proof -
    have "[length vs..<length vs + length xs] = map (\<lambda>i. length vs + i) [0..<length xs]"
      by (simp add: map_add_upt add.commute)
    then have "list_ex P [length vs..<length vs + length xs] \<longleftrightarrow> (\<exists>i < length xs. P (length vs + i))" for P
      by (auto simp: list_ex_iff image_def Bex_def simp del: upt_Suc)
    then show ?thesis by (auto simp: nth_append)
  qed
  then show ?case
    by (auto simp: operand_matches_string in_set_conv_nth split: option.splits json.splits)
next
  case (6 c cs)
  have "dyn_holds nf ((!) (ns @ cond_names c @ (conds_names cs @ ns'))) ((!) (vs @ cond_values nf c @ (conds_values nf cs @ vs'))) item
      (dyn_of nf c (length ns) (length vs)) \<longleftrightarrow> conditionHolds c item"
    using 6 by (intro 6) simp_all
  moreover have "dyn_all nf ((!) ((ns @ cond_names c) @ conds_names cs @ ns')) ((!) ((vs @ cond_values nf c) @ conds_values nf cs @ vs')) item
      (dyns_of nf cs (length (ns @ cond_names c)) (length (vs @ cond_values nf c))) \<longleftrightarrow> list_all (\<lambda>c. conditionHolds c item) cs"
    using 6 by (intro 6) simp_all
  ultimately show ?case by simp
qed simp_all

text \<open>The maps of placeholders, as DynamoDB looks them up.\<close>

definition resolved :: "string \<Rightarrow> (string \<times> 'a) list \<Rightarrow> 'a \<Rightarrow> nat \<Rightarrow> 'a" where
  "resolved prefix placeholders missing i =
     (case map_of placeholders (prefix @ nat_text i) of Some x \<Rightarrow> x | None \<Rightarrow> missing)"

lemma dyn_holds_cong:
  "\<lbrakk>\<forall>n \<in> set (dyn_names d). f n = f' n; \<forall>v \<in> set (dyn_values d). g v = g' v\<rbrakk> \<Longrightarrow> dyn_holds nf f g item d = dyn_holds nf f' g' item d"
  "\<lbrakk>\<forall>n \<in> set (dyns_names ds). f n = f' n; \<forall>v \<in> set (dyns_values ds). g v = g' v\<rbrakk> \<Longrightarrow> dyn_all nf f g item ds = dyn_all nf f' g' item ds"
proof (induction d and ds rule: dyn_names_dyns_names.induct)
  case (3 n vs)
  then show ?case by (auto simp: list_ex_iff)
qed auto

lemma resolved_numbered: "i < length xs \<Longrightarrow> resolved p (numbered p xs) missing i = xs ! i"
  by (simp add: resolved_def map_of_numbered)

lemma condition_rendered:
  assumes "renderable nf c" and "case item of None \<Rightarrow> True | Some i \<Rightarrow> own_member i ''pk'' \<noteq> None"
  shows "dyn_parses (dyn_of nf c 0 0)
    \<and> (dyn_holds nf (resolved ''#c'' (numbered ''#c'' (cond_names c)) [])
          (resolved '':c'' (numbered '':c'' (cond_values nf c)) JNull) item (dyn_of nf c 0 0) \<longleftrightarrow> conditionHolds c item)"
proof -
  have "dyn_holds nf (resolved ''#c'' (numbered ''#c'' (cond_names c)) [])
      (resolved '':c'' (numbered '':c'' (cond_values nf c)) JNull) item (dyn_of nf c 0 0)
      = dyn_holds nf ((!) (cond_names c)) ((!) (cond_values nf c)) item (dyn_of nf c 0 0)"
    by (rule dyn_holds_cong) (auto simp: dyn_placeholders(1) resolved_numbered simp del: append_Cons)
  moreover have "\<dots> \<longleftrightarrow> conditionHolds c item"
    using dyn_holds_of(1) [OF assms, where ns = "[]" and ns' = "[]" and vs = "[]" and vs' = "[]"] by simp
  ultimately show ?thesis using dyn_of_parses(1) [OF assms(1)] by simp
qed

text \<open>
  C29: the expression a condition is rendered to is the condition. It is a DynamoDB expression
  that parses, whose placeholders are numbered from 0, each bound by the two maps and used
  exactly once; and on every item that has the partition key attribute, and on no item, the
  expression holds exactly when the condition holds. The condition has no empty \<open>all\<close> or
  \<open>attribute_in\<close>, and its numbers survive the language's own conversion to text.
\<close>

theorem condition_expression_meaning:
  assumes "renderable nf c" and "case item of None \<Rightarrow> True | Some i \<Rightarrow> own_member i ''pk'' \<noteq> None"
  shows "\<exists>d. ep_expression (toConditionExpression nf c) = dyn_text d \<and> dyn_parses d
    \<and> dyn_names d = [0..<length (ep_names (toConditionExpression nf c))]
    \<and> dyn_values d = [0..<length (ep_values (toConditionExpression nf c))]
    \<and> distinct (map fst (ep_names (toConditionExpression nf c)))
    \<and> distinct (map fst (ep_values (toConditionExpression nf c)))
    \<and> (dyn_holds nf (resolved ''#c'' (ep_names (toConditionExpression nf c)) [])
          (resolved '':c'' (ep_values (toConditionExpression nf c)) JNull) item d \<longleftrightarrow> conditionHolds c item)"
proof -
  let ?d = "dyn_of nf c 0 0"
  have len: "length (numbered p xs) = length xs" for p and xs :: "'a list" by (simp add: numbered_def)
  have dist: "distinct (map fst (numbered p xs))" for p and xs :: "'a list"
    by (simp add: numbered_def comp_def distinct_map inj_on_def)
  show ?thesis
    using condition_rendered [OF assms] dyn_placeholders(1) [of nf c 0 0]
    by (intro exI [of _ ?d]) (simp add: toConditionExpression_parts len dist)
qed

definition sample_condition :: condition where
  "sample_condition =
     AllOf [AttributeEquals ''state'' (SString ''ARMED''), AttributeIn ''owner'' [''a'', ''b''], AttributeEquals ''version'' (SNumber (JsInt 3))]"

lemma sample_condition_renderable: "renderable integer_format sample_condition"
proof -
  have "\<not> unencodableNumberReason (JsInt 3)"
    by (simp add: JsInt_def MIN_NUMBER_MAGNITUDE_def MAX_SAFE_INTEGER_def)
  then show ?thesis by (simp add: sample_condition_def integer_format_exact)
qed

theorem condition_expression_meaning_witness:
  "\<exists>d. ep_expression (toConditionExpression integer_format sample_condition) = dyn_text d \<and> dyn_parses d
     \<and> \<not> dyn_holds integer_format (resolved ''#c'' (ep_names (toConditionExpression integer_format sample_condition)) [])
          (resolved '':c'' (ep_values (toConditionExpression integer_format sample_condition)) JNull) None d"
proof -
  have "\<not> conditionHolds sample_condition None" by (simp add: sample_condition_def)
  with condition_expression_meaning [OF sample_condition_renderable, of None] show ?thesis by auto
qed

subsection \<open>The measures\<close>

text \<open>Depth, operators and operands by recursion, as the limits are documented.\<close>

fun cond_depth :: "condition \<Rightarrow> nat" and conds_depth :: "condition list \<Rightarrow> nat" where
  "cond_depth (AllOf cs) = conds_depth cs"
| "cond_depth ItemAbsent = 0"
| "cond_depth (AttributeEquals name v) = 0"
| "cond_depth (AttributeIn name vs) = 0"
| "conds_depth [] = 0"
| "conds_depth (c # cs) = max (Suc (cond_depth c)) (conds_depth cs)"

fun dyn_operators :: "dyn_expr \<Rightarrow> nat" and dyns_operators :: "dyn_expr list \<Rightarrow> nat" where
  "dyn_operators (Conjunction ds) = length ds - 1 + dyns_operators ds"
| "dyn_operators (NotExists n) = 1"
| "dyn_operators (EqualsTo n v) = 1"
| "dyn_operators (OneOf n vs) = 1"
| "dyns_operators [] = 0"
| "dyns_operators (d # ds) = dyn_operators d + dyns_operators ds"

lemma cond_depth_nested:
  "d + cond_depth c = max d (foldr max (map (\<lambda>n. d + 1 + cond_depth n) (nested_conditions c)) 0)"
proof -
  have "max d (d + conds_depth cs) = max d (foldr max (map (\<lambda>n. d + 1 + cond_depth n) cs) 0)" for cs
    by (induction cs) auto
  then show ?thesis by (cases c) simp_all
qed

lemma foldr_max_append: "foldr max (xs @ ys) (0 :: nat) = max (foldr max xs 0) (foldr max ys 0)"
  by (induction xs) auto

lemma foldr_max_rev: "foldr max (rev xs) (0 :: nat) = foldr max xs 0"
  by (induction xs) (simp_all add: foldr_max_append max.commute del: foldr_append)

lemma nesting_loop_depth: "nesting_loop pending deepest = max deepest (foldr max (map (\<lambda>(c, d). d + cond_depth c) pending) 0)"
proof (induction pending deepest rule: nesting_loop.induct)
  case (2 c depth pending deepest)
  then show ?case
    using cond_depth_nested [of depth c]
    by (simp add: pushEach_eq foldr_max_append rev_map [symmetric] foldr_max_rev comp_def max.assoc del: foldr_append)
qed simp

lemma conditionNesting_depth: "conditionNesting c = cond_depth c"
  by (simp add: conditionNesting_def nesting_loop_depth)

lemma nodes_loop_sum:
  fixes f :: "condition \<Rightarrow> nat" and g :: "condition \<Rightarrow> nat"
  assumes "\<And>c. g c = f c + sum_list (map g (nested_conditions c))"
  shows "sum_list (map f (nodes_loop pending nodes)) = sum_list (map f nodes) + sum_list (map g pending)"
proof (induction pending nodes rule: nodes_loop.induct)
  case (2 c pending nodes)
  then show ?case
    using assms [of c] by (simp add: pushEach_eq rev_map [symmetric] sum_list_rev)
qed simp

lemma foldl_count: "foldl (\<lambda>count node. count + f node) (k :: nat) xs = k + sum_list (map f xs)"
  by (induction xs arbitrary: k) simp_all

fun cond_operators :: "condition \<Rightarrow> nat" where
  "cond_operators (AllOf cs) = length cs - 1 + sum_list (map cond_operators cs)"
| "cond_operators _ = 1"

lemma length_dyns_of [simp]: "length (dyns_of nf cs n v) = length cs"
  by (induction cs arbitrary: n v) simp_all

lemma dyn_operators_of:
  "dyn_operators (dyn_of nf c n v) = cond_operators c"
  "dyns_operators (dyns_of nf cs n v) = sum_list (map cond_operators cs)"
  by (induction c and cs arbitrary: n v and n v rule: cond_names_conds_names.induct) simp_all

lemma conditionOperatorCount_operators: "conditionOperatorCount c = cond_operators c"
proof -
  have "cond_operators c = node_operators c + sum_list (map cond_operators (nested_conditions c))" for c
    by (cases c) (simp_all add: node_operators_def)
  from nodes_loop_sum [OF this, of "[c]" "[]"] show ?thesis
    by (simp add: conditionOperatorCount_def conditionNodes_def foldl_count)
qed

lemma cond_names_bytes:
  "sum_list (map w (cond_names c)) = sum_list (map w (fst (node_operands c))) + sum_list (map (\<lambda>n. sum_list (map w (cond_names n))) (nested_conditions c))"
  for w :: "string \<Rightarrow> nat"
proof -
  have "sum_list (map w (conds_names cs)) = sum_list (map (\<lambda>n. sum_list (map w (cond_names n))) cs)" for cs
    by (induction cs) simp_all
  then show ?thesis by (cases c) simp_all
qed

lemma conditionOperands_names: "sum_list (map w (fst (conditionOperands c))) = sum_list (map w (cond_names c))"
  for w :: "string \<Rightarrow> nat"
proof -
  have "sum_list (map w (fst (foldl (\<lambda>(names, values) node. (names @ fst (node_operands node), values @ snd (node_operands node))) (ns, vs) cs)))
      = sum_list (map w ns) + sum_list (map (\<lambda>c. sum_list (map w (fst (node_operands c)))) cs)" for ns vs cs
    by (induction cs arbitrary: ns vs) simp_all
  then show ?thesis
    using nodes_loop_sum [OF cond_names_bytes, of w "[c]" "[]"]
    by (simp add: conditionOperands_def conditionNodes_def)
qed

lemma length_le_bytes: "length s \<le> utf8Bytes s"
  unfolding utf8Bytes_def by (induction s) auto

lemma nat_text_length: "1 \<le> length (nat_text k)"
  by (simp add: Suc_le_eq nat_text_nonempty)

lemma dyn_text_length:
  "renderable nf c \<Longrightarrow> SHORTEST_LEAF_BYTES + 2 * cond_depth c \<le> length (dyn_text (dyn_of nf c n v))"
  "\<lbrakk>list_all (renderable nf) cs; cs \<noteq> []\<rbrakk> \<Longrightarrow> SHORTEST_LEAF_BYTES + 2 * conds_depth cs \<le> length (dyn_texts i (dyns_of nf cs n v))"
proof (induction c and cs arbitrary: n v and i n v rule: cond_names_conds_names.induct)
  case (6 c cs)
  have "SHORTEST_LEAF_BYTES + 2 * cond_depth c \<le> length (dyn_text (dyn_of nf c n v))" using 6 by simp
  moreover have "cs \<noteq> [] \<Longrightarrow> SHORTEST_LEAF_BYTES + 2 * conds_depth cs
      \<le> length (dyn_texts (Suc i) (dyns_of nf cs (n + length (cond_names c)) (v + length (cond_values nf c))))"
    using 6 by simp
  ultimately show ?case by (cases "cs = []") (auto simp: max_def)
next
  case (2 name x)
  show ?case using nat_text_length [of n] nat_text_length [of v] by (simp add: SHORTEST_LEAF_BYTES_def)
next
  case (3 name xs)
  show ?case using nat_text_length [of n] by (simp add: SHORTEST_LEAF_BYTES_def)
qed (auto simp: SHORTEST_LEAF_BYTES_def)

text \<open>
  C30: the limits of a condition are measured on what is sent. The iterative measures agree with
  the expression: the operators counted are the expression's and the bytes of names counted are
  those of the names its placeholders stand for, so a condition without violations has an
  expression of at most 4,096 bytes and 300 operators. And the nesting bound refuses nothing that
  fits: a condition nested deeper than \<open>MAX_CONDITION_NESTING\<close>, with no empty \<open>all\<close>, renders to
  more than 4,096 bytes.
\<close>

theorem condition_limits_exact:
  assumes "renderable nf c"
  shows "\<exists>d. ep_expression (toConditionExpression nf c) = dyn_text d
    \<and> conditionOperatorCount c = dyn_operators d
    \<and> sum_list (map utf8Bytes (fst (conditionOperands c)))
        = sum_list (map (utf8Bytes \<circ> snd) (ep_names (toConditionExpression nf c)))
    \<and> (conditionLimitViolations nf c = [] \<longleftrightarrow> utf8Bytes (dyn_text d) \<le> 4096 \<and> dyn_operators d \<le> 300)
    \<and> (conditionNesting c > MAX_CONDITION_NESTING \<longrightarrow> ExpressionTooLong \<in> set (conditionLimitViolations nf c))"
proof -
  let ?d = "dyn_of nf c 0 0"
  have rendered: "ep_expression (toConditionExpression nf c) = dyn_text ?d"
    and names: "map snd (ep_names (toConditionExpression nf c)) = cond_names c"
    by (simp_all add: toConditionExpression_parts numbered_def comp_def map_nth)
  have "sum_list (map (utf8Bytes \<circ> snd) (ep_names (toConditionExpression nf c))) = sum_list (map utf8Bytes (cond_names c))"
    by (simp flip: names)
  moreover have "9 + 2 * conditionNesting c \<le> utf8Bytes (dyn_text ?d)"
    using dyn_text_length(1) [OF assms, of 0 0] length_le_bytes [of "dyn_text ?d"]
    by (simp add: conditionNesting_depth SHORTEST_LEAF_BYTES_def)
  ultimately show ?thesis
    using rendered by (intro exI [of _ ?d])
      (auto simp: conditionOperatorCount_operators dyn_operators_of conditionOperands_names conditionLimitViolations_def
        expressionLengthViolation_def MAX_EXPRESSION_BYTES_def MAX_EXPRESSION_OPERATORS_def MAX_CONDITION_NESTING_def SHORTEST_LEAF_BYTES_def)
qed

text \<open>The sample renders to 51 bytes with five operators.\<close>

lemma sample_condition_bytes: "utf8Bytes (ep_expression (toConditionExpression integer_format sample_condition)) \<le> 4096"
  unfolding toConditionExpression_parts sample_condition_def by (simp add: joined_def) code_simp

lemma sample_condition_operators: "conditionOperatorCount sample_condition \<le> 300"
  by (simp add: conditionOperatorCount_operators sample_condition_def)

theorem condition_limits_exact_witness:
  "conditionLimitViolations integer_format sample_condition = []"
  using condition_limits_exact [OF sample_condition_renderable] sample_condition_bytes sample_condition_operators
  by metis

end
