(* ===== verification/Store_Requests.thy ===== *)
theory Store_Requests
  imports Store_Expressions
begin

text \<open>
  Requests of the DynamoDB item store (\<^verbatim>\<open>durable-store/write-action-validation.ts\<close>,
  \<^verbatim>\<open>dynamodb-requests.ts\<close>, \<^verbatim>\<open>dynamo-error-classification.ts\<close> and
  \<^verbatim>\<open>aws/dynamodb-item-store.ts\<close>): what is refused before sending, the input planned for the SDK
  and how its answers and errors are read. A violation is its kind without its text and location.
  Whatever the SDK is given and answers is a value; the SDK itself is a parameter of the adapter.
  The pages of a query are not modelled: their cursors are base64url of JSON text.
\<close>

subsection \<open>Validation (\<^verbatim>\<open>write-action-validation.ts\<close>)\<close>

definition MAX_TRANSACTION_ACTIONS :: nat where "MAX_TRANSACTION_ACTIONS = 100"

definition MAX_IN_OPERANDS :: nat where "MAX_IN_OPERANDS = 100"

definition MAX_PARTITION_KEY_BYTES :: nat where "MAX_PARTITION_KEY_BYTES = 2048"

definition MAX_SORT_KEY_BYTES :: nat where "MAX_SORT_KEY_BYTES = 1024"

definition MAX_ATTRIBUTE_NAME_BYTES :: nat where "MAX_ATTRIBUTE_NAME_BYTES = 64 * 1024"

definition KEY_ATTRIBUTES :: "string list" where "KEY_ATTRIBUTES = [''pk'', ''sk'']"

datatype write_violation =
    InvalidKeyPart string
  | EmptyAttributeName
  | AttributeNameTooLong
  | UnstorableValue value_violation
  | ItemTooLarge
  | UpdatesNothing
  | UpdatesKeyAttribute
  | SetAndIncremented
  | UnsafeIncrement
  | ConditionNestedTooDeep
  | InOperandCount
  | EmptyAll
  | ExpressionLimit expression_violation
  | ActionCount
  | InvalidRequestToken
  | SameItem nat nat
  | TransactionTooLarge

text \<open>No string of the model holds a surrogate, so every one is well formed.\<close>

definition keyPartViolation :: "string \<Rightarrow> string \<Rightarrow> nat \<Rightarrow> write_violation list" where
  "keyPartViolation part v maxBytes =
     (if 0 < utf8Bytes v \<and> utf8Bytes v \<le> maxBytes then [] else [InvalidKeyPart part])"

definition partitionKeyViolations :: "string \<Rightarrow> write_violation list" where
  "partitionKeyViolations k = keyPartViolation ''pk'' k MAX_PARTITION_KEY_BYTES"

definition keyViolations :: "item_key \<Rightarrow> write_violation list" where
  "keyViolations key = partitionKeyViolations (pk key) @ keyPartViolation ''sk'' (sk key) MAX_SORT_KEY_BYTES"

definition attributeNameViolation :: "string \<Rightarrow> write_violation list" where
  "attributeNameViolation name =
     (if name = [] then [EmptyAttributeName]
      else if utf8Bytes name > MAX_ATTRIBUTE_NAME_BYTES then [AttributeNameTooLong] else [])"

definition itemAttributeViolations :: "number_format \<Rightarrow> stored_item \<Rightarrow> write_violation list" where
  "itemAttributeViolations nf item =
     concat (map (\<lambda>(name, v). attributeNameViolation name @ map UnstorableValue (storableValueViolations v)) item)
     @ (if itemSizeViolation nf item then [ItemTooLarge] else [])"

definition updateViolations ::
  "number_format \<Rightarrow> item_key \<Rightarrow> (string \<times> json) list \<Rightarrow> (string \<times> int) list \<Rightarrow> write_violation list" where
  "updateViolations nf key sets increments =
     (let setNames = map fst sets; names = setNames @ map fst increments
      in (if names = [] then [UpdatesNothing] else [])
         @ map (\<lambda>_. UpdatesKeyAttribute) (filter (\<lambda>name. name \<in> set KEY_ATTRIBUTES) names)
         @ map (\<lambda>_. SetAndIncremented) (filter (\<lambda>(name, _). name \<in> set setNames) increments)
         @ concat (map attributeNameViolation names)
         @ concat (map (\<lambda>(_, v). map UnstorableValue (storableValueViolations v)) sets)
         @ map (\<lambda>_. UnsafeIncrement) (filter (\<lambda>(_, amount). \<not> isSafeInteger (JsInt amount)) increments)
         @ (if itemSizeViolation nf (obj_merge sets (key_members key)) then [ItemTooLarge] else []))"

fun conditionNodeViolations :: "condition \<Rightarrow> write_violation list" where
  "conditionNodeViolations ItemAbsent = []"
| "conditionNodeViolations (AttributeEquals name v) =
     attributeNameViolation name
     @ (case v of SNumber n \<Rightarrow> map UnstorableValue (storableValueViolations (JNumber n)) | _ \<Rightarrow> [])"
| "conditionNodeViolations (AttributeIn name vs) =
     attributeNameViolation name @ (if length vs = 0 \<or> length vs > MAX_IN_OPERANDS then [InOperandCount] else [])"
| "conditionNodeViolations (AllOf cs) = (if length cs = 0 then [EmptyAll] else [])"

function condition_walk :: "condition list \<Rightarrow> write_violation list \<Rightarrow> write_violation list" where
  "condition_walk [] violations = violations"
| "condition_walk (node # pending) violations =
     condition_walk (pushEach pending (rev (nested_conditions node))) (violations @ conditionNodeViolations node)"
  by pat_completeness auto
termination
proof (relation "measure (\<lambda>(pending, _). sum_list (map (\<lambda>c. Suc (size c)) pending))")
  fix node :: condition and pending violations
  show "((pushEach pending (rev (nested_conditions node)), violations @ conditionNodeViolations node), (node # pending, violations))
      \<in> measure (\<lambda>(pending, _). sum_list (map (\<lambda>c. Suc (size c)) pending))"
    using size_nested [of node] by (simp add: pushEach_eq)
qed simp

definition conditionViolations :: "condition \<Rightarrow> write_violation list" where
  "conditionViolations c =
     (if conditionNesting c > MAX_CONDITION_NESTING then [ConditionNestedTooDeep] else condition_walk [c] [])"

text \<open>The key of a put is the one its item holds.\<close>

definition item_own_key :: "stored_item \<Rightarrow> item_key" where
  "item_own_key item = \<lparr>pk = text_member item ''pk'', sk = text_member item ''sk''\<rparr>"

fun actionKey :: "write_action \<Rightarrow> item_key" where
  "actionKey (Put _ _ item _) = item_own_key item"
| "actionKey (Update _ key _ _ _) = key"
| "actionKey (ConditionCheck _ key _) = key"

fun structuralViolations :: "number_format \<Rightarrow> write_action \<Rightarrow> write_violation list" where
  "structuralViolations nf (Put t k item c) =
     keyViolations (item_own_key item) @ itemAttributeViolations nf item
     @ (case c of None \<Rightarrow> [] | Some c' \<Rightarrow> conditionViolations c')"
| "structuralViolations nf (Update t key sets increments c) =
     keyViolations key @ updateViolations nf key sets increments @ conditionViolations c"
| "structuralViolations nf (ConditionCheck t key c) = keyViolations key @ conditionViolations c"

definition validateWriteAction :: "number_format \<Rightarrow> write_action \<Rightarrow> js_throw + write_violation list" where
  "validateWriteAction nf action =
     (let violations = structuralViolations nf action
      in if violations \<noteq> [] then Inr violations
         else case expressionLimitViolations nf action of Inl e \<Rightarrow> Inl e | Inr vs \<Rightarrow> Inr (map ExpressionLimit vs))"

text \<open>\<^verbatim>\<open>JSON.stringify\<close> of a string.\<close>

definition hex_digit :: "nat \<Rightarrow> char" where
  "hex_digit n = ''0123456789abcdef'' ! n"

definition json_escape :: "char \<Rightarrow> string" where
  "json_escape c =
     (if c = CHR 0x22 then [CHR 0x5C, CHR 0x22]
      else if c = CHR 0x5C then [CHR 0x5C, CHR 0x5C]
      else if c = CHR 0x08 then [CHR 0x5C, CHR ''b'']
      else if c = CHR 0x0C then [CHR 0x5C, CHR ''f'']
      else if c = CHR 0x0A then [CHR 0x5C, CHR ''n'']
      else if c = CHR 0x0D then [CHR 0x5C, CHR ''r'']
      else if c = CHR 0x09 then [CHR 0x5C, CHR ''t'']
      else if of_char c < (32 :: nat) then CHR 0x5C # ''u00'' @ [hex_digit (of_char c div 16), hex_digit (of_char c mod 16)]
      else [c])"

definition json_quoted :: "string \<Rightarrow> string" where
  "json_quoted s = CHR 0x22 # concat (map json_escape s) @ [CHR 0x22]"

fun table_text :: "table_role \<Rightarrow> string" where
  "table_text LedgerTable = ''ledger''"
| "table_text ExperimentJournalTable = ''experiment_journal''"
| "table_text CallerJournalTable = ''caller_journal''"
| "table_text ControlTable = ''control''"
| "table_text TrialRegistryTable = ''trial_registry''"
| "table_text CoordinationTable = ''coordination''"

definition itemIdentity :: "write_action \<Rightarrow> string" where
  "itemIdentity action =
     table_text (action_table action) @ '' '' @ json_quoted (pk (actionKey action)) @ '' '' @ json_quoted (sk (actionKey action))"

fun transaction_members ::
  "number_format \<Rightarrow> nat \<Rightarrow> write_action list \<Rightarrow> (string \<rightharpoonup> nat) \<Rightarrow> write_violation list \<Rightarrow> js_throw + write_violation list" where
  "transaction_members nf index [] seen violations = Inr violations"
| "transaction_members nf index (action # actions) seen violations =
     (case validateWriteAction nf action of
        Inl e \<Rightarrow> Inl e
      | Inr actionViolations \<Rightarrow>
          (let item = (if keyViolations (actionKey action) = [] then Some (itemIdentity action) else None);
               earlier = Option.bind item seen
           in transaction_members nf (index + 1) actions
                (case item of None \<Rightarrow> seen | Some i \<Rightarrow> seen(i \<mapsto> index))
                (violations @ (case earlier of None \<Rightarrow> [] | Some e \<Rightarrow> [SameItem index e]) @ actionViolations)))"

definition validateTransaction :: "number_format \<Rightarrow> write_action list \<Rightarrow> string \<Rightarrow> js_throw + write_violation list" where
  "validateTransaction nf actions clientRequestToken =
     (case transaction_members nf 0 actions Map.empty
             ((if length actions = 0 \<or> length actions > MAX_TRANSACTION_ACTIONS then [ActionCount] else [])
              @ (if isUuid4 (JString clientRequestToken) then [] else [InvalidRequestToken])) of
        Inl e \<Rightarrow> Inl e
      | Inr violations \<Rightarrow>
          (let dataBytes = (if violations = [] then transactionDataBytes nf actions else 0)
           in Inr (violations @ (if dataBytes > MAX_TRANSACTION_DATA_BYTES then [TransactionTooLarge] else []))))"

subsection \<open>Requests (\<^verbatim>\<open>dynamodb-requests.ts\<close>)\<close>

type_synonym store_table_names = "table_role \<rightharpoonup> string"

record condition_fields =
  cf_ConditionExpression :: string
  cf_ExpressionAttributeNames :: "(string \<times> string) list"
  cf_ExpressionAttributeValues :: "(string \<times> json) list option"
  cf_ReturnValuesOnConditionCheckFailure :: string

datatype member_input =
    PutInput string "(string \<times> json) list" "condition_fields option"
  | UpdateInput string "(string \<times> json) list" string condition_fields
  | CheckInput string "(string \<times> json) list" condition_fields

datatype planned_write =
    PlannedPutItem member_input
  | PlannedUpdateItem member_input
  | PlannedTransactWriteItems "member_input list" "string option"

definition encodeKey :: "item_key \<Rightarrow> (string \<times> json) list" where
  "encodeKey key = [(''pk'', attr ''S'' (JString (pk key))), (''sk'', attr ''S'' (JString (sk key)))]"

definition mergedExpressionFields :: "expression_parts \<Rightarrow> expression_parts option \<Rightarrow> condition_fields" where
  "mergedExpressionFields c update =
     (let names = obj_merge (ep_names c) (case update of None \<Rightarrow> [] | Some u \<Rightarrow> ep_names u);
          values = obj_merge (ep_values c) (case update of None \<Rightarrow> [] | Some u \<Rightarrow> ep_values u)
      in \<lparr>cf_ConditionExpression = ep_expression c, cf_ExpressionAttributeNames = names,
          cf_ExpressionAttributeValues = (if length values = 0 then None else Some values),
          cf_ReturnValuesOnConditionCheckFailure = ''ALL_OLD''\<rparr>)"

definition conditionFields :: "number_format \<Rightarrow> condition option \<Rightarrow> condition_fields option" where
  "conditionFields nf c = map_option (\<lambda>c. mergedExpressionFields (toConditionExpression nf c) None) c"

definition putInput :: "number_format \<Rightarrow> string \<Rightarrow> stored_item \<Rightarrow> condition option \<Rightarrow> js_throw + member_input" where
  "putInput nf tableName item c =
     (case encodeAttributeMap nf item of Inl e \<Rightarrow> Inl e | Inr encoded \<Rightarrow> Inr (PutInput tableName encoded (conditionFields nf c)))"

definition updateInput ::
  "number_format \<Rightarrow> string \<Rightarrow> item_key \<Rightarrow> (string \<times> json) list \<Rightarrow> (string \<times> int) list \<Rightarrow> condition \<Rightarrow> js_throw + member_input" where
  "updateInput nf tableName key sets increments c =
     (case toUpdateExpression nf sets increments of
        Inl e \<Rightarrow> Inl e
      | Inr update \<Rightarrow>
          Inr (UpdateInput tableName (encodeKey key) (ep_expression update)
                 (mergedExpressionFields (toConditionExpression nf c) (Some update))))"

definition conditionCheckInput :: "number_format \<Rightarrow> string \<Rightarrow> item_key \<Rightarrow> condition \<Rightarrow> member_input" where
  "conditionCheckInput nf tableName key c =
     CheckInput tableName (encodeKey key) (mergedExpressionFields (toConditionExpression nf c) None)"

fun transactMember :: "number_format \<Rightarrow> string \<Rightarrow> write_action \<Rightarrow> js_throw + member_input" where
  "transactMember nf tableName (Put _ _ item c) = putInput nf tableName item c"
| "transactMember nf tableName (Update _ key sets increments c) = updateInput nf tableName key sets increments c"
| "transactMember nf tableName (ConditionCheck _ key c) = Inr (conditionCheckInput nf tableName key c)"

definition VALIDATION_CODE :: string where "VALIDATION_CODE = ''ValidationException''"

definition TABLE_NOT_CONFIGURED_CODE :: string where "TABLE_NOT_CONFIGURED_CODE = ''TableNotConfigured''"

definition UNDECODABLE_ITEM_CODE :: string where "UNDECODABLE_ITEM_CODE = ''UndecodableItem''"

text \<open>A plan throws, is refused with a code, or is the input to send.\<close>

definition planWrite :: "number_format \<Rightarrow> store_table_names \<Rightarrow> write_action \<Rightarrow> js_throw + (string + planned_write)" where
  "planWrite nf tables action =
     (case validateWriteAction nf action of
        Inl e \<Rightarrow> Inl e
      | Inr violations \<Rightarrow>
          if length violations > 0 then Inr (Inl VALIDATION_CODE)
          else (case tables (action_table action) of
                  None \<Rightarrow> Inr (Inl TABLE_NOT_CONFIGURED_CODE)
                | Some tableName \<Rightarrow>
                    (case action of
                       Put _ _ item c \<Rightarrow> map_sum id (Inr \<circ> PlannedPutItem) (putInput nf tableName item c)
                     | Update _ key sets increments c \<Rightarrow>
                         map_sum id (Inr \<circ> PlannedUpdateItem) (updateInput nf tableName key sets increments c)
                     | ConditionCheck _ key c \<Rightarrow>
                         Inr (Inr (PlannedTransactWriteItems [conditionCheckInput nf tableName key c] None)))))"

fun plan_members ::
  "number_format \<Rightarrow> store_table_names \<Rightarrow> write_action list \<Rightarrow> member_input list \<Rightarrow> js_throw + (string + member_input list)" where
  "plan_members nf tables [] members = Inr (Inr members)"
| "plan_members nf tables (action # actions) members =
     (case tables (action_table action) of
        None \<Rightarrow> Inr (Inl TABLE_NOT_CONFIGURED_CODE)
      | Some tableName \<Rightarrow>
          (case transactMember nf tableName action of
             Inl e \<Rightarrow> Inl e
           | Inr member \<Rightarrow> plan_members nf tables actions (members @ [member])))"

definition planTransaction ::
  "number_format \<Rightarrow> store_table_names \<Rightarrow> write_action list \<Rightarrow> string \<Rightarrow> js_throw + (string + planned_write)" where
  "planTransaction nf tables actions clientRequestToken =
     (case validateTransaction nf actions clientRequestToken of
        Inl e \<Rightarrow> Inl e
      | Inr violations \<Rightarrow>
          if length violations > 0 then Inr (Inl VALIDATION_CODE)
          else map_sum id (map_sum id (\<lambda>members. PlannedTransactWriteItems members (Some clientRequestToken)))
                 (plan_members nf tables actions []))"

record get_item_input =
  gi_TableName :: string
  gi_Key :: "(string \<times> json) list"
  gi_ConsistentRead :: bool

definition planGetItem :: "store_table_names \<Rightarrow> table_role \<Rightarrow> item_key \<Rightarrow> string + get_item_input" where
  "planGetItem tables table key =
     (if length (keyViolations key) > 0 then Inl VALIDATION_CODE
      else case tables table of
             None \<Rightarrow> Inl TABLE_NOT_CONFIGURED_CODE
           | Some tableName \<Rightarrow> Inr \<lparr>gi_TableName = tableName, gi_Key = encodeKey key, gi_ConsistentRead = True\<rparr>)"

definition readGetItemOutput :: "number_format \<Rightarrow> json option \<Rightarrow> string + stored_item option" where
  "readGetItemOutput nf item =
     (case item of
        None \<Rightarrow> Inr None
      | Some raw \<Rightarrow> (case decodeStoredItem nf (Some raw) of Inl _ \<Rightarrow> Inl UNDECODABLE_ITEM_CODE | Inr i \<Rightarrow> Inr (Some i)))"

subsection \<open>Errors (\<^verbatim>\<open>dynamo-error-classification.ts\<close>)\<close>

text \<open>
  A thrown value is not an object, or an object whose properties answer when read: \<open>Inl\<close> when
  reading throws, \<open>Inr None\<close> for \<^verbatim>\<open>undefined\<close>, otherwise a value. Values nested in it are data.
\<close>

datatype thrown_value = NotAnObject | ErrorObject "string \<Rightarrow> unit + json option"

definition DEFINITIVE_ERROR_NAMES :: "string list" where
  "DEFINITIVE_ERROR_NAMES =
     [''AccessDeniedException'', ''IdempotentParameterMismatchException'', ''IncompleteSignatureException'',
      ''ItemCollectionSizeLimitExceededException'', ''MissingAuthenticationTokenException'',
      ''ProvisionedThroughputExceededException'', ''ReplicatedWriteConflictException'', ''RequestLimitExceeded'',
      ''ResourceNotFoundException'', ''ThrottlingException'', ''TransactionConflictException'',
      ''UnrecognizedClientException'', ''ValidationException'']"

definition UNREADABLE_ERROR_CODE :: string where "UNREADABLE_ERROR_CODE = ''UnreadableError''"

definition NO_ERROR_REASON :: string where "NO_ERROR_REASON = ''None''"

definition CONDITION_REASON :: string where "CONDITION_REASON = ''ConditionalCheckFailed''"

fun errorProperty :: "thrown_value \<Rightarrow> string \<Rightarrow> unit + json option" where
  "errorProperty NotAnObject name = Inr None"
| "errorProperty (ErrorObject read) name = read name"

fun propertyOf :: "json \<Rightarrow> string \<Rightarrow> json option" where
  "propertyOf (JObject ms) name = own_member ms name"
| "propertyOf _ name = None"

definition nonempty_text :: "json option \<Rightarrow> string option" where
  "nonempty_text v = (case v of Some (JString s) \<Rightarrow> if s \<noteq> [] then Some s else None | _ \<Rightarrow> None)"

definition readableErrorCode :: "thrown_value \<Rightarrow> unit + string" where
  "readableErrorCode error =
     (case error of
        NotAnObject \<Rightarrow> Inr ''NonErrorThrown''
      | ErrorObject _ \<Rightarrow>
          (case errorProperty error ''name'' of
             Inl e \<Rightarrow> Inl e
           | Inr name \<Rightarrow>
               (case errorProperty error ''code'' of
                  Inl e \<Rightarrow> Inl e
                | Inr systemCode \<Rightarrow>
                    (case nonempty_text systemCode of
                       Some code \<Rightarrow>
                         if name = None \<or> name = Some (JString ''Error'') then Inr code
                         else Inr (case nonempty_text name of Some n \<Rightarrow> n | None \<Rightarrow> ''UnknownError'')
                     | None \<Rightarrow> Inr (case nonempty_text name of Some n \<Rightarrow> n | None \<Rightarrow> ''UnknownError'')))))"

definition errorCode :: "thrown_value \<Rightarrow> string" where
  "errorCode error = (case readableErrorCode error of Inl _ \<Rightarrow> UNREADABLE_ERROR_CODE | Inr code \<Rightarrow> code)"

definition conditionFailed :: "number_format \<Rightarrow> nat \<Rightarrow> json option \<Rightarrow> write_outcome" where
  "conditionFailed nf index rawItem =
     (case rawItem of
        None \<Rightarrow> ConditionFailed index None
      | Some raw \<Rightarrow>
          (case decodeStoredItem nf (Some raw) of Inr existing \<Rightarrow> ConditionFailed index (Some existing) | Inl _ \<Rightarrow> ConditionFailed index None))"

fun find_index :: "('a \<Rightarrow> bool) \<Rightarrow> 'a list \<Rightarrow> nat option" where
  "find_index P [] = None"
| "find_index P (x # xs) = (if P x then Some 0 else map_option Suc (find_index P xs))"

definition classifyCancellation :: "number_format \<Rightarrow> json option \<Rightarrow> write_outcome" where
  "classifyCancellation nf reasons =
     (let reason_list = (case reasons of Some (JArray rs) \<Rightarrow> rs | _ \<Rightarrow> [])
      in case find_index (\<lambda>reason. propertyOf reason ''Code'' = Some (JString CONDITION_REASON)) reason_list of
           Some i \<Rightarrow> conditionFailed nf i (propertyOf (reason_list ! i) ''Item'')
         | None \<Rightarrow>
             DefinitiveFailure
               (case List.find (\<lambda>code. code \<noteq> NO_ERROR_REASON)
                       (List.map_filter (\<lambda>reason. nonempty_text (propertyOf reason ''Code'')) reason_list) of
                  Some cause \<Rightarrow> cause
                | None \<Rightarrow> ''TransactionCanceledException''))"

definition classifyReadableError :: "number_format \<Rightarrow> thrown_value \<Rightarrow> unit + write_outcome" where
  "classifyReadableError nf error =
     (let code = errorCode error
      in if code = ''ConditionalCheckFailedException'' then map_sum id (conditionFailed nf 0) (errorProperty error ''Item'')
         else if code = ''TransactionCanceledException'' then
           map_sum id (classifyCancellation nf) (errorProperty error ''CancellationReasons'')
         else Inr (if code \<in> set DEFINITIVE_ERROR_NAMES then DefinitiveFailure code else Ambiguous code))"

definition classifyDynamoError :: "number_format \<Rightarrow> thrown_value \<Rightarrow> write_outcome" where
  "classifyDynamoError nf error =
     (case classifyReadableError nf error of Inl _ \<Rightarrow> Ambiguous UNREADABLE_ERROR_CODE | Inr outcome \<Rightarrow> outcome)"

subsection \<open>The adapter (\<^verbatim>\<open>aws/dynamodb-item-store.ts\<close>)\<close>

text \<open>
  The SDK's client is a parameter: what one command answers or throws in a world, and the world
  after it. Its \<^verbatim>\<open>GetItem\<close> answers the output's \<^verbatim>\<open>Item\<close>.
\<close>

record 'w dynamo_client =
  send_write :: "planned_write \<Rightarrow> ('w, thrown_value + unit) state"
  send_get :: "get_item_input \<Rightarrow> ('w, thrown_value + json option) state"

definition sendWrite :: "number_format \<Rightarrow> 'w dynamo_client \<Rightarrow> js_throw + (string + planned_write) \<Rightarrow> ('w, write_outcome) io" where
  "sendWrite nf client planRequest =
     io_bind (io_of planRequest) (\<lambda>plan.
       case plan of
         Inl code \<Rightarrow> io_return (DefinitiveFailure code)
       | Inr planned \<Rightarrow>
           State_Monad.bind (send_write client planned) (\<lambda>answer.
             case answer of Inr _ \<Rightarrow> io_return Applied | Inl error \<Rightarrow> io_return (classifyDynamoError nf error)))"

definition sendRead ::
  "('w, thrown_value + 'o) state \<Rightarrow> ('o \<Rightarrow> string + 'a) \<Rightarrow> ('w, string + 'a) io" where
  "sendRead send read =
     State_Monad.bind send (\<lambda>answer.
       case answer of Inl error \<Rightarrow> io_return (Inl (errorCode error)) | Inr out \<Rightarrow> io_return (read out))"

definition createDynamoDbItemStore :: "number_format \<Rightarrow> store_table_names \<Rightarrow> 'w dynamo_client \<Rightarrow> 'w durable_item_store" where
  "createDynamoDbItemStore nf tables client =
     \<lparr>item_write = (\<lambda>action. sendWrite nf client (planWrite nf tables action)),
      item_transact = (\<lambda>actions token. sendWrite nf client (planTransaction nf tables actions token)),
      item_get = (\<lambda>table key.
        case planGetItem tables table key of
          Inl code \<Rightarrow> io_return (Inl code)
        | Inr planned \<Rightarrow> sendRead (send_get client planned) (readGetItemOutput nf))\<rparr>"

subsection \<open>Planning never throws\<close>

lemma encode_total:
  "all_numbers (\<lambda>n. \<not> unencodableNumberReason n) v \<Longrightarrow> \<exists>a. encodeAttributeValue nf v = Inr a"
  "all_element_numbers (\<lambda>n. \<not> unencodableNumberReason n) vs \<Longrightarrow> \<exists>as. encodeAttributeList nf vs = Inr as"
  "all_member_numbers (\<lambda>n. \<not> unencodableNumberReason n) ms \<Longrightarrow> \<exists>as. encodeAttributeMap nf ms = Inr as"
proof (induction nf v and nf vs and nf ms rule: encodeAttributeValue_encodeAttributeList_encodeAttributeMap.induct)
  case (4 nf n)
  then show ?case by (simp add: encodeNumber_def)
next
  case (8 nf v vs)
  then show ?case by fastforce
next
  case (10 nf name v ms)
  then show ?case by fastforce
qed auto

lemma storable_encodes: "storableValueViolations v = [] \<Longrightarrow> \<exists>a. encodeAttributeValue nf v = Inr a"
  by (rule encode_total(1)) (simp add: storableValueViolations_def violations_iff)

lemma safe_integer_encodes: "isSafeInteger (JsInt i) \<Longrightarrow> storableValueViolations (JNumber (JsInt i)) = []"
proof -
  assume "isSafeInteger (JsInt i)"
  moreover have "\<not> \<bar>of_int i :: rat\<bar> < 1" if "i \<noteq> 0" using that by linarith
  moreover have "MIN_NUMBER_MAGNITUDE < 1" by (simp add: MIN_NUMBER_MAGNITUDE_def)
  ultimately show ?thesis
    by (auto simp: storableValueViolations_def JsInt_def)
qed

lemma encode_members_total:
  assumes "\<forall>(name, v) \<in> set ms. storableValueViolations v = []"
  shows "\<exists>as. encodeAttributeMap nf ms = Inr as"
  using assms
proof (induction ms)
  case (Cons m ms)
  obtain name v where m: "m = (name, v)" by fastforce
  with Cons storable_encodes [of v nf] show ?case by auto
qed simp

lemma numbered_Nil [simp]: "numbered p [] = []"
  by (simp add: numbered_def)

lemma update_terms_numbered:
  assumes "\<forall>(name, v) \<in> set entries. storableValueViolations v = []" and "length ns = length vs"
  shows "\<exists>terms as. length as = length entries \<and> length terms = length entries
    \<and> update_terms nf sep entries (numbered ''#u'' ns) (numbered '':u'' vs)
      = Inr (terms, numbered ''#u'' (ns @ map fst entries), numbered '':u'' (vs @ as))"
  using assms
proof (induction entries arbitrary: ns vs)
  case (Cons e entries)
  obtain name v where e: "e = (name, v)" by fastforce
  with Cons.prems storable_encodes [of v nf] obtain a where a: "encodeAttributeValue nf v = Inr a" by auto
  have len: "length (numbered ''#u'' ns) = length ns" by (simp add: numbered_def)
  have sets: "obj_set (''#u'' @ nat_text (length ns)) name (numbered ''#u'' ns) = numbered ''#u'' (ns @ [name])"
    "obj_set ('':u'' @ nat_text (length ns)) a (numbered '':u'' vs) = numbered '':u'' (vs @ [a])"
    using obj_set_numbered [of "''#u''" ns] obj_set_numbered [of "'':u''" vs] Cons.prems(2) by metis+
  from Cons.prems e Cons.IH [of "ns @ [name]" "vs @ [a]"] obtain terms as where
    "length as = length entries" "length terms = length entries"
    "update_terms nf sep entries (numbered ''#u'' (ns @ [name])) (numbered '':u'' (vs @ [a]))
      = Inr (terms, numbered ''#u'' (ns @ [name] @ map fst entries), numbered '':u'' (vs @ [a] @ as))"
    by auto
  then show ?case
    by (intro exI [of _ "(''#u'' @ nat_text (length ns) @ sep @ '':u'' @ nat_text (length ns)) # terms"] exI [of _ "a # as"])
      (simp add: e a len Let_def sets del: append_Cons, simp)
qed simp

definition update_names :: "(string \<times> json) list \<Rightarrow> (string \<times> int) list \<Rightarrow> string list" where
  "update_names sets increments = map fst (sortedEntries sets) @ map fst (sortedEntries increments)"

lemma toUpdateExpression_numbered:
  assumes "\<forall>(name, v) \<in> set sets. storableValueViolations v = []"
    and "\<forall>(name, i) \<in> set increments. isSafeInteger (JsInt i)"
  shows "\<exists>parts as. toUpdateExpression nf sets increments = Inr parts
    \<and> ep_names parts = numbered ''#u'' (update_names sets increments) \<and> ep_values parts = numbered '':u'' as"
proof -
  let ?incs = "map (\<lambda>(n, i). (n, JNumber (JsInt i))) (sortedEntries increments)"
  have incs: "\<forall>(name, v) \<in> set ?incs. storableValueViolations v = []"
    using assms(2) by (auto simp: sortedEntries_def safe_integer_encodes)
  have names: "map fst ?incs = map fst (sortedEntries increments)" by auto
  from assms(1) have "\<forall>(name, v) \<in> set (sortedEntries sets). storableValueViolations v = []"
    by (simp add: sortedEntries_def)
  from update_terms_numbered [OF this, of "[]" "[]" nf "'' = ''"] obtain terms as where
    1: "update_terms nf '' = '' (sortedEntries sets) [] []
      = Inr (terms, numbered ''#u'' (map fst (sortedEntries sets)), numbered '':u'' as)"
    and "length as = length (sortedEntries sets)"
    by auto
  with update_terms_numbered [OF incs, of "map fst (sortedEntries sets)" as nf "'' ''"] obtain terms' as' where
    "update_terms nf '' '' ?incs (numbered ''#u'' (map fst (sortedEntries sets))) (numbered '':u'' as)
      = Inr (terms', numbered ''#u'' (update_names sets increments), numbered '':u'' (as @ as'))"
    unfolding names update_names_def by auto
  then show ?thesis unfolding toUpdateExpression_def 1 by auto
qed

lemma expressionLimitViolations_total:
  assumes "structuralViolations nf action = []"
  shows "\<exists>vs. expressionLimitViolations nf action = Inr vs"
proof (cases action)
  case (Update t key sets increments c)
  with assms have "\<forall>(name, v) \<in> set sets. storableValueViolations v = []" "\<forall>(name, i) \<in> set increments. isSafeInteger (JsInt i)"
    by (fastforce simp: updateViolations_def Let_def filter_empty_conv)+
  with toUpdateExpression_numbered [of sets increments nf] Update show ?thesis
    by (auto simp: expressionLimitViolations_def Let_def)
qed (simp_all add: expressionLimitViolations_def Let_def)

lemma validateWriteAction_total: "\<exists>vs. validateWriteAction nf action = Inr vs"
  using expressionLimitViolations_total [of nf action] by (auto simp: validateWriteAction_def Let_def)

lemma validateWriteAction_valid:
  assumes "validateWriteAction nf action = Inr []"
  shows "structuralViolations nf action = []" and "expressionLimitViolations nf action = Inr []"
  using assms by (auto simp: validateWriteAction_def Let_def split: if_splits sum.splits)

lemma transactMember_total:
  assumes "structuralViolations nf action = []"
  shows "\<exists>m. transactMember nf tableName action = Inr m"
proof (cases action)
  case (Put t k item c)
  with assms have "\<forall>(name, v) \<in> set item. storableValueViolations v = []"
    by (fastforce simp: itemAttributeViolations_def)
  with encode_members_total [of item nf] Put show ?thesis by (auto simp: putInput_def)
next
  case (Update t key sets increments c)
  with assms have "\<forall>(name, v) \<in> set sets. storableValueViolations v = []" "\<forall>(name, i) \<in> set increments. isSafeInteger (JsInt i)"
    by (fastforce simp: updateViolations_def Let_def filter_empty_conv)+
  with toUpdateExpression_numbered [of sets increments nf] Update show ?thesis
    by (auto simp: updateInput_def)
qed simp

lemma planWrite_total: "\<exists>r. planWrite nf tables action = Inr r"
proof (cases "validateWriteAction nf action = Inr []")
  case True
  note m = transactMember_total [OF validateWriteAction_valid(1) [OF True]]
  show ?thesis
    by (cases action; cases "tables (action_table action)")
      (use m [of "the (tables (action_table action))"] True in \<open>auto simp: planWrite_def\<close>)
next
  case False
  with validateWriteAction_total [of nf action] show ?thesis by (auto simp: planWrite_def)
qed

lemma transaction_members_total: "\<exists>vs. transaction_members nf index actions seen violations = Inr vs"
proof (induction actions arbitrary: index seen violations)
  case (Cons action actions)
  obtain vs where "validateWriteAction nf action = Inr vs" using validateWriteAction_total [of nf action] ..
  then show ?case by (simp add: Let_def Cons.IH)
qed simp

lemma validateTransaction_total: "\<exists>vs. validateTransaction nf actions token = Inr vs"
proof -
  obtain vs where "transaction_members nf 0 actions Map.empty
      ((if length actions = 0 \<or> length actions > MAX_TRANSACTION_ACTIONS then [ActionCount] else [])
       @ (if isUuid4 (JString token) then [] else [InvalidRequestToken])) = Inr vs"
    using transaction_members_total [of nf 0 actions Map.empty] by blast
  then show ?thesis unfolding validateTransaction_def by (simp add: Let_def)
qed

subsection \<open>An accepted transaction\<close>

text \<open>The identity of an item tells items apart.\<close>

definition hex_value :: "char \<Rightarrow> nat" where
  "hex_value c = the (find_index ((=) c) ''0123456789abcdef'')"

fun unescape :: "string \<Rightarrow> char \<times> string" where
  "unescape (c # s) =
     (if c = CHR 0x5C
      then (case s of
              d # t \<Rightarrow>
                if d = CHR ''b'' then (CHR 0x08, t) else if d = CHR ''f'' then (CHR 0x0C, t)
                else if d = CHR ''n'' then (CHR 0x0A, t) else if d = CHR ''r'' then (CHR 0x0D, t)
                else if d = CHR ''t'' then (CHR 0x09, t)
                else if d = CHR ''u''
                then (char_of (hex_value (t ! 2) * 16 + hex_value (t ! 3)), drop 4 t)
                else (d, t)
            | [] \<Rightarrow> (c, s))
      else (c, s))"
| "unescape [] = (CHR 0x00, [])"

lemma hex_value_digit: "n < 16 \<Longrightarrow> hex_value (hex_digit n) = n"
proof -
  have "list_all (\<lambda>n. hex_value (hex_digit n) = n) [0..<16]" by code_simp
  then show "n < 16 \<Longrightarrow> ?thesis" by (simp add: list_all_iff del: upt_Suc)
qed

lemma char_of_hex: "char_of (of_char c div 16 * 16 + of_char c mod 16 :: nat) = c"
  by (simp add: div_mult_mod_eq)

lemma unescape_escape: "unescape (json_escape c @ s) = (c, s)"
proof -
  consider "c \<in> {CHR 0x22, CHR 0x5C, CHR 0x08, CHR 0x0C, CHR 0x0A, CHR 0x0D, CHR 0x09}"
    | "c \<notin> {CHR 0x22, CHR 0x5C, CHR 0x08, CHR 0x0C, CHR 0x0A, CHR 0x0D, CHR 0x09}" "of_char c < (32 :: nat)"
    | "c \<notin> {CHR 0x22, CHR 0x5C, CHR 0x08, CHR 0x0C, CHR 0x0A, CHR 0x0D, CHR 0x09}" "\<not> of_char c < (32 :: nat)"
    by blast
  then show ?thesis
  proof cases
    case 1
    then show ?thesis by (auto simp: json_escape_def)
  next
    case 2
    then have e: "json_escape c = CHR 0x5C # ''u00'' @ [hex_digit (of_char c div 16), hex_digit (of_char c mod 16)]"
      unfolding json_escape_def by simp
    have "(of_char c div 16 :: nat) < 16" "(of_char c mod 16 :: nat) < 16" using 2(2) by simp_all
    then show ?thesis unfolding e by (simp add: hex_value_digit char_of_hex)
  next
    case 3
    then have "json_escape c = [c]" unfolding json_escape_def by simp
    with 3(1) show ?thesis by simp
  qed
qed

lemma escape_head: "json_escape c \<noteq> [] \<and> hd (json_escape c) \<noteq> CHR 0x22"
  unfolding json_escape_def by simp

lemma escape_not_quote: "json_escape c @ s \<noteq> CHR 0x22 # t"
  using escape_head [of c] by (cases "json_escape c") auto

lemma json_body_inject:
  "concat (map json_escape s) @ CHR 0x22 # t = concat (map json_escape s') @ CHR 0x22 # t' \<Longrightarrow> s = s' \<and> t = t'"
proof (induction s arbitrary: s')
  case Nil
  then show ?case using escape_not_quote by (cases s') (auto dest: sym)
next
  case (Cons c s)
  show ?case
  proof (cases s')
    case Nil
    with Cons.prems escape_not_quote [of c] show ?thesis by simp
  next
    case (Cons c' u)
    with Cons.prems have "json_escape c @ concat (map json_escape s) @ CHR 0x22 # t = json_escape c' @ concat (map json_escape u) @ CHR 0x22 # t'"
      by simp
    then have "(c, concat (map json_escape s) @ CHR 0x22 # t) = (c', concat (map json_escape u) @ CHR 0x22 # t')"
      by (metis unescape_escape)
    with Cons Cons.IH [of u] show ?thesis by simp
  qed
qed

lemma json_quoted_inject: "json_quoted s @ t = json_quoted s' @ t' \<Longrightarrow> s = s' \<and> t = t'"
  by (rule json_body_inject) (simp add: json_quoted_def)

lemma table_text_inject: "table_text r @ CHR '' '' # s = table_text r' @ CHR '' '' # s' \<Longrightarrow> r = r' \<and> s = s'"
  by (cases r; cases r') simp_all

lemma itemIdentity_eq_iff: "itemIdentity a = itemIdentity b \<longleftrightarrow> (action_table a, actionKey a) = (action_table b, actionKey b)"
proof
  assume "itemIdentity a = itemIdentity b"
  then have "table_text (action_table a) @ CHR '' '' # (json_quoted (pk (actionKey a)) @ '' '' @ json_quoted (sk (actionKey a)))
      = table_text (action_table b) @ CHR '' '' # (json_quoted (pk (actionKey b)) @ '' '' @ json_quoted (sk (actionKey b)))"
    unfolding itemIdentity_def append_Cons append_Nil .
  note tk = table_text_inject [OF this]
  note k' = json_quoted_inject [OF tk [THEN conjunct2]]
  then have "json_quoted (sk (actionKey a)) @ [] = json_quoted (sk (actionKey b)) @ []" by simp
  note s = json_quoted_inject [OF this]
  have "actionKey a = actionKey b"
    by (rule item_key.equality) (use k' s in simp_all)
  with tk show "(action_table a, actionKey a) = (action_table b, actionKey b)" by simp
qed (simp add: itemIdentity_def)

text \<open>
  The loop over the members: it keeps every violation, and none is found exactly when every
  action is valid and no item is targeted twice. \<open>seen\<close> holds the identities of the items before.
\<close>

lemma transaction_members_valid_iff:
  "transaction_members nf index actions seen violations = Inr [] \<longleftrightarrow>
     violations = [] \<and> (\<forall>a \<in> set actions. validateWriteAction nf a = Inr [] \<and> itemIdentity a \<notin> dom seen)
     \<and> distinct (map itemIdentity actions)"
proof (induction actions arbitrary: index seen violations)
  case (Cons a actions)
  obtain vs where vs: "validateWriteAction nf a = Inr vs" using validateWriteAction_total [of nf a] ..
  have valid: "keyViolations (actionKey a) = []" if "vs = []"
    using validateWriteAction_valid(1) [of nf a] vs that by (cases a) auto
  have seen: "(\<forall>b \<in> set actions. P b \<and> itemIdentity b \<notin> dom (seen(itemIdentity a \<mapsto> index))) \<longleftrightarrow>
      (\<forall>b \<in> set actions. P b \<and> itemIdentity b \<notin> dom seen) \<and> itemIdentity a \<notin> itemIdentity ` set actions" for P
    by (simp only: dom_fun_upd option.distinct if_False) (blast dest: sym)
  show ?case
  proof (cases "vs = []")
    case True
    have "transaction_members nf index (a # actions) seen violations
        = transaction_members nf (index + 1) actions (seen(itemIdentity a \<mapsto> index))
            (violations @ (case seen (itemIdentity a) of None \<Rightarrow> [] | Some e \<Rightarrow> [SameItem index e]))"
      using vs valid True by simp
    also have "\<dots> = Inr [] \<longleftrightarrow> violations = [] \<and> itemIdentity a \<notin> dom seen
        \<and> (\<forall>b \<in> set actions. validateWriteAction nf b = Inr [] \<and> itemIdentity b \<notin> dom seen)
        \<and> itemIdentity a \<notin> itemIdentity ` set actions \<and> distinct (map itemIdentity actions)"
      unfolding Cons.IH seen by (simp split: option.splits) blast
    finally show ?thesis using vs True by auto
  next
    case False
    with vs show ?thesis by (simp add: Let_def Cons.IH)
  qed
qed auto

lemma plan_members_total:
  "\<forall>a \<in> set actions. structuralViolations nf a = [] \<Longrightarrow> \<exists>r. plan_members nf tables actions members = Inr r"
proof (induction actions arbitrary: members)
  case (Cons a actions)
  show ?case
  proof (cases "tables (action_table a)")
    case (Some name)
    obtain m where "transactMember nf name a = Inr m" using transactMember_total [of nf a name] Cons.prems by auto
    with Some Cons show ?thesis by simp
  qed simp
qed simp

lemma validateTransaction_members:
  "validateTransaction nf actions token = Inr [] \<Longrightarrow> \<forall>a \<in> set actions. validateWriteAction nf a = Inr []"
  unfolding validateTransaction_def
  by (auto simp: transaction_members_valid_iff Let_def split: sum.splits if_splits)

lemma planTransaction_total: "\<exists>plan. planTransaction nf tables actions token = Inr plan"
proof (cases "validateTransaction nf actions token = Inr []")
  case True
  then have "\<forall>a \<in> set actions. structuralViolations nf a = []"
    using validateTransaction_members validateWriteAction_valid(1) by blast
  from plan_members_total [OF this, of tables "[]"] True show ?thesis
    by (auto simp: planTransaction_def)
next
  case False
  with validateTransaction_total [of nf actions token] show ?thesis by (auto simp: planTransaction_def)
qed

text \<open>
  C27: a transaction is accepted exactly when DynamoDB's documented limits hold: one to one
  hundred actions, each acceptable alone, no two on the same item of the same table, a UUIDv4
  token and at most 4 MB of item data. The validator answers on every input, it never throws, and
  so planning a write or a transaction never throws either.
\<close>

theorem transaction_accepted_iff:
  "(validateTransaction nf actions token = Inr [] \<longleftrightarrow>
      1 \<le> length actions \<and> length actions \<le> 100
      \<and> (list_all (\<lambda>a. validateWriteAction nf a = Inr []) actions)
      \<and> distinct (map (\<lambda>a. (action_table a, actionKey a)) actions)
      \<and> isUuid4 (JString token) \<and> transactionDataBytes nf actions \<le> 4 * 1024 * 1024)
   \<and> (\<exists>vs. validateTransaction nf actions token = Inr vs)
   \<and> (\<exists>plan. planWrite nf tables action = Inr plan)
   \<and> (\<exists>plan. planTransaction nf tables actions token = Inr plan)"
proof (intro conjI)
  have d: "distinct (map itemIdentity actions) \<longleftrightarrow> distinct (map (\<lambda>a. (action_table a, actionKey a)) actions)"
    by (simp add: distinct_map inj_on_def itemIdentity_eq_iff)
  obtain vs where vs: "transaction_members nf 0 actions Map.empty
      ((if length actions = 0 \<or> length actions > MAX_TRANSACTION_ACTIONS then [ActionCount] else [])
       @ (if isUuid4 (JString token) then [] else [InvalidRequestToken])) = Inr vs"
    using transaction_members_total [of nf 0 actions Map.empty] by blast
  have "validateTransaction nf actions token = Inr [] \<longleftrightarrow> vs = [] \<and> transactionDataBytes nf actions \<le> 4 * 1024 * 1024"
    unfolding validateTransaction_def vs by (simp add: Let_def MAX_TRANSACTION_DATA_BYTES_def not_less)
  moreover have "vs = [] \<longleftrightarrow> 1 \<le> length actions \<and> length actions \<le> 100 \<and> isUuid4 (JString token)
      \<and> (\<forall>a \<in> set actions. validateWriteAction nf a = Inr []) \<and> distinct (map itemIdentity actions)"
    using transaction_members_valid_iff [of nf 0 actions Map.empty "(if length actions = 0 \<or> length actions > MAX_TRANSACTION_ACTIONS then [ActionCount] else [])
       @ (if isUuid4 (JString token) then [] else [InvalidRequestToken])"] vs
    by (auto simp: MAX_TRANSACTION_ACTIONS_def Suc_le_eq)
  ultimately show "validateTransaction nf actions token = Inr [] \<longleftrightarrow>
      1 \<le> length actions \<and> length actions \<le> 100 \<and> list_all (\<lambda>a. validateWriteAction nf a = Inr []) actions
      \<and> distinct (map (\<lambda>a. (action_table a, actionKey a)) actions)
      \<and> isUuid4 (JString token) \<and> transactionDataBytes nf actions \<le> 4 * 1024 * 1024"
    unfolding d list_all_iff by blast
qed (rule validateTransaction_total planWrite_total planTransaction_total)+

subsection \<open>A planned request carries its action\<close>

text \<open>A condition the validator accepts, by recursion; and one whose numbers survive as text.\<close>

fun cond_accepted :: "condition \<Rightarrow> bool" where
  "cond_accepted (AllOf cs) \<longleftrightarrow> cs \<noteq> [] \<and> list_all cond_accepted cs"
| "cond_accepted c \<longleftrightarrow> conditionNodeViolations c = []"

fun cond_exact :: "number_format \<Rightarrow> condition \<Rightarrow> bool" where
  "cond_exact nf (AttributeEquals name (SNumber n)) \<longleftrightarrow> format_exact nf n"
| "cond_exact nf (AllOf cs) \<longleftrightarrow> list_all (cond_exact nf) cs"
| "cond_exact nf _ \<longleftrightarrow> True"

lemma condition_walk_empty: "condition_walk pending violations = [] \<longleftrightarrow> violations = [] \<and> list_all cond_accepted pending"
proof (induction pending violations rule: condition_walk.induct)
  case (2 node pending violations)
  have "cond_accepted node \<longleftrightarrow> conditionNodeViolations node = [] \<and> list_all cond_accepted (nested_conditions node)"
    by (cases node) auto
  with 2 show ?case by (auto simp: pushEach_eq)
qed simp

lemma accepted_renderable: "cond_accepted c \<Longrightarrow> cond_exact nf c \<Longrightarrow> renderable nf c"
proof (induction c)
  case (AttributeEquals name x)
  then show ?case by (cases x) (auto simp: storableValueViolations_def split: if_splits)
next
  case (AllOf cs)
  then show ?case by (auto simp: list_all_iff)
qed auto

lemma conditionViolations_accepted: "conditionViolations c = [] \<Longrightarrow> cond_accepted c"
  using condition_walk_empty [of "[c]" "[]"]
  by (auto simp: conditionViolations_def simp del: condition_walk.simps split: if_splits)

lemma structural_condition: "structuralViolations nf a = [] \<Longrightarrow> action_condition a = Some c \<Longrightarrow> cond_accepted c"
  by (cases a) (auto intro: conditionViolations_accepted)

lemma obj_merge_new:
  "distinct (map fst over) \<Longrightarrow> fst ` set base \<inter> fst ` set over = {} \<Longrightarrow> obj_merge base over = base @ over"
proof (induction over arbitrary: base)
  case (Cons e over)
  obtain k v where e: "e = (k, v)" by fastforce
  with Cons.prems have "obj_set k v base = base @ [(k, v)]" by (intro obj_set_new) auto
  with Cons.IH [of "base @ [(k, v)]"] Cons.prems e show ?case by (auto simp: obj_merge_def)
qed (simp add: obj_merge_def)

lemma distinct_numbered: "distinct (map fst (numbered p xs))"
  by (simp add: numbered_def comp_def distinct_map inj_on_def)

lemma numbered_disjoint:
  "p \<noteq> q \<Longrightarrow> length p = length q \<Longrightarrow> fst ` set (numbered p xs) \<inter> fst ` set (numbered q ys) = {}"
  by (auto simp: numbered_names)

lemma obj_merge_numbered:
  "p \<noteq> q \<Longrightarrow> length p = length q \<Longrightarrow> obj_merge (numbered p xs) (numbered q ys) = numbered p xs @ numbered q ys"
  by (rule obj_merge_new) (simp_all add: distinct_numbered numbered_disjoint)

lemma resolved_merged:
  assumes "p \<noteq> q" and "length p = length q"
  shows "resolved p (numbered p xs @ numbered q ys) missing = resolved p (numbered p xs) missing"
proof
  fix i
  have "map_of (numbered q ys) (p @ nat_text i) = None"
    using assms by (auto simp: map_of_eq_None_iff numbered_names)
  then show "resolved p (numbered p xs @ numbered q ys) missing i = resolved p (numbered p xs) missing i"
    by (simp add: resolved_def map_add_def split: option.splits)
qed

fun planned_members :: "planned_write \<Rightarrow> member_input list" where
  "planned_members (PlannedPutItem m) = [m]"
| "planned_members (PlannedUpdateItem m) = [m]"
| "planned_members (PlannedTransactWriteItems ms _) = ms"

fun member_fields :: "member_input \<Rightarrow> condition_fields option" where
  "member_fields (PutInput _ _ fs) = fs"
| "member_fields (UpdateInput _ _ _ fs) = Some fs"
| "member_fields (CheckInput _ _ fs) = Some fs"

definition field_values :: "condition_fields \<Rightarrow> (string \<times> json) list" where
  "field_values fs = (case cf_ExpressionAttributeValues fs of None \<Rightarrow> [] | Some vs \<Rightarrow> vs)"

text \<open>The fields of a member: the condition's expression, and both sets of placeholders side by side.\<close>

lemma transactMember_fields:
  assumes "structuralViolations nf a = []" and "transactMember nf name a = Inr m" and "action_condition a = Some c"
  shows "\<exists>fs us ws. member_fields m = Some fs
    \<and> cf_ConditionExpression fs = ep_expression (toConditionExpression nf c)
    \<and> cf_ExpressionAttributeNames fs = ep_names (toConditionExpression nf c) @ numbered ''#u'' us
    \<and> field_values fs = ep_values (toConditionExpression nf c) @ numbered '':u'' ws
    \<and> cf_ReturnValuesOnConditionCheckFailure fs = ''ALL_OLD''"
proof (cases a)
  case (Put t k item c')
  with assms show ?thesis
    by (intro exI [of _ "mergedExpressionFields (toConditionExpression nf c) None"] exI [of _ "[]"])
      (auto simp: putInput_def conditionFields_def mergedExpressionFields_def field_values_def Let_def obj_merge_def split: sum.splits)
next
  case (ConditionCheck t k c')
  with assms show ?thesis
    by (intro exI [of _ "mergedExpressionFields (toConditionExpression nf c) None"] exI [of _ "[]"])
      (auto simp: conditionCheckInput_def mergedExpressionFields_def field_values_def Let_def obj_merge_def)
next
  case (Update t k sets incs c')
  with assms(1) have "\<forall>(name, v) \<in> set sets. storableValueViolations v = []" "\<forall>(name, i) \<in> set incs. isSafeInteger (JsInt i)"
    by (fastforce simp: updateViolations_def Let_def filter_empty_conv)+
  from toUpdateExpression_numbered [OF this, of nf] obtain parts ws where
    parts: "toUpdateExpression nf sets incs = Inr parts" "ep_names parts = numbered ''#u'' (update_names sets incs)"
      "ep_values parts = numbered '':u'' ws" by blast
  have "mergedExpressionFields (toConditionExpression nf c) (Some parts)
      = \<lparr>cf_ConditionExpression = ep_expression (toConditionExpression nf c),
          cf_ExpressionAttributeNames = ep_names (toConditionExpression nf c) @ numbered ''#u'' (update_names sets incs),
          cf_ExpressionAttributeValues = (if length (ep_values (toConditionExpression nf c) @ numbered '':u'' ws) = 0 then None
             else Some (ep_values (toConditionExpression nf c) @ numbered '':u'' ws)),
          cf_ReturnValuesOnConditionCheckFailure = ''ALL_OLD''\<rparr>"
    unfolding mergedExpressionFields_def Let_def option.case parts toConditionExpression_parts
    by (simp add: obj_merge_numbered)
  with Update assms(2,3) parts(1) show ?thesis
    by (intro exI [of _ "mergedExpressionFields (toConditionExpression nf c) (Some parts)"] exI [of _ "update_names sets incs"] exI [of _ ws])
      (auto simp: updateInput_def field_values_def)
qed

text \<open>
  C25: a planned request carries its condition. Whatever plan a valid conditional action leads to,
  its one member asks for the condition's expression, over a map of names and a map of values in
  which no placeholder is bound twice although both clauses of an update share them; looked up in
  those maps the expression holds of an item exactly when the action's condition does, and the
  request asks for the old item on a failed condition.
\<close>

theorem planned_request_condition:
  assumes "planWrite nf tables a = Inr (Inr plan)" and "action_condition a = Some c" and "cond_exact nf c"
    and "case item of None \<Rightarrow> True | Some i \<Rightarrow> own_member i ''pk'' \<noteq> None"
  shows "\<exists>m fs d. planned_members plan = [m] \<and> member_fields m = Some fs
    \<and> cf_ConditionExpression fs = dyn_text d \<and> dyn_parses d
    \<and> distinct (map fst (cf_ExpressionAttributeNames fs)) \<and> distinct (map fst (field_values fs))
    \<and> (dyn_holds nf (resolved ''#c'' (cf_ExpressionAttributeNames fs) []) (resolved '':c'' (field_values fs) JNull) item d
        \<longleftrightarrow> conditionHolds c item)
    \<and> cf_ReturnValuesOnConditionCheckFailure fs = ''ALL_OLD''"
proof -
  from assms(1) have valid: "validateWriteAction nf a = Inr []"
    by (auto simp: planWrite_def split: sum.splits if_splits)
  note structural = validateWriteAction_valid(1) [OF valid]
  from assms(1) valid obtain name where name: "tables (action_table a) = Some name"
    by (auto simp: planWrite_def split: option.splits)
  obtain m where m: "transactMember nf name a = Inr m" and plan: "planned_members plan = [m]"
    using assms(1) valid name transactMember_total [OF structural, of name] by (cases a) (auto simp: planWrite_def)
  from transactMember_fields [OF structural m assms(2)] obtain fs us ws where f: "member_fields m = Some fs"
    "cf_ConditionExpression fs = ep_expression (toConditionExpression nf c)"
    "cf_ExpressionAttributeNames fs = numbered ''#c'' (cond_names c) @ numbered ''#u'' us"
    "field_values fs = numbered '':c'' (cond_values nf c) @ numbered '':u'' ws"
    "cf_ReturnValuesOnConditionCheckFailure fs = ''ALL_OLD''"
    by (auto simp: toConditionExpression_parts)
  have "renderable nf c" using structural_condition [OF structural assms(2)] assms(3) by (rule accepted_renderable)
  from condition_rendered [OF this assms(4)] have "dyn_parses (dyn_of nf c 0 0)"
    "dyn_holds nf (resolved ''#c'' (numbered ''#c'' (cond_names c)) []) (resolved '':c'' (numbered '':c'' (cond_values nf c)) JNull) item (dyn_of nf c 0 0)
      \<longleftrightarrow> conditionHolds c item"
    by blast+
  with plan f show ?thesis
    by (intro exI [of _ m] exI [of _ fs] exI [of _ "dyn_of nf c 0 0"])
      (simp add: toConditionExpression_parts resolved_merged distinct_numbered numbered_disjoint del: append_Cons)
qed

definition sample_update :: write_action where
  "sample_update =
     Update ControlTable \<lparr>pk = ''run#trial'', sk = ''treatment''\<rparr> [(''state'', JString ''RELEASED'')] [(''version'', 1)] sample_condition"

definition sample_tables :: store_table_names where
  "sample_tables = [ControlTable \<mapsto> ''suc1-control'']"

lemmas sample_limit_defs =
  MAX_SORT_KEY_BYTES_def MAX_PARTITION_KEY_BYTES_def MAX_ATTRIBUTE_NAME_BYTES_def MAX_ITEM_BYTES_def MAX_IN_OPERANDS_def
  MAX_EXPRESSION_BYTES_def MAX_SUBSTITUTION_BYTES_def

lemma sample_key_valid: "keyViolations \<lparr>pk = ''run#trial'', sk = ''treatment''\<rparr> = []"
  by (simp add: keyViolations_def partitionKeyViolations_def keyPartViolation_def utf8Bytes_def sample_limit_defs)

lemma sample_condition_valid: "conditionViolations sample_condition = []"
proof -
  have "conditionNesting sample_condition = 1" by (simp add: conditionNesting_depth sample_condition_def)
  moreover have "condition_walk [sample_condition] [] = []"
    unfolding condition_walk_empty
    by (simp add: sample_condition_def attributeNameViolation_def utf8Bytes_def storableValueViolations_def sample_limit_defs
        JsInt_def MIN_NUMBER_MAGNITUDE_def MAX_SAFE_INTEGER_def)
  ultimately show ?thesis
    by (simp add: conditionViolations_def MAX_CONDITION_NESTING_def MAX_EXPRESSION_BYTES_def SHORTEST_LEAF_BYTES_def del: condition_walk.simps)
qed

lemma sample_update_valid:
  "updateViolations integer_format \<lparr>pk = ''run#trial'', sk = ''treatment''\<rparr> [(''state'', JString ''RELEASED'')] [(''version'', 1)] = []"
  by (simp add: updateViolations_def Let_def KEY_ATTRIBUTES_def attributeNameViolation_def storableValueViolations_def JsInt_def
      MAX_SAFE_INTEGER_def itemSizeViolation_def estimatedItemBytes_eq obj_merge_def key_members_def utf8Bytes_def sample_limit_defs)

lemma sample_update_structural: "structuralViolations integer_format sample_update = []"
  by (simp add: sample_update_def sample_key_valid sample_update_valid sample_condition_valid)

lemma sample_update_text:
  "map_sum id ep_expression (toUpdateExpression integer_format [(''state'', JString ''RELEASED'')] [(''version'', 1)])
     = Inr ''SET #u0 = :u0 ADD #u1 :u1''"
  by code_simp

lemma sample_digits: "significantDigits integer_format (JsInt 3) = 1" "significantDigits integer_format (JsInt 1) = 1"
  by code_simp+

lemma sample_update_limits: "expressionLimitViolations integer_format sample_update = Inr []"
proof -
  have "conditionLimitViolations integer_format sample_condition = []"
    using sample_condition_bytes sample_condition_operators
    by (simp add: conditionLimitViolations_def expressionLengthViolation_def MAX_EXPRESSION_BYTES_def MAX_EXPRESSION_OPERATORS_def)
  moreover obtain parts where "toUpdateExpression integer_format [(''state'', JString ''RELEASED'')] [(''version'', 1)] = Inr parts"
    "utf8Bytes (ep_expression parts) \<le> MAX_EXPRESSION_BYTES"
    using sample_update_text
    by (cases "toUpdateExpression integer_format [(''state'', JString ''RELEASED'')] [(''version'', 1)]")
      (auto simp: utf8Bytes_def sample_limit_defs)
  moreover have "substitutionBytes integer_format sample_update \<le> MAX_SUBSTITUTION_BYTES"
    by (simp add: substitutionBytes_def sample_update_def sample_condition_def conditionOperands_def conditionNodes_def pushEach_def
        estimatedValueBytes_eq sample_digits utf8Bytes_def sample_limit_defs)
  ultimately show ?thesis
    by (simp add: sample_update_def expressionLimitViolations_def Let_def expressionLengthViolation_def)
qed

lemma sample_update_planned: "\<exists>plan. planWrite integer_format sample_tables sample_update = Inr (Inr plan)"
proof -
  have "validateWriteAction integer_format sample_update = Inr []"
    by (simp add: validateWriteAction_def sample_update_structural sample_update_limits)
  with transactMember_total [OF sample_update_structural, of "''suc1-control''"] show ?thesis
    by (auto simp: planWrite_def sample_tables_def sample_update_def)
qed

theorem planned_request_condition_witness:
  "\<exists>plan m fs d. planWrite integer_format sample_tables sample_update = Inr (Inr plan) \<and> planned_members plan = [m]
     \<and> member_fields m = Some fs \<and> cf_ConditionExpression fs = dyn_text d
     \<and> \<not> dyn_holds integer_format (resolved ''#c'' (cf_ExpressionAttributeNames fs) []) (resolved '':c'' (field_values fs) JNull) None d"
proof -
  obtain plan where plan: "planWrite integer_format sample_tables sample_update = Inr (Inr plan)"
    using sample_update_planned by blast
  have "cond_exact integer_format sample_condition" by (simp add: sample_condition_def integer_format_exact)
  moreover have "\<not> conditionHolds sample_condition None" by (simp add: sample_condition_def)
  ultimately show ?thesis
    using plan planned_request_condition [of integer_format sample_tables sample_update plan sample_condition None]
    by (auto simp: sample_update_def)
qed

subsection \<open>The adapter answers honestly\<close>

text \<open>A rejection DynamoDB documents: a failed condition, a cancelled transaction or one of the listed errors.\<close>

definition documented_rejection :: "thrown_value \<Rightarrow> bool" where
  "documented_rejection error \<longleftrightarrow>
     errorCode error \<in> {''ConditionalCheckFailedException'', ''TransactionCanceledException''} \<union> set DEFINITIVE_ERROR_NAMES"

lemma classifyCancellation_shape:
  "(\<exists>n e. classifyCancellation nf reasons = ConditionFailed n e) \<or> (\<exists>code. classifyCancellation nf reasons = DefinitiveFailure code)"
  by (auto simp: classifyCancellation_def conditionFailed_def Let_def split: option.splits sum.splits)

lemma classified:
  "classifyDynamoError nf error \<noteq> Applied"
  "classifyDynamoError nf error = ConditionFailed n e \<Longrightarrow> documented_rejection error"
  "classifyDynamoError nf error = DefinitiveFailure code \<Longrightarrow> documented_rejection error"
proof -
  have c: "conditionFailed nf i raw \<noteq> Applied" for i raw
    by (auto simp: conditionFailed_def split: option.splits sum.splits)
  show "classifyDynamoError nf error \<noteq> Applied"
    using classifyCancellation_shape [of nf "projr (errorProperty error ''CancellationReasons'')"]
    by (cases "errorProperty error ''Item''"; cases "errorProperty error ''CancellationReasons''")
      (auto simp: classifyDynamoError_def classifyReadableError_def Let_def c)
  have "documented_rejection error \<or> classifyDynamoError nf error = Ambiguous (errorCode error)"
    unfolding documented_rejection_def classifyDynamoError_def classifyReadableError_def by (auto simp: Let_def)
  then show "classifyDynamoError nf error = ConditionFailed n e \<Longrightarrow> documented_rejection error"
    "classifyDynamoError nf error = DefinitiveFailure code \<Longrightarrow> documented_rejection error"
    by auto
qed


text \<open>A service that applies the request and loses the answer.\<close>

definition lossy_client :: "nat dynamo_client" where
  "lossy_client =
     \<lparr>send_write = (\<lambda>request. State (\<lambda>n. (Inl (ErrorObject (\<lambda>name. Inr (if name = ''name'' then Some (JString ''TimeoutError'') else None))), n + 1))),
      send_get = (\<lambda>request. State (\<lambda>n. (Inl NotAnObject, n)))\<rparr>"


end
