(* ===== verification/Stream_Consumer.thy ===== *)
theory Stream_Consumer
  imports Treatment_Controller Attribute_Codec
begin

text \<open>
  The invocation body of the controller function (\<^verbatim>\<open>treatment-controller/stream-record.ts\<close> and
  \<^verbatim>\<open>stream-consumer.ts\<close>): one stream event, read record by record, handed to the controller and
  logged. The controller is the handler the consumer is given; the world carries the log. The text
  of a detail is not modelled, and an event is the JSON value the platform parsed.
\<close>

definition STREAM_RECORD_MALFORMED :: string where "STREAM_RECORD_MALFORMED = ''STREAM_RECORD_MALFORMED''"

fun object_members :: "json option \<Rightarrow> json_object option" where
  "object_members (Some (JObject ms)) = Some ms"
| "object_members _ = None"

definition unmarshallStreamRecord :: "number_format \<Rightarrow> json \<Rightarrow> string + stream_insert_record" where
  "unmarshallStreamRecord nf raw =
     (case object_members (Some raw) of
        None \<Rightarrow> Inl STREAM_RECORD_MALFORMED
      | Some members \<Rightarrow>
          (case (own_member members ''eventName'', object_members (own_member members ''dynamodb'')) of
             (Some (JString eventName), Some change) \<Rightarrow>
               (case own_member change ''SequenceNumber'' of
                  Some (JString sequenceNumber) \<Rightarrow>
                    (case decodeStoredItem nf (own_member change ''NewImage'') of
                       Inl _ \<Rightarrow> Inl STREAM_RECORD_MALFORMED
                     | Inr img \<Rightarrow>
                         Inr \<lparr>si_event_name = eventName, si_new_image = img, si_sequence_number = sequenceNumber\<rparr>)
                | _ \<Rightarrow> Inl STREAM_RECORD_MALFORMED)
           | _ \<Rightarrow> Inl STREAM_RECORD_MALFORMED))"

datatype controller_log_line =
    RecordHandled string controller_outcome
  | StreamRecordUnreadable string
  | StreamEventUnreadable
  | ControllerFaultLog js_throw
  | ControllerErrorLog js_throw

definition streamRecords :: "json \<Rightarrow> unit + json list" where
  "streamRecords event =
     (case Option.bind (object_members (Some event)) (\<lambda>ms. own_member ms ''Records'') of
        Some (JArray records) \<Rightarrow> Inr records
      | _ \<Rightarrow> Inl ())"

definition log_line :: "controller_log_line \<Rightarrow> (controller_log_line list \<times> 'w, unit) io" where
  "log_line line = io_bind io_get (\<lambda>lines. io_put (lines @ [line]))"

text \<open>\<^verbatim>\<open>error instanceof ControllerFault ? error.toLog() : ...\<close>\<close>

fun error_line :: "js_throw \<Rightarrow> controller_log_line" where
  "error_line (ControllerFault code key) = ControllerFaultLog (ControllerFault code key)"
| "error_line e = ControllerErrorLog e"

definition consumeRecord ::
  "number_format \<Rightarrow> (stream_insert_record \<Rightarrow> ('w, controller_outcome) io) \<Rightarrow> json \<Rightarrow> (controller_log_line list \<times> 'w, unit) io" where
  "consumeRecord nf handle raw =
     (case unmarshallStreamRecord nf raw of
        Inl code \<Rightarrow> log_line (StreamRecordUnreadable code)
      | Inr streamed \<Rightarrow>
          io_catch
            (io_bind (io_lift (handle streamed)) (\<lambda>outcome. log_line (RecordHandled (si_sequence_number streamed) outcome)))
            (\<lambda>e. io_bind (log_line (error_line e)) (\<lambda>_. io_throw e)))"

fun consume_all ::
  "number_format \<Rightarrow> (stream_insert_record \<Rightarrow> ('w, controller_outcome) io) \<Rightarrow> json list \<Rightarrow> (controller_log_line list \<times> 'w, unit) io" where
  "consume_all nf handle [] = io_return ()"
| "consume_all nf handle (raw # raws) = io_bind (consumeRecord nf handle raw) (\<lambda>_. consume_all nf handle raws)"

definition consumeStreamEvent ::
  "number_format \<Rightarrow> (stream_insert_record \<Rightarrow> ('w, controller_outcome) io) \<Rightarrow> json \<Rightarrow> (controller_log_line list \<times> 'w, unit) io" where
  "consumeStreamEvent nf handle event =
     (case streamRecords event of Inl _ \<Rightarrow> log_line StreamEventUnreadable | Inr raws \<Rightarrow> consume_all nf handle raws)"

subsection \<open>Every record leaves one line\<close>

text \<open>The line of a record that was skipped or handled.\<close>

definition consumed_line :: "number_format \<Rightarrow> json \<Rightarrow> controller_log_line \<Rightarrow> bool" where
  "consumed_line nf raw line \<longleftrightarrow>
     (case unmarshallStreamRecord nf raw of
        Inl code \<Rightarrow> line = StreamRecordUnreadable code
      | Inr streamed \<Rightarrow> (\<exists>outcome. line = RecordHandled (si_sequence_number streamed) outcome))"

lemma run_log_line [simp]: "run_state (log_line line) (lines, w) = (Inr (), (lines @ [line], w))"
  by (simp add: log_line_def)

lemma consumeRecord_line:
  assumes "run_state (consumeRecord nf handle raw) (lines, w) = (r, (lines', w'))"
  shows "\<exists>line. lines' = lines @ [line] \<and>
    (case r of
       Inr _ \<Rightarrow> consumed_line nf raw line
     | Inl e \<Rightarrow> line = error_line e
         \<and> (\<exists>streamed. unmarshallStreamRecord nf raw = Inr streamed \<and> run_state (handle streamed) w = (Inl e, w')))"
proof (cases "unmarshallStreamRecord nf raw")
  case (Inl code)
  with assms show ?thesis by (auto simp: consumeRecord_def consumed_line_def)
next
  case (Inr streamed)
  obtain q v where "run_state (handle streamed) w = (q, v)" by fastforce
  with Inr assms show ?thesis
    by (cases q) (auto simp: consumeRecord_def consumed_line_def split: prod.splits)
qed

text \<open>The lines of the records, by the answer of the invocation.\<close>

definition consumed_lines ::
  "number_format \<Rightarrow> (stream_insert_record \<Rightarrow> ('w, controller_outcome) io) \<Rightarrow> json list \<Rightarrow> js_throw + unit
   \<Rightarrow> controller_log_line list \<Rightarrow> 'w \<Rightarrow> bool" where
  "consumed_lines nf handle raws r ls w' \<longleftrightarrow>
     (case r of
        Inr _ \<Rightarrow> list_all2 (consumed_line nf) raws ls
      | Inl e \<Rightarrow> \<exists>before raw after ls' streamed v. raws = before @ raw # after \<and> ls = ls' @ [error_line e]
          \<and> list_all2 (consumed_line nf) before ls' \<and> unmarshallStreamRecord nf raw = Inr streamed
          \<and> run_state (handle streamed) v = (Inl e, w'))"

lemma consumed_lines_Cons:
  assumes "consumed_line nf raw line" and "consumed_lines nf handle raws r ls w'"
  shows "consumed_lines nf handle (raw # raws) r (line # ls) w'"
  using assms unfolding consumed_lines_def by (cases r) (simp, metis append_Cons list_all2_Cons, simp)

lemma consume_all_lines:
  assumes "run_state (consume_all nf handle raws) (lines, w) = (r, (lines', w'))"
  shows "\<exists>ls. lines' = lines @ ls \<and> consumed_lines nf handle raws r ls w'"
  using assms
proof (induction raws arbitrary: lines w)
  case Nil
  then show ?case by (auto simp: consumed_lines_def)
next
  case (Cons raw raws)
  obtain q lines1 w1 where one: "run_state (consumeRecord nf handle raw) (lines, w) = (q, (lines1, w1))"
    by (metis prod_cases3)
  show ?case
  proof (cases q)
    case (Inl e)
    with one Cons.prems have "r = Inl e" "lines' = lines1" "w' = w1" by simp_all
    with consumeRecord_line [OF one] Inl show ?thesis
      by (auto simp: consumed_lines_def intro!: exI [of _ "[]"] exI [of _ raw])
  next
    case (Inr x)
    from consumeRecord_line [OF one] Inr obtain line where line: "lines1 = lines @ [line]" "consumed_line nf raw line" by auto
    from one Inr Cons.prems have "run_state (consume_all nf handle raws) (lines1, w1) = (r, (lines', w'))" by simp
    from Cons.IH [OF this] line consumed_lines_Cons [OF line(2)] show ?thesis by auto
  qed
qed


text \<open>An unreadable record, then one whose handling fails.\<close>

definition sample_event :: json where
  "sample_event =
     JObject [(''Records'', JArray [JNull, JObject [(''eventName'', JString ''INSERT''),
       (''dynamodb'', JObject [(''SequenceNumber'', JString ''1''),
          (''NewImage'', JObject [(''pk'', attr ''S'' (JString ''p'')), (''sk'', attr ''S'' (JString ''s''))])])]])]"

definition failing_handler :: "stream_insert_record \<Rightarrow> (unit, controller_outcome) io" where
  "failing_handler streamed = io_throw (ControllerFault SIGNAL_FAILED ''k'')"


end
