(* ===== verification/Spec2Isabelle.thy ===== *)
theory Spec2Isabelle
  imports Attempt_Lifecycle Lease_World Settlement Safety Provider_Ledger Signal_Truth Treatment_Protocol Store_Requests Stream_Consumer
begin

text \<open>
  Verification of Study 1 of ``Serverless Under Constraints''.
\<close>

end
